(* ===== verification/Prelude.thy ===== *)
theory Prelude
  imports Main "HOL-Library.Word"
begin

text \<open>
  Shared ground of the development: the result type of fallible operations, the
  collections of simplification and introduction rules that the component theories
  extend, and generic lemmas on lists, maps and results.

  A Go function that returns a value and an error is modelled by a value of a sum type:
  \<open>Inl e\<close> is a non-nil error \<open>e\<close>, \<open>Inr v\<close> the result with a nil error. A Go string or byte
  slice is a HOL \<open>string\<close>, that is, a list of bytes. A \<open>time.Time\<close> and a
  \<open>time.Duration\<close> are integers that count nanoseconds.
\<close>

section \<open>Rule collections\<close>

named_theorems defs \<open>definitions unfolded in proofs about one operation\<close>
named_theorems inv_intro \<open>preservation of component invariants, one rule per operation\<close>
named_theorems frame \<open>what an operation leaves unchanged\<close>

section \<open>Times and durations\<close>

type_synonym time = int
type_synonym bytes = string

abbreviation (input) millisecond :: int where "millisecond \<equiv> 1000000"
abbreviation (input) second :: int where "second \<equiv> 1000000000"
abbreviation (input) minute :: int where "minute \<equiv> 60000000000"

text \<open>
  \<open>time.Duration(n) * time.Second\<close> is a product of 64-bit signed integers, so it wraps.
\<close>

definition wrap64 :: "int \<Rightarrow> int" where
  "wrap64 n = sint (word_of_int n :: 64 word)"

lemma wrap64_id: "- (2 ^ 63) \<le> n \<Longrightarrow> n < 2 ^ 63 \<Longrightarrow> wrap64 n = n"
  by (simp add: wrap64_def signed_of_int signed_take_bit_int_eq_self)

lemma wrap64_range: "- (2 ^ 63) \<le> wrap64 n \<and> wrap64 n < 2 ^ 63"
proof -
  have "- (2 ^ (LENGTH(64) - 1)) \<le> sint (word_of_int n :: 64 word)"
    by (rule sint_ge)
  moreover have "sint (word_of_int n :: 64 word) < 2 ^ (LENGTH(64) - 1)"
    by (rule sint_lt)
  ultimately show ?thesis by (simp add: wrap64_def)
qed

section \<open>Results\<close>

lemma sum_case_Inr_iff:
  "(case r of Inl e \<Rightarrow> Inl e | Inr v \<Rightarrow> f v) = Inr w \<longleftrightarrow> (\<exists>v. r = Inr v \<and> f v = Inr w)"
  by (cases r) auto

definition is_ok :: "'e + 'a \<Rightarrow> bool" where
  "is_ok r = (case r of Inl _ \<Rightarrow> False | Inr _ \<Rightarrow> True)"

lemma is_ok_simps [simp]: "is_ok (Inr v)" "\<not> is_ok (Inl e)"
  by (simp_all add: is_ok_def)

lemma is_ok_iff: "is_ok r \<longleftrightarrow> (\<exists>v. r = Inr v)"
  by (cases r) auto

section \<open>Maps\<close>

text \<open>Removal of every entry whose value satisfies a predicate (a \<open>range\<close> loop with \<open>delete\<close>).\<close>

definition map_purge :: "('v \<Rightarrow> bool) \<Rightarrow> ('k \<rightharpoonup> 'v) \<Rightarrow> ('k \<rightharpoonup> 'v)" where
  "map_purge P m = (\<lambda>k. case m k of None \<Rightarrow> None | Some v \<Rightarrow> if P v then None else Some v)"

lemma map_purge_Some [simp]: "map_purge P m k = Some v \<longleftrightarrow> m k = Some v \<and> \<not> P v"
  by (auto simp: map_purge_def split: option.splits)

lemma map_purge_None [simp]: "map_purge P m k = None \<longleftrightarrow> (\<forall>v. m k = Some v \<longrightarrow> P v)"
  by (auto simp: map_purge_def split: option.splits)

lemma map_purge_le: "map_purge P m \<subseteq>\<^sub>m m"
  by (auto simp: map_le_def dom_def)

section \<open>Lists\<close>

lemma sum_list_remove_nth:
  "i < length xs \<Longrightarrow> sum_list (xs[i := y]) + xs ! i = sum_list xs + (y :: nat)"
  by (induction xs arbitrary: i) (auto split: nat.splits)

lemma length_filter_update:
  assumes "i < length xs"
  shows "length (filter P (xs[i := y])) + (if P (xs ! i) then 1 else 0)
       = length (filter P xs) + (if P y then 1 else 0)"
proof -
  have "length (filter P xs) = length (filter P (take i xs @ xs ! i # drop (Suc i) xs))"
    by (simp add: id_take_nth_drop [OF assms, symmetric])
  then show ?thesis by (simp add: upd_conv_take_nth_drop [OF assms])
qed

lemma length_filter_update_less:
  assumes "i < length xs" and "P (xs ! i)" and "\<not> P y"
  shows "Suc (length (filter P (xs[i := y]))) = length (filter P xs)"
  using length_filter_update [OF assms(1), of P y] assms(2,3) by simp

lemma length_filter_update_same:
  assumes "i < length xs" and "P (xs ! i) = P y"
  shows "length (filter P (xs[i := y])) = length (filter P xs)"
  using length_filter_update [OF assms(1), of P y] assms(2) by (simp split: if_splits)

section \<open>Results with state\<close>

text \<open>Steps that return an error or a value beside the new state: the first error ends the sequence.\<close>

definition bind_st :: "('e + 'a) \<times> 's \<Rightarrow> ('a \<Rightarrow> 's \<Rightarrow> ('e + 'b) \<times> 's) \<Rightarrow> ('e + 'b) \<times> 's" where
  "bind_st r f = (case fst r of Inl e \<Rightarrow> (Inl e, snd r) | Inr v \<Rightarrow> f v (snd r))"

lemma bind_st_simps [simp]:
  "bind_st (Inl e, s) f = (Inl e, s)" "bind_st (Inr v, s) f = f v s"
  by (simp_all add: bind_st_def)

lemma bind_st_split:
  "P (bind_st r f) \<longleftrightarrow> (\<forall>e s. r = (Inl e, s) \<longrightarrow> P (Inl e, s)) \<and> (\<forall>v s. r = (Inr v, s) \<longrightarrow> P (f v s))"
  by (cases r; cases "fst r") auto

end
