(* ===== verification/Go_Strings.thy ===== *)
theory Go_Strings
  imports Prelude
begin

text \<open>
  The functions of Go's \<open>strings\<close>, \<open>path\<close> and \<open>strconv\<close> packages that the program uses,
  on byte strings: prefixes and suffixes, splitting and joining, trimming of (Unicode)
  white space, lower-casing, path cleaning, and decimal and hexadecimal numbers.
\<close>

section \<open>Prefixes, suffixes, containment\<close>

definition has_prefix :: "string \<Rightarrow> string \<Rightarrow> bool" where
  "has_prefix s p = (take (length p) s = p)"

definition has_suffix :: "string \<Rightarrow> string \<Rightarrow> bool" where
  "has_suffix s p = (length p \<le> length s \<and> drop (length s - length p) s = p)"

definition trim_prefix :: "string \<Rightarrow> string \<Rightarrow> string" where
  "trim_prefix s p = (if has_prefix s p then drop (length p) s else s)"

definition trim_suffix :: "string \<Rightarrow> string \<Rightarrow> string" where
  "trim_suffix s p = (if has_suffix s p then take (length s - length p) s else s)"

definition contains_any :: "string \<Rightarrow> string \<Rightarrow> bool" where
  "contains_any s cs = list_ex (\<lambda>c. c \<in> set cs) s"

fun contains_sub :: "string \<Rightarrow> string \<Rightarrow> bool" where
  "contains_sub [] p = (p = [])"
| "contains_sub (c # s) p = (has_prefix (c # s) p \<or> contains_sub s p)"

lemma has_prefix_iff: "has_prefix s p \<longleftrightarrow> (\<exists>r. s = p @ r)"
  unfolding has_prefix_def by (metis append_eq_conv_conj append_take_drop_id)

lemma has_prefix_append [simp]: "has_prefix (p @ r) p"
  by (simp add: has_prefix_def)

lemma trim_prefix_append [simp]: "trim_prefix (p @ r) p = r"
  by (simp add: trim_prefix_def)

lemma has_suffix_iff: "has_suffix s p \<longleftrightarrow> (\<exists>r. s = r @ p)"
proof
  assume "has_suffix s p"
  then have "s = take (length s - length p) s @ p"
    unfolding has_suffix_def by (metis append_take_drop_id)
  then show "\<exists>r. s = r @ p" ..
qed (auto simp: has_suffix_def)

lemma has_suffix_append [simp]: "has_suffix (r @ p) p"
  by (auto simp: has_suffix_iff)

lemma trim_suffix_append [simp]: "trim_suffix (r @ p) p = r"
  by (simp add: trim_suffix_def)

lemma has_prefix_Cons [simp]: "has_prefix (c # s) (d # p) \<longleftrightarrow> c = d \<and> has_prefix s p"
  by (auto simp: has_prefix_def)

lemma has_prefix_Nil [simp]: "has_prefix s []" "has_prefix [] (c # p) = False"
  by (auto simp: has_prefix_def)

lemma has_prefix_trans_append: "has_prefix s (p @ q) \<Longrightarrow> has_prefix s p"
  by (auto simp: has_prefix_iff)

section \<open>Splitting and joining\<close>

fun split_on :: "char \<Rightarrow> string \<Rightarrow> string list" where
  "split_on c [] = [[]]"
| "split_on c (x # xs) =
     (if x = c then [] # split_on c xs
      else (case split_on c xs of [] \<Rightarrow> [[x]] | y # ys \<Rightarrow> (x # y) # ys))"

fun join_with :: "string \<Rightarrow> string list \<Rightarrow> string" where
  "join_with sep [] = []"
| "join_with sep [s] = s"
| "join_with sep (s # t # ss) = s @ sep @ join_with sep (t # ss)"

lemma split_on_nonempty [simp]: "split_on c s \<noteq> []"
  by (induction s) (auto split: list.splits)

lemma join_split: "join_with [c] (split_on c s) = s"
proof (induction s)
  case (Cons x s)
  then show ?case
    by (cases "split_on c s"; cases "tl (split_on c s)") (auto split: list.splits)
qed simp

lemma split_on_no_sep: "p \<in> set (split_on c s) \<Longrightarrow> c \<notin> set p"
  by (induction s arbitrary: p) (auto split: if_splits list.splits)

lemma split_on_free: "c \<notin> set s \<Longrightarrow> split_on c s = [s]"
  by (induction s) auto

lemma split_on_append_sep: "c \<notin> set s \<Longrightarrow> split_on c (s @ c # r) = s # split_on c r"
  by (induction s) auto

lemma split_join:
  "ps \<noteq> [] \<Longrightarrow> \<forall>p \<in> set ps. c \<notin> set p \<Longrightarrow> split_on c (join_with [c] ps) = ps"
proof (induction ps rule: induct_list012)
  case (3 p q ps)
  then show ?case by (simp add: split_on_append_sep)
qed (simp_all add: split_on_free)

lemma join_with_Cons: "ss \<noteq> [] \<Longrightarrow> join_with sep (s # ss) = s @ sep @ join_with sep ss"
  by (cases ss) auto

section \<open>White space\<close>

text \<open>
  The UTF-8 encodings of the characters for which \<open>unicode.IsSpace\<close> holds.
  \<open>strings.TrimSpace\<close> removes them from both ends. A prefix (suffix) of a string that is
  one of these encodings is also what decoding the first (last) rune yields.
\<close>

definition space_encodings :: "string list" where
  "space_encodings =
     [[CHR 0x09], [CHR 0x0A], [CHR 0x0B], [CHR 0x0C], [CHR 0x0D], [CHR 0x20],
      [CHR 0xC2, CHR 0x85], [CHR 0xC2, CHR 0xA0], [CHR 0xE1, CHR 0x9A, CHR 0x80],
      [CHR 0xE2, CHR 0x80, CHR 0x80], [CHR 0xE2, CHR 0x80, CHR 0x81],
      [CHR 0xE2, CHR 0x80, CHR 0x82], [CHR 0xE2, CHR 0x80, CHR 0x83],
      [CHR 0xE2, CHR 0x80, CHR 0x84], [CHR 0xE2, CHR 0x80, CHR 0x85],
      [CHR 0xE2, CHR 0x80, CHR 0x86], [CHR 0xE2, CHR 0x80, CHR 0x87],
      [CHR 0xE2, CHR 0x80, CHR 0x88], [CHR 0xE2, CHR 0x80, CHR 0x89],
      [CHR 0xE2, CHR 0x80, CHR 0x8A], [CHR 0xE2, CHR 0x80, CHR 0xA8],
      [CHR 0xE2, CHR 0x80, CHR 0xA9], [CHR 0xE2, CHR 0x80, CHR 0xAF],
      [CHR 0xE2, CHR 0x81, CHR 0x9F], [CHR 0xE3, CHR 0x80, CHR 0x80]]"

lemma space_encodings_nonempty: "w \<in> set space_encodings \<Longrightarrow> w \<noteq> []"
  by (auto simp: space_encodings_def)

function trim_left :: "string \<Rightarrow> string" where
  "trim_left s = (case find (has_prefix s) space_encodings of
     None \<Rightarrow> s | Some w \<Rightarrow> trim_left (drop (length w) s))"
  by pat_completeness auto
termination
proof (relation "measure length")
  fix s w assume f: "find (has_prefix s) space_encodings = Some w"
  then have "w \<in> set space_encodings" and "has_prefix s w"
    by (auto simp: find_Some_iff)
  then have "w \<noteq> []" and "\<exists>r. s = w @ r"
    by (auto simp: space_encodings_nonempty has_prefix_iff)
  then show "(drop (length w) s, s) \<in> measure length" by auto
qed simp

declare trim_left.simps [simp del]

function trim_right :: "string \<Rightarrow> string" where
  "trim_right s = (case find (has_suffix s) space_encodings of
     None \<Rightarrow> s | Some w \<Rightarrow> trim_right (take (length s - length w) s))"
  by pat_completeness auto
termination
proof (relation "measure length")
  fix s w assume f: "find (has_suffix s) space_encodings = Some w"
  then have "w \<in> set space_encodings" and "has_suffix s w"
    by (auto simp: find_Some_iff)
  then have "w \<noteq> []" and "\<exists>r. s = r @ w"
    by (auto simp: space_encodings_nonempty has_suffix_iff)
  then show "(take (length s - length w) s, s) \<in> measure length" by auto
qed simp

declare trim_right.simps [simp del]

definition trim_space :: "string \<Rightarrow> string" where
  "trim_space s = trim_right (trim_left s)"

definition blank :: "string \<Rightarrow> bool" where
  "blank s = (trim_space s = [])"

lemma trim_left_length: "length (trim_left s) \<le> length s"
proof (induction s rule: trim_left.induct)
  case (1 s)
  show ?case
  proof (cases "find (has_prefix s) space_encodings")
    case None
    then show ?thesis by (simp add: trim_left.simps [of s])
  next
    case (Some w)
    with 1 have "length (trim_left (drop (length w) s)) \<le> length (drop (length w) s)" by blast
    then have "length (trim_left (drop (length w) s)) \<le> length s" by simp
    with Some show ?thesis by (simp add: trim_left.simps [of s])
  qed
qed

lemma trim_left_keeps:
  "c \<in> set s \<Longrightarrow> \<forall>w \<in> set space_encodings. c \<notin> set w \<Longrightarrow> c \<in> set (trim_left s)"
proof (induction s rule: trim_left.induct)
  case (1 s)
  show ?case
  proof (cases "find (has_prefix s) space_encodings")
    case None
    with 1 show ?thesis by (simp add: trim_left.simps [of s])
  next
    case (Some w)
    then have w: "w \<in> set space_encodings" "has_prefix s w" by (auto simp: find_Some_iff)
    then obtain r where "s = w @ r" by (auto simp: has_prefix_iff)
    with 1 w have "c \<in> set (drop (length w) s)" by auto
    with 1 Some have "c \<in> set (trim_left (drop (length w) s))" by blast
    with Some show ?thesis by (simp add: trim_left.simps [of s])
  qed
qed

lemma trim_right_keeps:
  "c \<in> set s \<Longrightarrow> \<forall>w \<in> set space_encodings. c \<notin> set w \<Longrightarrow> c \<in> set (trim_right s)"
proof (induction s rule: trim_right.induct)
  case (1 s)
  show ?case
  proof (cases "find (has_suffix s) space_encodings")
    case None
    with 1 show ?thesis by (simp add: trim_right.simps [of s])
  next
    case (Some w)
    then have w: "w \<in> set space_encodings" "has_suffix s w" by (auto simp: find_Some_iff)
    then obtain r where "s = r @ w" by (auto simp: has_suffix_iff)
    with 1 w have "c \<in> set (take (length s - length w) s)" by auto
    with 1 Some have "c \<in> set (trim_right (take (length s - length w) s))" by blast
    with Some show ?thesis by (simp add: trim_right.simps [of s])
  qed
qed

lemma not_blank_char:
  "c \<in> set s \<Longrightarrow> \<forall>w \<in> set space_encodings. c \<notin> set w \<Longrightarrow> \<not> blank s"
  using trim_left_keeps [of c s] trim_right_keeps [of c "trim_left s"]
  by (auto simp: blank_def trim_space_def)

lemma blank_Nil [simp]: "blank []"
  by (simp add: blank_def trim_space_def trim_left.simps [of "[]"] trim_right.simps [of "[]"]
      space_encodings_def has_suffix_def)

section \<open>Lower-casing\<close>

text \<open>
  \<open>strings.ToLower\<close>, exact on ASCII and on the two characters outside ASCII whose lower-case
  form is an ASCII letter: U+0130 (bytes C4 B0, lower-case i) and U+212A (bytes E2 84 AA,
  lower-case k). Every other character outside ASCII is mapped to a character outside
  ASCII; the model leaves its bytes alone. The callers reject any string with such a byte
  afterwards, or compare against an ASCII constant, so the difference is not observed.
\<close>

definition lower_char :: "char \<Rightarrow> char" where
  "lower_char c = (let n = (of_char c :: nat) in
     if 65 \<le> n \<and> n \<le> 90 then char_of (n + 32) else c)"

fun to_lower :: "string \<Rightarrow> string" where
  "to_lower [] = []"
| "to_lower (a # s) =
     (if a = CHR 0xC4 \<and> (case s of b # _ \<Rightarrow> b = CHR 0xB0 | [] \<Rightarrow> False)
      then CHR ''i'' # to_lower (drop 1 s)
      else if a = CHR 0xE2 \<and> take 2 s = [CHR 0x84, CHR 0xAA]
      then CHR ''k'' # to_lower (drop 2 s)
      else lower_char a # to_lower s)"

definition ascii :: "string \<Rightarrow> bool" where
  "ascii s = list_all (\<lambda>c. (of_char c :: nat) < 128) s"

definition ascii_lower :: "string \<Rightarrow> string" where
  "ascii_lower s = map lower_char s"

lemma to_lower_ascii: "ascii s \<Longrightarrow> to_lower s = ascii_lower s"
  by (induction s rule: to_lower.induct) (auto simp: ascii_def ascii_lower_def)

text \<open>\<open>strings.EqualFold\<close> against an ASCII constant, on ASCII letters.\<close>

definition equal_fold :: "string \<Rightarrow> string \<Rightarrow> bool" where
  "equal_fold s t = (to_lower s = to_lower t)"

section \<open>Slash-separated paths\<close>

text \<open>
  \<open>path.Clean\<close>: empty and \<open>.\<close> elements are dropped, an inner \<open>..\<close> removes the element before
  it, a leading \<open>..\<close> of a rooted path is dropped and that of an unrooted one kept, and the
  empty result is \<open>.\<close> (or \<open>/\<close> when rooted).
\<close>

fun clean_step :: "bool \<Rightarrow> string list \<Rightarrow> string \<Rightarrow> string list" where
  "clean_step rooted stack p =
     (if p = [] \<or> p = ''.'' then stack
      else if p = ''..'' then
        (if stack \<noteq> [] \<and> hd stack \<noteq> ''..'' then tl stack
         else if rooted then stack else p # stack)
      else p # stack)"

definition clean_elems :: "bool \<Rightarrow> string list \<Rightarrow> string list" where
  "clean_elems rooted ps = rev (foldl (clean_step rooted) [] ps)"

definition is_abs :: "string \<Rightarrow> bool" where
  "is_abs s = has_prefix s ''/''"

definition path_clean :: "string \<Rightarrow> string" where
  "path_clean s =
     (let rooted = is_abs s; out = clean_elems rooted (split_on CHR ''/'' s)
      in if rooted then ''/'' @ join_with ''/'' out
         else if out = [] then ''.'' else join_with ''/'' out)"

definition path_join :: "string list \<Rightarrow> string" where
  "path_join es = (let ne = filter (\<lambda>e. e \<noteq> []) es
     in if ne = [] then [] else path_clean (join_with ''/'' ne))"

definition path_dir :: "string \<Rightarrow> string" where
  "path_dir s = path_clean (rev (dropWhile (\<lambda>c. c \<noteq> CHR ''/'') (rev s)))"

definition normal_elem :: "string \<Rightarrow> bool" where
  "normal_elem p = (p \<noteq> [] \<and> p \<noteq> ''.'' \<and> p \<noteq> ''..'' \<and> CHR ''/'' \<notin> set p)"

lemma clean_step_rooted_normal:
  "list_all normal_elem stack \<Longrightarrow> CHR ''/'' \<notin> set p \<Longrightarrow>
   list_all normal_elem (clean_step True stack p)"
  by (cases stack) (auto simp: normal_elem_def)

lemma foldl_clean_rooted_normal:
  "list_all normal_elem stack \<Longrightarrow> \<forall>p \<in> set ps. CHR ''/'' \<notin> set p \<Longrightarrow>
   list_all normal_elem (foldl (clean_step True) stack ps)"
proof (induction ps arbitrary: stack)
  case (Cons p ps)
  then show ?case using clean_step_rooted_normal [of stack p] by simp
qed simp

lemma clean_elems_rooted_normal:
  "list_all normal_elem (clean_elems True (split_on CHR ''/'' s))"
  unfolding clean_elems_def
  using foldl_clean_rooted_normal [of "[]" "split_on CHR ''/'' s"]
  by (auto dest: split_on_no_sep simp: list_all_iff)

text \<open>The elements of a cleaned absolute path, each a plain name.\<close>

lemma path_clean_abs:
  "is_abs s \<Longrightarrow> \<exists>es. path_clean s = ''/'' @ join_with ''/'' es \<and> list_all normal_elem es"
  using clean_elems_rooted_normal [of s] by (auto simp: path_clean_def Let_def)

lemma foldl_clean_fixed:
  "list_all normal_elem ps \<Longrightarrow> foldl (clean_step r) stack ps = rev ps @ stack"
  by (induction ps arbitrary: stack) (auto simp: normal_elem_def)

lemma clean_elems_fixed: "list_all normal_elem ps \<Longrightarrow> clean_elems r ps = ps"
  by (simp add: clean_elems_def foldl_clean_fixed)

lemma path_clean_normal:
  assumes "list_all normal_elem es"
  shows "path_clean (''/'' @ join_with ''/'' es) = ''/'' @ join_with ''/'' es"
proof (cases "es = []")
  case True
  then show ?thesis by (simp add: path_clean_def is_abs_def clean_elems_def)
next
  case False
  have "split_on CHR ''/'' (''/'' @ join_with ''/'' es) = [] # es"
    using assms False split_join [of es "CHR ''/''"] by (auto simp: list_all_iff normal_elem_def)
  moreover have "clean_elems True ([] # es) = es"
    using clean_elems_fixed [OF assms, of True] by (simp add: clean_elems_def)
  ultimately show ?thesis
    by (simp add: path_clean_def is_abs_def)
qed

lemma path_clean_idem_abs: "is_abs s \<Longrightarrow> path_clean (path_clean s) = path_clean s"
  using path_clean_abs [of s] path_clean_normal by auto

section \<open>Numbers\<close>

definition digit_char :: "nat \<Rightarrow> char" where
  "digit_char d = char_of (48 + d)"

definition char_digit :: "char \<Rightarrow> nat option" where
  "char_digit c = (let n = (of_char c :: nat) in if 48 \<le> n \<and> n \<le> 57 then Some (n - 48) else None)"

fun nat_digits :: "nat \<Rightarrow> string" where
  "nat_digits n = (if n < 10 then [digit_char n] else nat_digits (n div 10) @ [digit_char (n mod 10)])"

declare nat_digits.simps [simp del]

definition itoa :: "int \<Rightarrow> string" where
  "itoa n = (if n < 0 then CHR ''-'' # nat_digits (nat (- n)) else nat_digits (nat n))"

fun parse_digits :: "nat \<Rightarrow> string \<Rightarrow> nat option" where
  "parse_digits acc [] = Some acc"
| "parse_digits acc (c # cs) =
     (case char_digit c of None \<Rightarrow> None | Some d \<Rightarrow> parse_digits (10 * acc + d) cs)"

text \<open>\<open>strconv.ParseUint(s, 10, 64)\<close>; \<open>None\<close> is a syntax or range error.\<close>

definition parse_uint64 :: "string \<Rightarrow> nat option" where
  "parse_uint64 s = (if s = [] then None else
     case parse_digits 0 s of None \<Rightarrow> None | Some n \<Rightarrow> if n < 2 ^ 64 then Some n else None)"

text \<open>\<open>strconv.ParseInt(s, 10, 64)\<close> and, on a 64-bit platform, \<open>strconv.Atoi\<close>.\<close>

definition parse_int64 :: "string \<Rightarrow> int option" where
  "parse_int64 s =
     (let neg = has_prefix s ''-'';
          body = (if has_prefix s ''-'' \<or> has_prefix s ''+'' then drop 1 s else s)
      in if body = [] then None else
         case parse_digits 0 body of None \<Rightarrow> None
         | Some n \<Rightarrow> (let v = (if neg then - int n else int n)
                      in if - (2 ^ 63) \<le> v \<and> v < 2 ^ 63 then Some v else None))"

lemma char_digit_digit_char [simp]: "d < 10 \<Longrightarrow> char_digit (digit_char d) = Some d"
  by (simp add: char_digit_def digit_char_def)

lemma parse_digits_append:
  "parse_digits acc (s @ t) =
     (case parse_digits acc s of None \<Rightarrow> None | Some n \<Rightarrow> parse_digits n t)"
  by (induction s arbitrary: acc) (auto split: option.splits)

lemma parse_nat_digits: "parse_digits 0 (nat_digits n) = Some n"
proof (induction n rule: nat_digits.induct)
  case (1 n)
  show ?case
  proof (cases "n < 10")
    case True
    then show ?thesis by (simp add: nat_digits.simps [of n])
  next
    case False
    with 1 have "parse_digits 0 (nat_digits (n div 10)) = Some (n div 10)" by simp
    with False show ?thesis by (simp add: nat_digits.simps [of n] parse_digits_append)
  qed
qed

lemma nat_digits_nonempty [simp]: "nat_digits n \<noteq> []"
  by (subst nat_digits.simps) simp

lemma nat_digits_digit:
  "c \<in> set (nat_digits n) \<Longrightarrow> 48 \<le> (of_char c :: nat) \<and> (of_char c :: nat) \<le> 57"
proof (induction n rule: nat_digits.induct)
  case (1 n)
  then show ?case
    by (cases "n < 10") (auto simp: nat_digits.simps [of n] digit_char_def)
qed

lemma parse_uint64_digits: "n < 2 ^ 64 \<Longrightarrow> parse_uint64 (nat_digits n) = Some n"
  by (simp add: parse_uint64_def parse_nat_digits)

lemma parse_digits_zeros: "parse_digits 0 (replicate k CHR ''0'' @ s) = parse_digits 0 s"
proof (induction k)
  case (Suc k)
  then show ?case by (simp add: char_digit_def)
qed simp

end
