(* ===== verification/Base64.thy ===== *)
theory Base64
  imports Go_Strings
begin

text \<open>
  Go's \<open>encoding/base64\<close> as the program uses it: \<open>StdEncoding\<close> (padded) and
  \<open>RawURLEncoding\<close> (unpadded), each in its lenient and its \<open>Strict()\<close> form. Decoding skips
  carriage returns and line feeds anywhere in the input, as Go's decoder does, and only the
  strict form insists that the unused trailing bits are zero. The section on hexadecimal
  covers \<open>encoding/hex\<close>.
\<close>

section \<open>Encodings\<close>

record encoding =
  alphabet :: string
  padded :: bool
  strict :: bool

definition letters :: string where
  "letters = ''ABCDEFGHIJKLMNOPQRSTUVWXYZabcdefghijklmnopqrstuvwxyz0123456789''"

definition std_encoding :: encoding where
  "std_encoding = \<lparr>alphabet = letters @ ''+/'', padded = True, strict = False\<rparr>"

definition raw_url_encoding :: encoding where
  "raw_url_encoding = \<lparr>alphabet = letters @ ''-_'', padded = False, strict = False\<rparr>"

definition strict_form :: "encoding \<Rightarrow> encoding" where
  "strict_form e = e\<lparr>strict := True\<rparr>"

fun index_of :: "char \<Rightarrow> string \<Rightarrow> nat option" where
  "index_of c [] = None"
| "index_of c (d # ds) = (if c = d then Some 0 else map_option Suc (index_of c ds))"

lemma index_of_nth: "distinct ds \<Longrightarrow> n < length ds \<Longrightarrow> index_of (ds ! n) ds = Some n"
  by (induction ds arbitrary: n) (auto simp: nth_Cons split: nat.splits)

lemma index_of_Some: "index_of c ds = Some n \<Longrightarrow> n < length ds \<and> ds ! n = c"
  by (induction ds arbitrary: n) (auto split: if_splits)

definition well_formed :: "encoding \<Rightarrow> bool" where
  "well_formed e \<longleftrightarrow> length (alphabet e) = 64 \<and> distinct (alphabet e) \<and> CHR ''='' \<notin> set (alphabet e)
     \<and> CHR 0x0A \<notin> set (alphabet e) \<and> CHR 0x0D \<notin> set (alphabet e)"

lemma well_formed_std: "well_formed std_encoding"
  by (simp add: well_formed_def std_encoding_def letters_def)

lemma well_formed_raw_url: "well_formed raw_url_encoding"
  by (simp add: well_formed_def raw_url_encoding_def letters_def)

lemma well_formed_strict [simp]: "well_formed (strict_form e) = well_formed e"
  by (simp add: well_formed_def strict_form_def)

lemma strict_form_sel [simp]:
  "alphabet (strict_form e) = alphabet e" "padded (strict_form e) = padded e" "strict (strict_form e)"
  by (simp_all add: strict_form_def)

section \<open>Encoding and decoding\<close>

abbreviation byte_val :: "char \<Rightarrow> nat" where "byte_val c \<equiv> of_char c"

lemma byte_val_less [simp]: "byte_val c < 256"
  by (metis of_char_mod_256 mod_less_divisor zero_less_numeral)

lemma byte_val_char_of: "n < 256 \<Longrightarrow> byte_val (char_of n) = n"
  by simp

fun b64_encode :: "encoding \<Rightarrow> bytes \<Rightarrow> string" where
  "b64_encode e [] = []"
| "b64_encode e [a] =
     [alphabet e ! (byte_val a div 4), alphabet e ! (byte_val a mod 4 * 16)]
     @ (if padded e then ''=='' else [])"
| "b64_encode e [a, b] =
     [alphabet e ! (byte_val a div 4),
      alphabet e ! (byte_val a mod 4 * 16 + byte_val b div 16),
      alphabet e ! (byte_val b mod 16 * 4)]
     @ (if padded e then ''='' else [])"
| "b64_encode e (a # b # c # rest) =
     [alphabet e ! (byte_val a div 4),
      alphabet e ! (byte_val a mod 4 * 16 + byte_val b div 16),
      alphabet e ! (byte_val b mod 16 * 4 + byte_val c div 64),
      alphabet e ! (byte_val c mod 64)]
     @ b64_encode e rest"

definition byte1 :: "nat \<Rightarrow> nat \<Rightarrow> char" where
  "byte1 x y = char_of (x * 4 + y div 16)"
definition byte2 :: "nat \<Rightarrow> nat \<Rightarrow> char" where
  "byte2 y z = char_of (y mod 16 * 16 + z div 4)"
definition byte3 :: "nat \<Rightarrow> nat \<Rightarrow> char" where
  "byte3 z w = char_of (z mod 4 * 64 + w)"

text \<open>The last, short group: two or three significant characters.\<close>

definition b64_tail2 :: "encoding \<Rightarrow> char \<Rightarrow> char \<Rightarrow> bytes option" where
  "b64_tail2 e a b =
     (case (index_of a (alphabet e), index_of b (alphabet e)) of
       (Some x, Some y) \<Rightarrow> if strict e \<and> y mod 16 \<noteq> 0 then None else Some [byte1 x y]
     | _ \<Rightarrow> None)"

definition b64_tail3 :: "encoding \<Rightarrow> char \<Rightarrow> char \<Rightarrow> char \<Rightarrow> bytes option" where
  "b64_tail3 e a b c =
     (case (index_of a (alphabet e), index_of b (alphabet e), index_of c (alphabet e)) of
       (Some x, Some y, Some z) \<Rightarrow>
         if strict e \<and> z mod 4 \<noteq> 0 then None else Some [byte1 x y, byte2 y z]
     | _ \<Rightarrow> None)"

definition b64_group :: "encoding \<Rightarrow> char \<Rightarrow> char \<Rightarrow> char \<Rightarrow> char \<Rightarrow> bytes option" where
  "b64_group e a b c d =
     (case (index_of a (alphabet e), index_of b (alphabet e),
            index_of c (alphabet e), index_of d (alphabet e)) of
       (Some x, Some y, Some z, Some w) \<Rightarrow> Some [byte1 x y, byte2 y z, byte3 z w]
     | _ \<Rightarrow> None)"

fun b64_decode_groups :: "encoding \<Rightarrow> string \<Rightarrow> bytes option" where
  "b64_decode_groups e [] = Some []"
| "b64_decode_groups e [a] = None"
| "b64_decode_groups e [a, b] = (if padded e then None else b64_tail2 e a b)"
| "b64_decode_groups e [a, b, c] = (if padded e then None else b64_tail3 e a b c)"
| "b64_decode_groups e (a # b # c # d # rest) =
     (if padded e \<and> c = CHR ''='' then
        (if d = CHR ''='' \<and> rest = [] then b64_tail2 e a b else None)
      else if padded e \<and> d = CHR ''='' then
        (if rest = [] then b64_tail3 e a b c else None)
      else (case b64_group e a b c d of None \<Rightarrow> None
            | Some bs \<Rightarrow> map_option (\<lambda>t. bs @ t) (b64_decode_groups e rest)))"

definition b64_decode :: "encoding \<Rightarrow> string \<Rightarrow> bytes option" where
  "b64_decode e s = b64_decode_groups e (filter (\<lambda>c. c \<noteq> CHR 0x0A \<and> c \<noteq> CHR 0x0D) s)"

section \<open>Round trip\<close>

lemma byte_div [simp]: "byte_val a div 4 < 64" "byte_val a div 16 < 16" "byte_val a div 64 < 4"
  by (rule less_mult_imp_div_less, simp)+

lemma sextet_bounds [simp]:
  "byte_val a mod 4 * 16 < 64" "byte_val b mod 16 * 4 < 64"
  "byte_val a mod 4 * 16 + byte_val b div 16 < 64"
  "byte_val b mod 16 * 4 + byte_val c div 64 < 64"
proof -
  have m: "byte_val a mod 4 \<le> 3" "byte_val b mod 16 \<le> 15" by simp_all
  then show "byte_val a mod 4 * 16 < 64" "byte_val b mod 16 * 4 < 64" by linarith+
  show "byte_val a mod 4 * 16 + byte_val b div 16 < 64"
    using m(1) byte_div(2) [of b] by linarith
  show "byte_val b mod 16 * 4 + byte_val c div 64 < 64"
    using m(2) byte_div(3) [of c] by linarith
qed

lemma byte1_enc: "byte1 (byte_val a div 4) (byte_val a mod 4 * 16 + b div 16) = a" if "b < 256"
proof -
  have "(byte_val a mod 4 * 16 + b div 16) div 16 = byte_val a mod 4" using that by simp
  then show ?thesis by (simp add: byte1_def)
qed

lemma byte2_enc:
  "byte2 (a mod 4 * 16 + byte_val b div 16) (byte_val b mod 16 * 4 + c div 64) = b" if "c < 256"
proof -
  have "(a mod 4 * 16 + byte_val b div 16) mod 16 = byte_val b div 16" by simp
  moreover have "(byte_val b mod 16 * 4 + c div 64) div 4 = byte_val b mod 16" using that by simp
  ultimately show ?thesis by (simp add: byte2_def)
qed

lemma byte3_enc: "byte3 (b mod 16 * 4 + byte_val c div 64) (byte_val c mod 64) = c"
proof -
  have "(b mod 16 * 4 + byte_val c div 64) mod 4 = byte_val c div 64" by simp
  then show ?thesis by (simp add: byte3_def)
qed

lemma index_of_sextet:
  "well_formed e \<Longrightarrow> n < 64 \<Longrightarrow> index_of (alphabet e ! n) (alphabet e) = Some n"
  by (simp add: well_formed_def index_of_nth)

lemma sextet_not_pad:
  "well_formed e \<Longrightarrow> n < 64 \<Longrightarrow> alphabet e ! n \<noteq> CHR ''=''"
  unfolding well_formed_def by (metis nth_mem)

lemma b64_decode_groups_encode:
  "well_formed e \<Longrightarrow> b64_decode_groups e (b64_encode e s) = Some s"
proof (induction e s rule: b64_encode.induct)
  case (2 e a)
  then show ?case
    using byte1_enc [of 0 a]
    by (simp add: b64_tail2_def index_of_sextet sextet_not_pad)
next
  case (3 e a b)
  then show ?case
    using byte1_enc [of "byte_val b" a] byte2_enc [of 0 "byte_val a" b]
    by (simp add: b64_tail3_def index_of_sextet sextet_not_pad)
next
  case (4 e a b c rest)
  then show ?case
    using byte1_enc [of "byte_val b" a] byte2_enc [of "byte_val c" "byte_val a" b]
      byte3_enc [of "byte_val b" c]
    by (simp add: b64_group_def index_of_sextet sextet_not_pad)
qed simp

lemma b64_encode_chars:
  "well_formed e \<Longrightarrow> c \<in> set (b64_encode e s) \<Longrightarrow> c \<in> set (alphabet e) \<or> c = CHR ''=''"
proof (induction e s rule: b64_encode.induct)
  case (2 e a)
  then show ?case     by (auto simp: well_formed_def split: if_splits)
next
  case (3 e a b)
  then show ?case     by (auto simp: well_formed_def split: if_splits)
next
  case (4 e a b c' rest)
  then show ?case
    by (auto simp: well_formed_def)
qed simp

lemma raw_encode_chars: "well_formed e \<Longrightarrow> \<not> padded e \<Longrightarrow> set (b64_encode e s) \<subseteq> set (alphabet e)"
proof (induction e s rule: b64_encode.induct)
  case (4 e a b c rest)
  then show ?case by (auto simp: well_formed_def)
qed (auto simp: well_formed_def)

lemma b64_encode_no_newline:
  "well_formed e \<Longrightarrow> filter (\<lambda>c. c \<noteq> CHR 0x0A \<and> c \<noteq> CHR 0x0D) (b64_encode e s) = b64_encode e s"
  using b64_encode_chars [of e] by (auto simp: filter_id_conv well_formed_def)

theorem b64_round_trip: "well_formed e \<Longrightarrow> b64_decode e (b64_encode e s) = Some s"
  by (simp add: b64_decode_def b64_encode_no_newline b64_decode_groups_encode)

lemma b64_encode_inj: "well_formed e \<Longrightarrow> b64_encode e s = b64_encode e t \<longleftrightarrow> s = t"
  by (metis b64_round_trip option.inject)

lemma b64_encode_strict_form [simp]: "b64_encode (strict_form e) s = b64_encode e s"
  by (induction e s rule: b64_encode.induct) simp_all

section \<open>Lengths\<close>

lemma length_raw_encode:
  "\<not> padded e \<Longrightarrow> length (b64_encode e s) = (4 * length s + 2) div 3"
proof (induction e s rule: b64_encode.induct)
  case (4 e a b c rest)
  have "(4 * n + 2) div 3 + 4 = (4 * (n + 3) + 2) div 3" for n :: nat by presburger
  from this [of "length rest"] 4 show ?case by (simp add: add.commute)
qed simp_all

section \<open>Hexadecimal\<close>

definition hex_char :: "nat \<Rightarrow> char" where
  "hex_char n = ''0123456789abcdef'' ! n"

definition hex_val :: "char \<Rightarrow> nat option" where
  "hex_val c = (let n = byte_val c in
     if 48 \<le> n \<and> n \<le> 57 then Some (n - 48)
     else if 97 \<le> n \<and> n \<le> 102 then Some (n - 87)
     else if 65 \<le> n \<and> n \<le> 70 then Some (n - 55) else None)"

fun hex_encode :: "bytes \<Rightarrow> string" where
  "hex_encode [] = []"
| "hex_encode (a # s) = hex_char (byte_val a div 16) # hex_char (byte_val a mod 16) # hex_encode s"

fun hex_decode :: "string \<Rightarrow> bytes option" where
  "hex_decode [] = Some []"
| "hex_decode [a] = None"
| "hex_decode (a # b # s) =
     (case (hex_val a, hex_val b, hex_decode s) of
       (Some x, Some y, Some t) \<Rightarrow> Some (char_of (16 * x + y) # t)
     | _ \<Rightarrow> None)"

lemma length_hex_encode [simp]: "length (hex_encode s) = 2 * length s"
  by (induction s) simp_all

lemma hex_val_char: "n < 16 \<Longrightarrow> hex_val (hex_char n) = Some n"
  by (auto simp: hex_char_def hex_val_def less_Suc_eq numeral_eq_Suc)

theorem hex_round_trip: "hex_decode (hex_encode s) = Some s"
proof (induction s)
  case (Cons a s)
  then show ?case by (simp add: hex_val_char)
qed simp

lemma length_hex_decode: "hex_decode s = Some t \<Longrightarrow> length s = 2 * length t"
  by (induction s arbitrary: t rule: hex_decode.induct) (auto split: option.splits)

end
