(* ===== verification/Registry.thy ===== *)
theory Registry
  imports Base64
begin

text \<open>
  The in-memory exposure registry of the workload router
  (\<open>apps/workload-router/internal/auth/registry.go\<close>): registration of exposures, one-time
  bootstrap capabilities, host-bound sessions, connection slots, tracked connections,
  revocation and shutdown. One definition per operation, each on an explicit registry
  state; a critical section of the code is one atomic definition. The readings of the
  clock, the bytes of the random source and the iteration order of Go maps are arguments.
\<close>

section \<open>Collaborators outside the repository\<close>

text \<open>
  \<open>sha256\<close> is \<open>crypto/sha256.Sum256\<close>; \<open>dns1123_subdomain\<close> is "no errors from
  \<open>IsDNS1123Subdomain\<close>" of k8s.io/apimachinery, a third-party package.
\<close>

record router_env =
  sha256 :: "bytes \<Rightarrow> bytes"
  dns1123_subdomain :: "string \<Rightarrow> bool"

section \<open>Data\<close>

datatype reg_error =
    InvalidHost | IPHost | InvalidExposureID | ExpiryNotFuture | MaxConnectionsNotPositive
  | CredentialGeneration | RegistryClosed | ExposureExists | HostExists
  | Unauthorized | ConnectionLimit

type_synonym conn = nat
type_synonym digest = bytes

record event =
  ev_exposure :: string
  ev_type :: string
  ev_outcome :: string

record registration =
  rg_exposure_id :: string
  rg_host :: string
  rg_expires_at :: time
  rg_allow_websocket :: bool
  rg_max_connections :: int

record exposure =
  exp_id :: string
  exp_host :: string
  exp_expires_at :: time
  allow_websocket :: bool
  max_connections :: int
  generation :: nat

record exposure_ref =
  ref_id :: string
  ref_generation :: nat

text \<open>Capability records and session records have the same two fields.\<close>

record credential_record =
  cred_exposure :: exposure_ref
  cred_expires_at :: time

record exposure_state =
  es_exposure :: exposure
  active :: nat
  timer :: "time option"
  conns :: "conn set"

record registry =
  session_ttl :: int
  bootstrap_ttl :: int
  reg_closed :: bool
  next_gen :: nat
  exposures :: "string \<rightharpoonup> exposure_state"
  hosts :: "string \<rightharpoonup> exposure_ref"
  capabilities :: "digest \<rightharpoonup> credential_record"
  sessions :: "digest \<rightharpoonup> credential_record"
  emitted :: "event list"
  closed_conns :: "conn set"

text \<open>
  \<open>NewRegistry\<close>: a session lifetime that is not positive means 15 minutes; an option sets the
  bootstrap lifetime only when it is positive, and the default is 60 seconds.
\<close>

definition with_bootstrap_ttl :: "int \<Rightarrow> int \<Rightarrow> int" where
  "with_bootstrap_ttl ttl configured = (if ttl > 0 then ttl else configured)"

definition new_registry :: "int \<Rightarrow> int list \<Rightarrow> registry" where
  "new_registry ttl bootstrap_options =
     \<lparr>session_ttl = (if ttl \<le> 0 then 15 * minute else ttl),
      bootstrap_ttl = foldl (\<lambda>c t. with_bootstrap_ttl t c) (60 * second) bootstrap_options,
      reg_closed = False, next_gen = 0,
      exposures = Map.empty, hosts = Map.empty,
      capabilities = Map.empty, sessions = Map.empty,
      emitted = [], closed_conns = {}\<rparr>"

section \<open>Host names\<close>

text \<open>
  \<open>netip.ParseAddr\<close> succeeds on a string without a colon or a percent sign exactly when it
  is four decimal fields of 0 to 255 without leading zeros, separated by dots.
\<close>

definition ipv4_field :: "string \<Rightarrow> bool" where
  "ipv4_field f = (f \<noteq> [] \<and> (length f = 1 \<or> hd f \<noteq> CHR ''0'')
     \<and> (case parse_digits 0 f of None \<Rightarrow> False | Some n \<Rightarrow> n \<le> 255))"

definition is_ipv4 :: "string \<Rightarrow> bool" where
  "is_ipv4 s = (let fs = split_on CHR ''.'' s in length fs = 4 \<and> list_all ipv4_field fs)"

definition host_forbidden :: string where
  "host_forbidden = ''@,/%'' @ [CHR 0x5C] @ ''[]:'' @ [CHR 0x09, CHR 0x0D, CHR 0x0A] @ '' ''"

definition canonical_host :: "router_env \<Rightarrow> string \<Rightarrow> reg_error + string" where
  "canonical_host env host =
     (if host = [] \<or> trim_space host \<noteq> host \<or> contains_any host host_forbidden
      then Inl InvalidHost
      else if has_suffix host ''.'' then Inl InvalidHost
      else let h = to_lower host in
        if is_ipv4 h then Inl IPHost
        else if \<not> dns1123_subdomain env h then Inl InvalidHost
        else Inr h)"

section \<open>Credentials\<close>

text \<open>\<open>io.ReadFull\<close> of 32 bytes from the random source, whose available bytes are \<open>rnd\<close>.\<close>

definition new_credential :: "router_env \<Rightarrow> bytes \<Rightarrow> (string \<times> digest) option" where
  "new_credential env rnd =
     (if length rnd < 32 then None
      else let token = b64_encode raw_url_encoding (take 32 rnd) in Some (token, sha256 env token))"

definition valid_credential_shape :: "string \<Rightarrow> bool" where
  "valid_credential_shape v = (length v = 43 \<and> b64_decode raw_url_encoding v \<noteq> None)"

definition ref_for :: "exposure \<Rightarrow> exposure_ref" where
  "ref_for e = \<lparr>ref_id = exp_id e, ref_generation = generation e\<rparr>"

definition state_matches :: "exposure_state option \<Rightarrow> exposure_ref \<Rightarrow> bool" where
  "state_matches st ref = (case st of None \<Rightarrow> False
     | Some s \<Rightarrow> exp_id (es_exposure s) = ref_id ref \<and> generation (es_exposure s) = ref_generation ref)"

definition emit :: "event \<Rightarrow> registry \<Rightarrow> registry" where
  "emit ev r = r\<lparr>emitted := emitted r @ [ev]\<rparr>"

definition mk_event :: "string \<Rightarrow> string \<Rightarrow> string \<Rightarrow> event" where
  "mk_event i t out = \<lparr>ev_exposure = i, ev_type = t, ev_outcome = out\<rparr>"

section \<open>Operations\<close>

text \<open>The state \<open>Register\<close> installs under the lock, once every check has passed.\<close>

definition install_exposure ::
    "registration \<Rightarrow> string \<Rightarrow> digest \<Rightarrow> time \<Rightarrow> registry \<Rightarrow> registry" where
  "install_exposure reg host dg now r =
     (let gen = (next_gen r + 1) mod 2 ^ 64;
          ref = \<lparr>ref_id = rg_exposure_id reg, ref_generation = gen\<rparr>;
          st = \<lparr>es_exposure = \<lparr>exp_id = rg_exposure_id reg, exp_host = host,
                  exp_expires_at = rg_expires_at reg, allow_websocket = rg_allow_websocket reg,
                  max_connections = rg_max_connections reg, generation = gen\<rparr>,
                active = 0, timer = Some (rg_expires_at reg), conns = {}\<rparr>;
          cap_expiry = now + bootstrap_ttl r;
          cap_expiry = (if rg_expires_at reg < cap_expiry then rg_expires_at reg else cap_expiry)
      in r\<lparr>next_gen := gen,
           exposures := (exposures r)(rg_exposure_id reg \<mapsto> st),
           hosts := (hosts r)(host \<mapsto> ref),
           capabilities := (capabilities r)(dg \<mapsto> \<lparr>cred_exposure = ref, cred_expires_at = cap_expiry\<rparr>)\<rparr>)"

definition register ::
    "router_env \<Rightarrow> bytes \<Rightarrow> time \<Rightarrow> time \<Rightarrow> registration \<Rightarrow> registry
     \<Rightarrow> (reg_error + string) \<times> registry" where
  "register env rnd now1 now2 reg r =
     (case canonical_host env (rg_host reg) of Inl e \<Rightarrow> (Inl e, r)
      | Inr host \<Rightarrow>
        if rg_exposure_id reg = [] \<or> length (rg_exposure_id reg) > 128
        then (Inl InvalidExposureID, r)
        else if \<not> now1 < rg_expires_at reg then (Inl ExpiryNotFuture, r)
        else if rg_max_connections reg \<le> 0 then (Inl MaxConnectionsNotPositive, r)
        else (case new_credential env rnd of None \<Rightarrow> (Inl CredentialGeneration, r)
          | Some (token, dg) \<Rightarrow>
            if reg_closed r then (Inl RegistryClosed, r)
            else if exposures r (rg_exposure_id reg) \<noteq> None then (Inl ExposureExists, r)
            else if hosts r host \<noteq> None then (Inl HostExists, r)
            else if \<not> now2 < rg_expires_at reg then (Inl ExpiryNotFuture, r)
            else (Inr token,
                  emit (mk_event (rg_exposure_id reg) ''register'' ''allowed'')
                    (install_exposure reg host dg now2 r))))"

definition revoke_ref :: "exposure_ref \<Rightarrow> string \<Rightarrow> registry \<Rightarrow> registry" where
  "revoke_ref ref outcome r =
     (case exposures r (ref_id ref) of None \<Rightarrow> r
      | Some st \<Rightarrow>
        if \<not> state_matches (Some st) ref then r
        else emit (mk_event (ref_id ref) ''revoke'' outcome)
          (r\<lparr>exposures := (exposures r)(ref_id ref := None),
             hosts := (if hosts r (exp_host (es_exposure st)) = Some ref
                       then (hosts r)(exp_host (es_exposure st) := None) else hosts r),
             capabilities := map_purge (\<lambda>c. cred_exposure c = ref) (capabilities r),
             sessions := map_purge (\<lambda>c. cred_exposure c = ref) (sessions r),
             closed_conns := closed_conns r \<union> conns st\<rparr>))"

definition zero_ref :: exposure_ref where
  "zero_ref = \<lparr>ref_id = [], ref_generation = 0\<rparr>"

definition lookup_host ::
    "router_env \<Rightarrow> time \<Rightarrow> string \<Rightarrow> registry \<Rightarrow> (reg_error + exposure) \<times> registry" where
  "lookup_host env now host r =
     (case canonical_host env host of Inl _ \<Rightarrow> (Inl Unauthorized, r)
      | Inr canonical \<Rightarrow>
        (let ref = (case hosts r canonical of None \<Rightarrow> zero_ref | Some ref \<Rightarrow> ref)
         in case exposures r (ref_id ref) of
              None \<Rightarrow> (Inl Unauthorized, r)
            | Some st \<Rightarrow>
              if hosts r canonical = None \<or> \<not> state_matches (Some st) ref
                 \<or> \<not> now < exp_expires_at (es_exposure st)
              then (Inl Unauthorized,
                    if state_matches (Some st) ref then revoke_ref ref ''expired'' r else r)
              else (Inr (es_exposure st), r)))"

text \<open>The three critical sections of \<open>Exchange\<close>: \<open>LookupHost\<close>, consumption, installation.\<close>

definition exchange_consume ::
    "router_env \<Rightarrow> time \<Rightarrow> exposure \<Rightarrow> string \<Rightarrow> registry \<Rightarrow> (reg_error + unit) \<times> registry" where
  "exchange_consume env now e capability r =
     (let ref = ref_for e; dg = sha256 env capability in
      case capabilities r dg of
        None \<Rightarrow> (Inl Unauthorized, emit (mk_event (exp_id e) ''exchange'' ''denied'') r)
      | Some c \<Rightarrow>
        if cred_exposure c \<noteq> ref \<or> \<not> state_matches (exposures r (ref_id ref)) ref
           \<or> \<not> now < cred_expires_at c
        then (Inl Unauthorized, emit (mk_event (exp_id e) ''exchange'' ''denied'')
               (if \<not> now < cred_expires_at c
                then r\<lparr>capabilities := (capabilities r)(dg := None)\<rparr> else r))
        else (Inr (), r\<lparr>capabilities := (capabilities r)(dg := None)\<rparr>))"

definition exchange_install ::
    "time \<Rightarrow> exposure \<Rightarrow> string \<Rightarrow> digest \<Rightarrow> registry \<Rightarrow> (reg_error + string \<times> time) \<times> registry" where
  "exchange_install now e session dg r =
     (let ref = ref_for e;
          expires = now + session_ttl r;
          expires = (if exp_expires_at e < expires then exp_expires_at e else expires)
      in case exposures r (ref_id ref) of
           None \<Rightarrow> (Inl Unauthorized, r)
         | Some st \<Rightarrow>
           if \<not> state_matches (Some st) ref \<or> \<not> now < exp_expires_at (es_exposure st)
           then (Inl Unauthorized, r)
           else (Inr (session, expires),
                 emit (mk_event (exp_id e) ''exchange'' ''allowed'')
                   (r\<lparr>sessions := (sessions r)(dg \<mapsto> \<lparr>cred_exposure = ref, cred_expires_at = expires\<rparr>)\<rparr>)))"

definition exchange ::
    "router_env \<Rightarrow> bytes \<Rightarrow> time \<Rightarrow> time \<Rightarrow> time \<Rightarrow> string \<Rightarrow> string \<Rightarrow> registry
     \<Rightarrow> (reg_error + string \<times> time) \<times> registry" where
  "exchange env rnd now1 now2 now3 host capability r =
     (case lookup_host env now1 host r of
        (Inl _, r1) \<Rightarrow> (Inl Unauthorized, emit (mk_event [] ''exchange'' ''denied'') r1)
      | (Inr e, r1) \<Rightarrow>
        if \<not> valid_credential_shape capability
        then (Inl Unauthorized, emit (mk_event [] ''exchange'' ''denied'') r1)
        else (case exchange_consume env now2 e capability r1 of
            (Inl err, r2) \<Rightarrow> (Inl err, r2)
          | (Inr _, r2) \<Rightarrow>
            (case new_credential env rnd of None \<Rightarrow> (Inl CredentialGeneration, r2)
             | Some (session, dg) \<Rightarrow> exchange_install now3 e session dg r2)))"

text \<open>The critical section of \<open>Authenticate\<close> after its \<open>LookupHost\<close>.\<close>

definition check_session ::
    "router_env \<Rightarrow> time \<Rightarrow> exposure \<Rightarrow> string \<Rightarrow> registry \<Rightarrow> (reg_error + exposure) \<times> registry" where
  "check_session env now e session r =
     (let ref = ref_for e; dg = sha256 env session in
      case sessions r dg of
        None \<Rightarrow> (Inl Unauthorized, r)
      | Some c \<Rightarrow>
        if cred_exposure c \<noteq> ref \<or> \<not> state_matches (exposures r (ref_id ref)) ref
           \<or> \<not> now < cred_expires_at c
        then (Inl Unauthorized,
               if \<not> now < cred_expires_at c then r\<lparr>sessions := (sessions r)(dg := None)\<rparr> else r)
        else (Inr e, r))"

definition authenticate ::
    "router_env \<Rightarrow> time \<Rightarrow> time \<Rightarrow> string \<Rightarrow> string \<Rightarrow> registry \<Rightarrow> (reg_error + exposure) \<times> registry" where
  "authenticate env now1 now2 host session r =
     (case lookup_host env now1 host r of
        (Inl _, r1) \<Rightarrow> (Inl Unauthorized, r1)
      | (Inr e, r1) \<Rightarrow>
        if \<not> valid_credential_shape session then (Inl Unauthorized, r1)
        else check_session env now2 e session r1)"

text \<open>
  \<open>Acquire\<close> returns a closure over the reference and a boolean \<open>released\<close>; the closure is the
  handle \<open>slot\<close>, and calling it is \<open>release_slot\<close>.
\<close>

record slot =
  slot_ref :: exposure_ref
  slot_released :: bool

definition acquire :: "time \<Rightarrow> exposure \<Rightarrow> registry \<Rightarrow> (reg_error + slot) \<times> registry" where
  "acquire now e r =
     (let ref = ref_for e in
      case exposures r (ref_id ref) of None \<Rightarrow> (Inl Unauthorized, r)
      | Some st \<Rightarrow>
        if \<not> state_matches (Some st) ref \<or> \<not> now < exp_expires_at (es_exposure st)
        then (Inl Unauthorized, r)
        else if int (active st) \<ge> max_connections (es_exposure st) then (Inl ConnectionLimit, r)
        else (Inr \<lparr>slot_ref = ref, slot_released = False\<rparr>,
              r\<lparr>exposures := (exposures r)(ref_id ref \<mapsto> st\<lparr>active := active st + 1\<rparr>)\<rparr>))"

definition release_slot :: "slot \<Rightarrow> registry \<Rightarrow> slot \<times> registry" where
  "release_slot sl r =
     (if slot_released sl then (sl, r)
      else (sl\<lparr>slot_released := True\<rparr>,
        (case exposures r (ref_id (slot_ref sl)) of None \<Rightarrow> r
         | Some st \<Rightarrow>
           if state_matches (Some st) (slot_ref sl) \<and> active st > 0
           then r\<lparr>exposures := (exposures r)(ref_id (slot_ref sl) \<mapsto> st\<lparr>active := active st - 1\<rparr>)\<rparr>
           else r)))"

record tracked =
  tr_ref :: exposure_ref
  tr_conn :: conn
  tr_done :: bool

definition track_connection ::
    "time \<Rightarrow> exposure \<Rightarrow> conn \<Rightarrow> registry \<Rightarrow> (reg_error + tracked) \<times> registry" where
  "track_connection now e c r =
     (let ref = ref_for e; rejected = (Inl Unauthorized, r\<lparr>closed_conns := insert c (closed_conns r)\<rparr>) in
      case exposures r (ref_id ref) of None \<Rightarrow> rejected
      | Some st \<Rightarrow>
        if \<not> state_matches (Some st) ref \<or> \<not> now < exp_expires_at (es_exposure st) then rejected
        else (Inr \<lparr>tr_ref = ref, tr_conn = c, tr_done = False\<rparr>,
              r\<lparr>exposures := (exposures r)(ref_id ref \<mapsto> st\<lparr>conns := insert c (conns st)\<rparr>)\<rparr>))"

definition tracked_close :: "tracked \<Rightarrow> registry \<Rightarrow> tracked \<times> registry" where
  "tracked_close t r =
     (let r1 = r\<lparr>closed_conns := insert (tr_conn t) (closed_conns r)\<rparr> in
      if tr_done t then (t, r1)
      else (t\<lparr>tr_done := True\<rparr>,
        (case exposures r1 (ref_id (tr_ref t)) of None \<Rightarrow> r1
         | Some st \<Rightarrow>
           if state_matches (Some st) (tr_ref t)
           then r1\<lparr>exposures := (exposures r1)(ref_id (tr_ref t) \<mapsto> st\<lparr>conns := conns st - {tr_conn t}\<rparr>)\<rparr>
           else r1)))"

definition revoke :: "string \<Rightarrow> registry \<Rightarrow> registry" where
  "revoke i r = (case exposures r i of None \<Rightarrow> r
     | Some st \<Rightarrow> revoke_ref (ref_for (es_exposure st)) ''revoked'' r)"

text \<open>\<open>Close\<close>: \<open>order\<close> lists the keys of the exposure map in the order Go iterates over them.\<close>

definition close_registry :: "string list \<Rightarrow> registry \<Rightarrow> registry" where
  "close_registry order r =
     (let r1 = r\<lparr>reg_closed := True\<rparr>;
          refs = List.map_filter (\<lambda>i. map_option (\<lambda>st. ref_for (es_exposure st)) (exposures r1 i)) order
      in foldl (\<lambda>r ref. revoke_ref ref ''shutdown'' r) r1 refs)"

end
