(* ===== verification/Registry_Inv.thy ===== *)
theory Registry_Inv
  imports Registry
begin

text \<open>
  The well-formedness invariant of the exposure registry and its preservation by every
  operation, the frame facts of the operations, and their behaviour on each branch.
\<close>

section \<open>The invariant\<close>

lemma ref_for_sel [simp]: "ref_id (ref_for e) = exp_id e" "ref_generation (ref_for e) = generation e"
  by (simp_all add: ref_for_def)

lemma state_matches_simps [simp]:
  "\<not> state_matches None ref"
  "state_matches (Some st) ref \<longleftrightarrow> ref_for (es_exposure st) = ref"
  by (auto simp: state_matches_def ref_for_def)

definition live :: "registry \<Rightarrow> exposure_ref \<Rightarrow> exposure_state \<Rightarrow> bool" where
  "live r ref st \<longleftrightarrow> exposures r (ref_id ref) = Some st \<and> ref_for (es_exposure st) = ref"

lemma state_matches_live: "state_matches (exposures r (ref_id ref)) ref \<longleftrightarrow> (\<exists>st. live r ref st)"
  by (cases "exposures r (ref_id ref)") (simp_all add: live_def)

lemma state_matches_live_exp:
  "state_matches (exposures r (exp_id e)) (ref_for e) \<longleftrightarrow> (\<exists>st. live r (ref_for e) st)"
  using state_matches_live [of r "ref_for e"] by simp

lemma live_unique: "live r ref st \<Longrightarrow> live r ref st' \<Longrightarrow> st' = st"
  by (simp add: live_def)

lemma live_same_id: "live r ref st \<Longrightarrow> live r ref' st' \<Longrightarrow> ref_id ref = ref_id ref' \<Longrightarrow> ref = ref'"
  unfolding live_def by (metis option.inject)

definition exposure_ok :: "registry \<Rightarrow> string \<Rightarrow> exposure_state \<Rightarrow> bool" where
  "exposure_ok r i st \<longleftrightarrow>
     exp_id (es_exposure st) = i \<and> i \<noteq> []
     \<and> hosts r (exp_host (es_exposure st)) = Some (ref_for (es_exposure st))
     \<and> int (active st) \<le> max_connections (es_exposure st)
     \<and> timer st = Some (exp_expires_at (es_exposure st))"

definition creds_ok :: "registry \<Rightarrow> (digest \<rightharpoonup> credential_record) \<Rightarrow> bool" where
  "creds_ok r m \<longleftrightarrow> (\<forall>d c. m d = Some c \<longrightarrow>
     (\<exists>st. live r (cred_exposure c) st \<and> cred_expires_at c \<le> exp_expires_at (es_exposure st)))"

definition hosts_ok :: "registry \<Rightarrow> bool" where
  "hosts_ok r \<longleftrightarrow> (\<forall>h ref. hosts r h = Some ref \<longrightarrow>
     (\<exists>st. live r ref st \<and> exp_host (es_exposure st) = h))"

definition reg_inv :: "registry \<Rightarrow> bool" where
  "reg_inv r \<longleftrightarrow>
     (\<forall>i st. exposures r i = Some st \<longrightarrow> exposure_ok r i st)
     \<and> hosts_ok r \<and> creds_ok r (capabilities r) \<and> creds_ok r (sessions r)"

lemma reg_invI:
  assumes "\<And>i st. exposures r i = Some st \<Longrightarrow> exposure_ok r i st"
    and "hosts_ok r" and "creds_ok r (capabilities r)" and "creds_ok r (sessions r)"
  shows "reg_inv r"
  using assms by (simp add: reg_inv_def)

lemma reg_invD:
  assumes "reg_inv r"
  shows "exposures r i = Some st \<Longrightarrow> exposure_ok r i st"
    and "hosts_ok r" and "creds_ok r (capabilities r)" and "creds_ok r (sessions r)"
  using assms by (simp_all add: reg_inv_def)

lemma creds_ok_mono: "creds_ok r m \<Longrightarrow> m' \<subseteq>\<^sub>m m \<Longrightarrow> creds_ok r m'"
  unfolding creds_ok_def map_le_def by (metis domI)

lemma creds_ok_delete [simp]: "creds_ok r m \<Longrightarrow> creds_ok r (m(d := None))"
  by (simp add: creds_ok_def)

text \<open>Operations that change neither the exposures nor the hosts.\<close>

lemma live_cong: "exposures r' = exposures r \<Longrightarrow> live r' ref st = live r ref st"
  by (simp add: live_def)

lemma reg_inv_cong:
  assumes "reg_inv r" "exposures r' = exposures r" "hosts r' = hosts r"
    "capabilities r' \<subseteq>\<^sub>m capabilities r" "sessions r' \<subseteq>\<^sub>m sessions r"
  shows "reg_inv r'"
proof -
  have l: "live r' = live r" using assms(2) by (simp add: fun_eq_iff live_def)
  then have c: "creds_ok r' = creds_ok r" by (simp add: fun_eq_iff creds_ok_def)
  show ?thesis
    using assms creds_ok_mono [of r "capabilities r" "capabilities r'"]
      creds_ok_mono [of r "sessions r" "sessions r'"]
    by (auto simp: reg_inv_def hosts_ok_def exposure_ok_def l c)
qed

lemma emit_sel [simp]:
  "exposures (emit ev r) = exposures r" "hosts (emit ev r) = hosts r"
  "capabilities (emit ev r) = capabilities r" "sessions (emit ev r) = sessions r"
  "next_gen (emit ev r) = next_gen r" "reg_closed (emit ev r) = reg_closed r"
  "closed_conns (emit ev r) = closed_conns r" "session_ttl (emit ev r) = session_ttl r"
  "bootstrap_ttl (emit ev r) = bootstrap_ttl r"
  by (simp_all add: emit_def)

lemma reg_inv_emit [simp]: "reg_inv (emit ev r) = reg_inv r"
  using reg_inv_cong [of r "emit ev r"] reg_inv_cong [of "emit ev r" r] by auto

lemma live_emit [simp]: "live (emit ev r) = live r"
  by (simp add: fun_eq_iff live_def)

lemma reg_inv_new: "reg_inv (new_registry ttl opts)"
  by (simp add: reg_inv_def new_registry_def hosts_ok_def creds_ok_def)

section \<open>Updating one live exposure\<close>

text \<open>
  \<open>Acquire\<close>, its release closure and connection tracking replace the state of one exposure
  by one with the same public exposure.
\<close>

lemma live_update:
  assumes "exposures r i = Some st" and "es_exposure st' = es_exposure st"
    and "exposures r' = (exposures r)(i \<mapsto> st')"
  shows "live r' ref s \<longleftrightarrow> (if ref_id ref = i then s = st' \<and> live r ref st else live r ref s)"
  using assms by (auto simp: live_def)

lemma reg_inv_update:
  assumes inv: "reg_inv r" and st: "exposures r i = Some st"
    and same: "es_exposure st' = es_exposure st" "timer st' = timer st"
    and max: "int (active st') \<le> max_connections (es_exposure st)"
    and r': "exposures r' = (exposures r)(i \<mapsto> st')" "hosts r' = hosts r"
      "capabilities r' = capabilities r" "sessions r' = sessions r"
  shows "reg_inv r'"
proof (rule reg_invI)
  note upd = live_update [OF st same(1) r'(1)]
  have creds: "creds_ok r' m" if "creds_ok r m" for m
    unfolding creds_ok_def
  proof (intro allI impI)
    fix d c assume "m d = Some c"
    with that obtain s where s: "live r (cred_exposure c) s"
      "cred_expires_at c \<le> exp_expires_at (es_exposure s)" by (auto simp: creds_ok_def)
    show "\<exists>s. live r' (cred_exposure c) s \<and> cred_expires_at c \<le> exp_expires_at (es_exposure s)"
    proof (cases "ref_id (cred_exposure c) = i")
      case True
      with s st have "s = st" by (simp add: live_def)
      with True s same(1) show ?thesis by (auto simp: upd)
    qed (use s in \<open>auto simp: upd\<close>)
  qed
  show "creds_ok r' (capabilities r')" "creds_ok r' (sessions r')"
    using creds reg_invD(3,4) [OF inv] r'(3,4) by auto
  show "hosts_ok r'"
    using reg_invD(2) [OF inv] st same(1) r'(1,2)
    by (fastforce simp: hosts_ok_def live_def)
next
  fix j s assume "exposures r' j = Some s"
  then show "exposure_ok r' j s"
    using reg_invD(1) [OF inv, of j] reg_invD(1) [OF inv st] same max r'(1,2)
    by (auto simp: exposure_ok_def split: if_splits)
qed

section \<open>Registration\<close>

lemma install_sel [simp]:
  "exposures (install_exposure reg h dg now r) = (exposures r)(rg_exposure_id reg \<mapsto>
     \<lparr>es_exposure = \<lparr>exp_id = rg_exposure_id reg, exp_host = h,
        exp_expires_at = rg_expires_at reg, allow_websocket = rg_allow_websocket reg,
        max_connections = rg_max_connections reg, generation = (next_gen r + 1) mod 2 ^ 64\<rparr>,
      active = 0, timer = Some (rg_expires_at reg), conns = {}\<rparr>)"
  "hosts (install_exposure reg h dg now r) =
     (hosts r)(h \<mapsto> \<lparr>ref_id = rg_exposure_id reg, ref_generation = (next_gen r + 1) mod 2 ^ 64\<rparr>)"
  "capabilities (install_exposure reg h dg now r) = (capabilities r)(dg \<mapsto>
     \<lparr>cred_exposure = \<lparr>ref_id = rg_exposure_id reg, ref_generation = (next_gen r + 1) mod 2 ^ 64\<rparr>,
      cred_expires_at = min (rg_expires_at reg) (now + bootstrap_ttl r)\<rparr>)"
  "sessions (install_exposure reg h dg now r) = sessions r"
  "closed_conns (install_exposure reg h dg now r) = closed_conns r"
  "reg_closed (install_exposure reg h dg now r) = reg_closed r"
  by (auto simp: install_exposure_def Let_def min_def)

lemma install_next_gen_mod: "next_gen (install_exposure reg h dg now r) = (next_gen r + 1) mod 2 ^ 64"
  by (simp add: install_exposure_def Let_def)

text \<open>What a successful \<open>Register\<close> has checked, and what it returns.\<close>

lemma register_Inr:
  assumes "register env rnd n1 n2 reg r = (Inr tok, r')"
  obtains h where "canonical_host env (rg_host reg) = Inr h"
    "rg_exposure_id reg \<noteq> []" "length (rg_exposure_id reg) \<le> 128"
    "n1 < rg_expires_at reg" "n2 < rg_expires_at reg" "0 < rg_max_connections reg"
    "32 \<le> length rnd" "tok = b64_encode raw_url_encoding (take 32 rnd)"
    "\<not> reg_closed r" "exposures r (rg_exposure_id reg) = None" "hosts r h = None"
    "r' = emit (mk_event (rg_exposure_id reg) ''register'' ''allowed'')
            (install_exposure reg h (sha256 env tok) n2 r)"
  using assms
  by (auto simp: register_def new_credential_def Let_def split: sum.splits option.splits if_splits)

lemma register_Inl: "register env rnd n1 n2 reg r = (Inl e, r') \<Longrightarrow> r' = r"
  by (auto simp: register_def Let_def split: sum.splits option.splits if_splits prod.splits)

lemma reg_inv_install:
  assumes inv: "reg_inv r" and new: "exposures r (rg_exposure_id reg) = None" "hosts r h = None"
    and ok: "rg_exposure_id reg \<noteq> []" "0 < rg_max_connections reg"
  shows "reg_inv (install_exposure reg h dg now r)" (is "reg_inv ?r")
proof (rule reg_invI)
  have keep: "live r ref st \<Longrightarrow> live ?r ref st" for ref st
    using new(1) by (auto simp: live_def)
  have creds: "creds_ok r m \<Longrightarrow> creds_ok ?r m" for m
    unfolding creds_ok_def using keep by blast
  have new_live: "live ?r \<lparr>ref_id = rg_exposure_id reg, ref_generation = (next_gen r + 1) mod 2 ^ 64\<rparr>
      (the (exposures ?r (rg_exposure_id reg)))"
    by (simp add: live_def ref_for_def)
  show "hosts_ok ?r"
    unfolding hosts_ok_def
  proof (intro allI impI)
    fix h' ref assume h': "hosts ?r h' = Some ref"
    show "\<exists>st. live ?r ref st \<and> exp_host (es_exposure st) = h'"
    proof (cases "h' = h")
      case True
      with h' new_live show ?thesis by force
    next
      case False
      with h' have "hosts r h' = Some ref" by simp
      with reg_invD(2) [OF inv] keep show ?thesis unfolding hosts_ok_def by blast
    qed
  qed
  show "creds_ok ?r (sessions ?r)"
    using creds [OF reg_invD(4) [OF inv]] by simp
  show "creds_ok ?r (capabilities ?r)"
    using creds [OF reg_invD(3) [OF inv]] new_live
    by (force simp: creds_ok_def)
next
  fix i st assume "exposures ?r i = Some st"
  then show "exposure_ok ?r i st"
    using reg_invD(1) [OF inv, of i st] new ok
    by (auto simp: exposure_ok_def ref_for_def split: if_splits)
qed

lemma reg_inv_register [inv_intro]:
  assumes "reg_inv r" shows "reg_inv (snd (register env rnd n1 n2 reg r))"
proof (cases "register env rnd n1 n2 reg r")
  case (Pair res r')
  show ?thesis
  proof (cases res)
    case (Inl e)
    with Pair assms show ?thesis using register_Inl by fastforce
  next
    case (Inr tok)
    with Pair show ?thesis
      using register_Inr [of env rnd n1 n2 reg r tok r'] reg_inv_install [OF assms] by (metis reg_inv_emit snd_conv)
  qed
qed

section \<open>Revocation\<close>

lemma revoke_ref_dead: "\<not> (\<exists>st. live r ref st) \<Longrightarrow> revoke_ref ref out r = r"
  by (auto simp: revoke_ref_def live_def split: option.splits)

lemma revoke_ref_live:
  assumes inv: "reg_inv r" and l: "live r ref st"
  shows "exposures (revoke_ref ref out r) = (exposures r)(ref_id ref := None)"
    "hosts (revoke_ref ref out r) = (hosts r)(exp_host (es_exposure st) := None)"
    "capabilities (revoke_ref ref out r) = map_purge (\<lambda>c. cred_exposure c = ref) (capabilities r)"
    "sessions (revoke_ref ref out r) = map_purge (\<lambda>c. cred_exposure c = ref) (sessions r)"
    "closed_conns (revoke_ref ref out r) = closed_conns r \<union> conns st"
    "emitted (revoke_ref ref out r) = emitted r @ [mk_event (ref_id ref) ''revoke'' out]"
  using l reg_invD(1) [OF inv, of "ref_id ref" st]
  by (auto simp: revoke_ref_def live_def exposure_ok_def emit_def)

lemma revoke_ref_frame [frame]:
  "next_gen (revoke_ref ref out r) = next_gen r"
  "reg_closed (revoke_ref ref out r) = reg_closed r"
  "session_ttl (revoke_ref ref out r) = session_ttl r"
  "capabilities (revoke_ref ref out r) \<subseteq>\<^sub>m capabilities r"
  "sessions (revoke_ref ref out r) \<subseteq>\<^sub>m sessions r"
  "exposures (revoke_ref ref out r) \<subseteq>\<^sub>m exposures r"
  by (auto simp: revoke_ref_def map_purge_le map_le_def split: option.splits)

lemma live_revoke_ref:
  "live (revoke_ref ref out r) ref' st \<longleftrightarrow> live r ref' st \<and> ref' \<noteq> ref"
proof (cases "\<exists>s. live r ref s")
  case True
  then obtain s where l: "live r ref s" ..
  then have x: "exposures (revoke_ref ref out r) = (exposures r)(ref_id ref := None)"
    by (simp add: revoke_ref_def live_def)
  show ?thesis
  proof (cases "ref_id ref' = ref_id ref")
    case True
    then show ?thesis using x live_same_id [OF _ l, of ref'] by (auto simp: live_def)
  next
    case False
    then show ?thesis using x by (auto simp: live_def)
  qed
next
  case False
  then show ?thesis by (auto simp: revoke_ref_dead)
qed

lemma reg_inv_revoke_ref [inv_intro]:
  assumes inv: "reg_inv r" shows "reg_inv (revoke_ref ref out r)" (is "reg_inv ?r")
proof (cases "\<exists>st. live r ref st")
  case True
  then obtain st where l: "live r ref st" ..
  note sel = revoke_ref_live [OF inv l]
  show ?thesis
  proof (rule reg_invI)
    have "hosts r h = Some ref' \<Longrightarrow> h \<noteq> exp_host (es_exposure st) \<Longrightarrow>
        \<exists>s. (live r ref' s \<and> ref' \<noteq> ref) \<and> exp_host (es_exposure s) = h" for h ref'
      using reg_invD(2) [OF inv] live_unique [OF l] unfolding hosts_ok_def by blast
    then show "hosts_ok ?r" by (simp add: hosts_ok_def sel live_revoke_ref)
    have purge: "creds_ok ?r (map_purge (\<lambda>c. cred_exposure c = ref) m)" if "creds_ok r m" for m
      unfolding creds_ok_def
    proof (intro allI impI)
      fix d c assume "map_purge (\<lambda>c. cred_exposure c = ref) m d = Some c"
      then have "m d = Some c" and ne: "cred_exposure c \<noteq> ref" by simp_all
      with that obtain s where "live r (cred_exposure c) s" "cred_expires_at c \<le> exp_expires_at (es_exposure s)"
        unfolding creds_ok_def by metis
      with ne show "\<exists>s. live ?r (cred_exposure c) s \<and> cred_expires_at c \<le> exp_expires_at (es_exposure s)"
        by (auto simp only: live_revoke_ref)
    qed
    show "creds_ok ?r (capabilities ?r)" "creds_ok ?r (sessions ?r)"
      using reg_invD(3,4) [OF inv] by (simp_all add: sel purge)
  next
    fix i s assume s: "exposures ?r i = Some s"
    then have i: "i \<noteq> ref_id ref" and "exposures r i = Some s" by (auto simp: sel split: if_splits)
    then have ok: "exposure_ok r i s" using inv reg_invD(1) by blast
    then have "ref_for (es_exposure s) \<noteq> ref" using i unfolding exposure_ok_def by (metis ref_for_sel(1))
    moreover have "hosts r (exp_host (es_exposure st)) = Some ref"
      using l reg_invD(1) [OF inv, of "ref_id ref" st] by (simp add: exposure_ok_def live_def)
    moreover have "hosts r (exp_host (es_exposure s)) = Some (ref_for (es_exposure s))"
      using ok by (simp add: exposure_ok_def)
    ultimately have "exp_host (es_exposure s) \<noteq> exp_host (es_exposure st)" by force
    with ok show "exposure_ok ?r i s"
      by (simp add: exposure_ok_def sel)
  qed
qed (simp add: revoke_ref_dead inv)

lemma reg_inv_revoke [inv_intro]: "reg_inv r \<Longrightarrow> reg_inv (revoke i r)"
  by (auto simp: revoke_def intro: reg_inv_revoke_ref split: option.splits)

lemma reg_inv_fold_revoke:
  "reg_inv r \<Longrightarrow> reg_inv (foldl (\<lambda>r ref. revoke_ref ref out r) r refs)"
  by (induction refs arbitrary: r) (auto intro: reg_inv_revoke_ref)

lemma reg_inv_close [inv_intro]: "reg_inv r \<Longrightarrow> reg_inv (close_registry order r)"
  unfolding close_registry_def Let_def
  by (rule reg_inv_fold_revoke) (rule reg_inv_cong [of r], simp_all)

section \<open>Lookup, exchange, authentication\<close>

text \<open>A successful lookup reads a live exposure of that host and changes nothing.\<close>

lemma lookup_host_Inr:
  assumes "lookup_host env now host r = (Inr e, r')"
  obtains h st where "canonical_host env host = Inr h" "hosts r h = Some (ref_for e)"
    "live r (ref_for e) st" "e = es_exposure st" "now < exp_expires_at e" "r' = r"
proof (cases "canonical_host env host")
  case (Inr h)
  define ref where "ref = (case hosts r h of None \<Rightarrow> zero_ref | Some ref \<Rightarrow> ref)"
  obtain st where st: "exposures r (ref_id ref) = Some st"
    using assms Inr by (cases "exposures r (ref_id ref)") (simp_all add: lookup_host_def Let_def ref_def [symmetric])
  with assms Inr have ok: "hosts r h \<noteq> None \<and> state_matches (Some st) ref \<and> now < exp_expires_at e
      \<and> e = es_exposure st \<and> r' = r"
    by (auto simp del: state_matches_simps simp: lookup_host_def Let_def ref_def [symmetric] split: if_split_asm)
  then have ref: "ref = ref_for e" by simp
  from ok obtain ref' where h': "hosts r h = Some ref'" by blast
  then have "ref' = ref" by (simp add: ref_def)
  with h' ref have "hosts r h = Some (ref_for e)" by simp
  moreover from ok have e: "e = es_exposure st" by blast
  then have "live r (ref_for e) st" using st ref by (simp add: live_def)
  ultimately show thesis using that [OF Inr, of st] ok by blast
qed (use assms in \<open>simp add: lookup_host_def\<close>)

lemma lookup_host_Inl:
  assumes "lookup_host env now host r = (Inl e, r')"
  shows "e = Unauthorized \<and> (r' = r \<or> (\<exists>ref. r' = revoke_ref ref ''expired'' r))"
proof (cases "canonical_host env host")
  case (Inr h)
  define ref where "ref = (case hosts r h of None \<Rightarrow> zero_ref | Some ref \<Rightarrow> ref)"
  have "e = Unauthorized \<and> (r' = r \<or> r' = revoke_ref ref ''expired'' r)"
  proof (cases "exposures r (ref_id ref)")
    case (Some st)
    with assms Inr show ?thesis
      by (simp del: state_matches_simps add: lookup_host_def Let_def ref_def [symmetric] split: if_split_asm)
  qed (use assms Inr in \<open>simp add: lookup_host_def Let_def ref_def [symmetric]\<close>)
  then show ?thesis by blast
qed (use assms in \<open>simp add: lookup_host_def\<close>)

lemma lookup_host_result:
  "snd (lookup_host env now host r) = r
   \<or> (\<exists>ref. snd (lookup_host env now host r) = revoke_ref ref ''expired'' r)"
proof (cases "lookup_host env now host r")
  case (Pair res r')
  then show ?thesis
    by (cases res) (auto dest: lookup_host_Inl elim: lookup_host_Inr)
qed

lemma reg_inv_lookup [inv_intro]: "reg_inv r \<Longrightarrow> reg_inv (snd (lookup_host env now host r))"
  using lookup_host_result [of env now host r] by (auto intro: reg_inv_revoke_ref)

lemma lookup_host_frame [frame]:
  "next_gen (snd (lookup_host env now host r)) = next_gen r"
  "capabilities (snd (lookup_host env now host r)) \<subseteq>\<^sub>m capabilities r"
  "sessions (snd (lookup_host env now host r)) \<subseteq>\<^sub>m sessions r"
  "reg_closed (snd (lookup_host env now host r)) = reg_closed r"
  using lookup_host_result [of env now host r] by (auto simp: revoke_ref_frame)

lemma exchange_consume_Inr:
  assumes "exchange_consume env now e cap r = (Inr u, r')"
  obtains c st where "capabilities r (sha256 env cap) = Some c" "cred_exposure c = ref_for e"
    "live r (ref_for e) st" "now < cred_expires_at c"
    "r' = r\<lparr>capabilities := (capabilities r)(sha256 env cap := None)\<rparr>"
proof (cases "capabilities r (sha256 env cap)")
  case (Some c)
  have ok: "cred_exposure c = ref_for e \<and> state_matches (exposures r (exp_id e)) (ref_for e)
      \<and> now < cred_expires_at c \<and> r' = r\<lparr>capabilities := (capabilities r)(sha256 env cap := None)\<rparr>"
    using assms Some by (simp del: state_matches_simps add: exchange_consume_def Let_def split: if_split_asm)
  then obtain st where "live r (ref_for e) st" by (auto simp only: state_matches_live_exp)
  with ok Some show thesis using that [of c st] by blast
qed (use assms in \<open>simp add: exchange_consume_def Let_def\<close>)

lemma exchange_consume_frame [frame]:
  "exposures (snd (exchange_consume env now e cap r)) = exposures r"
  "hosts (snd (exchange_consume env now e cap r)) = hosts r"
  "sessions (snd (exchange_consume env now e cap r)) = sessions r"
  "next_gen (snd (exchange_consume env now e cap r)) = next_gen r"
  "closed_conns (snd (exchange_consume env now e cap r)) = closed_conns r"
  "capabilities (snd (exchange_consume env now e cap r)) \<subseteq>\<^sub>m capabilities r"
  by (auto simp: exchange_consume_def Let_def map_le_def split: option.splits)

lemma reg_inv_consume [inv_intro]: "reg_inv r \<Longrightarrow> reg_inv (snd (exchange_consume env now e cap r))"
  by (rule reg_inv_cong [of r]) (simp_all add: exchange_consume_frame)

lemma exchange_install_Inr:
  assumes "exchange_install now e s dg r = (Inr (s', ex), r')"
  obtains st where "live r (ref_for e) st" "s' = s"
    "ex = min (exp_expires_at e) (now + session_ttl r)" "now < exp_expires_at (es_exposure st)"
    "r' = emit (mk_event (exp_id e) ''exchange'' ''allowed'')
       (r\<lparr>sessions := (sessions r)(dg \<mapsto> \<lparr>cred_exposure = ref_for e, cred_expires_at = ex\<rparr>)\<rparr>)"
  using assms
  by (auto simp: exchange_install_def Let_def live_def min_def split: option.splits if_splits)

lemma exchange_install_Inl: "exchange_install now e s dg r = (Inl err, r') \<Longrightarrow> r' = r"
  by (auto simp: exchange_install_def Let_def split: option.splits if_splits)

lemma exchange_install_frame [frame]:
  "exposures (snd (exchange_install now e s dg r)) = exposures r"
  "hosts (snd (exchange_install now e s dg r)) = hosts r"
  "capabilities (snd (exchange_install now e s dg r)) = capabilities r"
  "next_gen (snd (exchange_install now e s dg r)) = next_gen r"
  "closed_conns (snd (exchange_install now e s dg r)) = closed_conns r"
  by (auto simp: exchange_install_def Let_def split: option.splits)

text \<open>
  The session of an exchange expires with its exposure at the latest: the exposure read by
  the lookup has the same reference, hence (while the registry is well formed) the same
  data, as the one the installation finds.
\<close>

lemma reg_inv_session_add:
  assumes inv: "reg_inv r" and l: "live r (cred_exposure c) st"
    and ex: "cred_expires_at c \<le> exp_expires_at (es_exposure st)"
  shows "reg_inv (r\<lparr>sessions := (sessions r)(dg \<mapsto> c)\<rparr>)" (is "reg_inv ?r")
proof -
  have "live ?r = live r" by (simp add: fun_eq_iff live_def)
  then show ?thesis
    using inv l ex unfolding reg_inv_def hosts_ok_def creds_ok_def exposure_ok_def
    by (auto split: if_splits)
qed

lemma check_session_Inr:
  assumes "check_session env now e s r = (Inr e', r')"
  obtains c st where "sessions r (sha256 env s) = Some c" "cred_exposure c = ref_for e"
    "live r (ref_for e) st" "now < cred_expires_at c" "e' = e" "r' = r"
proof (cases "sessions r (sha256 env s)")
  case (Some c)
  have ok: "cred_exposure c = ref_for e \<and> state_matches (exposures r (exp_id e)) (ref_for e)
      \<and> now < cred_expires_at c \<and> e' = e \<and> r' = r"
    using assms Some by (simp del: state_matches_simps add: check_session_def Let_def split: if_split_asm)
  then obtain st where "live r (ref_for e) st" by (auto simp only: state_matches_live_exp)
  with ok Some show thesis using that [of c st] by blast
qed (use assms in \<open>simp add: check_session_def Let_def\<close>)

lemma check_session_frame [frame]:
  "exposures (snd (check_session env now e s r)) = exposures r"
  "hosts (snd (check_session env now e s r)) = hosts r"
  "capabilities (snd (check_session env now e s r)) = capabilities r"
  "next_gen (snd (check_session env now e s r)) = next_gen r"
  "closed_conns (snd (check_session env now e s r)) = closed_conns r"
  "sessions (snd (check_session env now e s r)) \<subseteq>\<^sub>m sessions r"
  by (auto simp: check_session_def Let_def map_le_def split: option.splits)

lemma reg_inv_check_session [inv_intro]:
  "reg_inv r \<Longrightarrow> reg_inv (snd (check_session env now e s r))"
  by (rule reg_inv_cong [of r]) (simp_all add: check_session_frame)

section \<open>Slots and connections\<close>

lemma acquire_Inr:
  assumes "acquire now e r = (Inr sl, r')"
  obtains st where "live r (ref_for e) st" "now < exp_expires_at (es_exposure st)"
    "int (active st) < max_connections (es_exposure st)"
    "sl = \<lparr>slot_ref = ref_for e, slot_released = False\<rparr>"
    "r' = r\<lparr>exposures := (exposures r)(exp_id e \<mapsto> st\<lparr>active := active st + 1\<rparr>)\<rparr>"
  using assms by (auto simp: acquire_def Let_def live_def split: option.splits if_splits)

lemma acquire_Inl: "acquire now e r = (Inl err, r') \<Longrightarrow> r' = r"
  by (auto simp: acquire_def Let_def split: option.splits if_splits)

text \<open>The instance of \<open>reg_inv_update\<close> for a record update of the exposure map.\<close>

lemma reg_inv_put:
  "reg_inv r \<Longrightarrow> exposures r i = Some st \<Longrightarrow> es_exposure st' = es_exposure st \<Longrightarrow>
   timer st' = timer st \<Longrightarrow> int (active st') \<le> max_connections (es_exposure st) \<Longrightarrow>
   reg_inv (r\<lparr>exposures := (exposures r)(i \<mapsto> st')\<rparr>)"
  by (rule reg_inv_update) simp_all

lemma active_le_max:
  "reg_inv r \<Longrightarrow> exposures r i = Some st \<Longrightarrow> int (active st) \<le> max_connections (es_exposure st)"
  using reg_invD(1) by (simp add: exposure_ok_def)

lemma reg_inv_acquire [inv_intro]:
  assumes "reg_inv r" shows "reg_inv (snd (acquire now e r))"
proof (cases "exposures r (exp_id e)")
  case (Some st)
  then show ?thesis
    using assms reg_inv_put [OF assms Some, of "st\<lparr>active := active st + 1\<rparr>"]
    by (simp add: acquire_def Let_def)
qed (simp add: acquire_def Let_def assms)

lemma reg_inv_release [inv_intro]:
  assumes "reg_inv r" shows "reg_inv (snd (release_slot sl r))"
proof (cases "exposures r (ref_id (slot_ref sl))")
  case (Some st)
  then show ?thesis
    using assms reg_inv_put [OF assms Some, of "st\<lparr>active := active st - 1\<rparr>"]
      active_le_max [OF assms Some]
    by (simp add: release_slot_def)
qed (simp add: release_slot_def assms)

lemma track_connection_Inr:
  assumes "track_connection now e c r = (Inr t, r')"
  obtains st where "live r (ref_for e) st" "now < exp_expires_at (es_exposure st)"
    "t = \<lparr>tr_ref = ref_for e, tr_conn = c, tr_done = False\<rparr>"
    "r' = r\<lparr>exposures := (exposures r)(exp_id e \<mapsto> st\<lparr>conns := insert c (conns st)\<rparr>)\<rparr>"
  using assms by (auto simp: track_connection_def Let_def live_def split: option.splits if_splits)

lemma track_connection_Inl:
  "track_connection now e c r = (Inl err, r') \<Longrightarrow> r' = r\<lparr>closed_conns := insert c (closed_conns r)\<rparr>"
  by (auto simp: track_connection_def Let_def split: option.splits if_splits)

lemma reg_inv_closed_conns [simp]: "reg_inv (r\<lparr>closed_conns := S\<rparr>) = reg_inv r"
  using reg_inv_cong [of r "r\<lparr>closed_conns := S\<rparr>"] reg_inv_cong [of "r\<lparr>closed_conns := S\<rparr>" r] by auto

lemma reg_inv_track [inv_intro]:
  assumes "reg_inv r" shows "reg_inv (snd (track_connection now e c r))"
proof (cases "exposures r (exp_id e)")
  case (Some st)
  then show ?thesis
    using assms reg_inv_put [OF assms Some, of "st\<lparr>conns := insert c (conns st)\<rparr>"]
      active_le_max [OF assms Some]
    by (simp add: track_connection_def Let_def)
qed (simp add: track_connection_def Let_def assms)

lemma reg_inv_tracked_close [inv_intro]:
  assumes "reg_inv r" shows "reg_inv (snd (tracked_close t r))"
proof -
  let ?r = "r\<lparr>closed_conns := insert (tr_conn t) (closed_conns r)\<rparr>"
  have inv: "reg_inv ?r" using assms by simp
  show ?thesis
  proof (cases "exposures ?r (ref_id (tr_ref t))")
    case (Some st)
    then show ?thesis
      using inv reg_inv_put [OF inv Some, of "st\<lparr>conns := conns st - {tr_conn t}\<rparr>"]
        active_le_max [OF inv Some]
      by (simp add: tracked_close_def Let_def)
  qed (use inv in \<open>simp add: tracked_close_def Let_def\<close>)
qed

end
