(* ===== verification/Transition.thy ===== *)
theory Transition
  imports Prelude
begin

text \<open>
  The contract between a step relation and an invariant, stated once as a locale and
  interpreted on every state machine of the development: what holds initially and is kept
  by every step holds in every reachable state.
\<close>

locale transition_system =
  fixes init :: "'s \<Rightarrow> bool" and step :: "'s \<Rightarrow> 's \<Rightarrow> bool" and inv :: "'s \<Rightarrow> bool"
  assumes init_inv: "init s \<Longrightarrow> inv s"
    and step_inv: "inv s \<Longrightarrow> step s t \<Longrightarrow> inv t"
begin

lemma run_inv: "inv s \<Longrightarrow> step\<^sup>*\<^sup>* s t \<Longrightarrow> inv t"
  by (rotate_tac, induction rule: rtranclp_induct) (auto intro: step_inv)

lemma reachable_inv: "init s \<Longrightarrow> step\<^sup>*\<^sup>* s t \<Longrightarrow> inv t"
  by (rule run_inv) (rule init_inv)

end

text \<open>A property that, under the invariant, no step destroys (a terminal condition).\<close>

locale stable_property = transition_system init step inv
  for init :: "'s \<Rightarrow> bool" and step :: "'s \<Rightarrow> 's \<Rightarrow> bool" and inv :: "'s \<Rightarrow> bool" +
  fixes P :: "'s \<Rightarrow> bool"
  assumes step_stable: "inv s \<Longrightarrow> P s \<Longrightarrow> step s t \<Longrightarrow> P t"
begin

lemma run_stable:
  assumes run: "step\<^sup>*\<^sup>* s t" and "inv s" and "P s"
  shows "P t"
proof -
  from run have "inv t \<and> P t"
    using assms(2,3) by (induction rule: rtranclp_induct) (auto intro: step_inv step_stable)
  then show ?thesis ..
qed

end

end
