(* ===== verification/Router_System.thy ===== *)
theory Router_System
  imports Registry_Inv Transition
begin

text \<open>
  The exposure registry with its concurrent callers: any number of exchanges in flight, each
  between two of its critical sections, the outstanding slot handles and tracked
  connections, timers that may fire at any moment, and arbitrary interleavings of all of
  them. The ghost components record the digests issued so far, the digests of the
  capabilities consumed so far and the number of registrations.
\<close>

section \<open>The system\<close>

datatype exchange_pc = Looked exposure string | Consumed exposure string | Finished

record system =
  sreg :: registry
  slots :: "slot list"
  tracks :: "tracked list"
  pending :: "exchange_pc list"
  issued :: "digest set"
  consumed :: "digest list"
  registered :: nat

definition initial_system :: "registry \<Rightarrow> system" where
  "initial_system r = \<lparr>sreg = r, slots = [], tracks = [], pending = [],
     issued = {}, consumed = [], registered = 0\<rparr>"

definition system_init :: "system \<Rightarrow> bool" where
  "system_init s \<longleftrightarrow> (\<exists>ttl opts. s = initial_system (new_registry ttl opts))"

text \<open>
  One rule per critical section. \<open>LookupHost\<close> of an expired exposure, \<open>Revoke\<close> and \<open>Close\<close>
  read references in one critical section and revoke each in a later one: the interleavings
  between are the runs in which \<open>st_timer\<close> revokes the reference later, and \<open>st_close\<close> allows
  any list, also one that covers only some exposures. The premise on \<open>issued\<close> in the two rules that create a
  credential says that a fresh credential of 32 random bytes has a digest not seen before.
\<close>

inductive router_step :: "router_env \<Rightarrow> system \<Rightarrow> system \<Rightarrow> bool" for env :: router_env where
  st_register:
    "register env rnd n1 n2 reg (sreg s) = (Inr tok, r') \<Longrightarrow> sha256 env tok \<notin> issued s \<Longrightarrow>
     router_step env s (s\<lparr>sreg := r', issued := insert (sha256 env tok) (issued s),
       registered := Suc (registered s)\<rparr>)"
| st_lookup:
    "lookup_host env n h (sreg s) = (res, r') \<Longrightarrow> router_step env s (s\<lparr>sreg := r'\<rparr>)"
| st_exchange_begin:
    "lookup_host env n h (sreg s) = (Inr e, r') \<Longrightarrow> valid_credential_shape cap \<Longrightarrow>
     router_step env s (s\<lparr>sreg := r', pending := pending s @ [Looked e cap]\<rparr>)"
| st_exchange_consume:
    "i < length (pending s) \<Longrightarrow> pending s ! i = Looked e cap \<Longrightarrow>
     exchange_consume env n e cap (sreg s) = (Inr u, r') \<Longrightarrow>
     router_step env s (s\<lparr>sreg := r', pending := (pending s)[i := Consumed e cap],
       consumed := sha256 env cap # consumed s\<rparr>)"
| st_exchange_denied:
    "i < length (pending s) \<Longrightarrow> pending s ! i = Looked e cap \<Longrightarrow>
     exchange_consume env n e cap (sreg s) = (Inl err, r') \<Longrightarrow>
     router_step env s (s\<lparr>sreg := r', pending := (pending s)[i := Finished]\<rparr>)"
| st_exchange_install:
    "i < length (pending s) \<Longrightarrow> pending s ! i = Consumed e cap \<Longrightarrow>
     new_credential env rnd = Some (tok, dg) \<Longrightarrow> dg \<notin> issued s \<Longrightarrow>
     exchange_install n e tok dg (sreg s) = (res, r') \<Longrightarrow>
     router_step env s (s\<lparr>sreg := r', pending := (pending s)[i := Finished],
       issued := insert dg (issued s)\<rparr>)"
| st_exchange_no_random:
    "i < length (pending s) \<Longrightarrow> pending s ! i = Consumed e cap \<Longrightarrow>
     router_step env s (s\<lparr>pending := (pending s)[i := Finished]\<rparr>)"
| st_check_session:
    "check_session env n e tok (sreg s) = (res, r') \<Longrightarrow> router_step env s (s\<lparr>sreg := r'\<rparr>)"
| st_acquire:
    "acquire n e (sreg s) = (Inr sl, r') \<Longrightarrow>
     router_step env s (s\<lparr>sreg := r', slots := slots s @ [sl]\<rparr>)"
| st_release:
    "i < length (slots s) \<Longrightarrow> release_slot (slots s ! i) (sreg s) = (sl, r') \<Longrightarrow>
     router_step env s (s\<lparr>sreg := r', slots := (slots s)[i := sl]\<rparr>)"
| st_track:
    "track_connection n e c (sreg s) = (Inr t, r') \<Longrightarrow>
     router_step env s (s\<lparr>sreg := r', tracks := tracks s @ [t]\<rparr>)"
| st_track_rejected:
    "track_connection n e c (sreg s) = (Inl err, r') \<Longrightarrow> router_step env s (s\<lparr>sreg := r'\<rparr>)"
| st_tracked_close:
    "i < length (tracks s) \<Longrightarrow> tracked_close (tracks s ! i) (sreg s) = (t, r') \<Longrightarrow>
     router_step env s (s\<lparr>sreg := r', tracks := (tracks s)[i := t]\<rparr>)"
| st_revoke: "router_step env s (s\<lparr>sreg := revoke i (sreg s)\<rparr>)"
| st_timer: "router_step env s (s\<lparr>sreg := revoke_ref ref ''expired'' (sreg s)\<rparr>)"
| st_close: "router_step env s (s\<lparr>sreg := close_registry order (sreg s)\<rparr>)"

section \<open>What the handles of the callers promise\<close>

text \<open>
  An operation that registers nothing can only make exposures die, and it closes the
  connections of those that die.
\<close>

definition shrinks :: "registry \<Rightarrow> registry \<Rightarrow> bool" where
  "shrinks r r' \<longleftrightarrow> next_gen r' = next_gen r \<and> closed_conns r \<subseteq> closed_conns r'
     \<and> (\<forall>ref st. live r' ref st \<longrightarrow> live r ref st)
     \<and> (\<forall>ref st. live r ref st \<longrightarrow> live r' ref st \<or> conns st \<subseteq> closed_conns r')"

lemma shrinks_refl [simp]: "shrinks r r"
  by (simp add: shrinks_def)

lemma shrinks_trans: "shrinks r r1 \<Longrightarrow> shrinks r1 r2 \<Longrightarrow> shrinks r r2"
  unfolding shrinks_def by (metis subset_trans)

lemma shrinks_same_exposures:
  "exposures r' = exposures r \<Longrightarrow> next_gen r' = next_gen r \<Longrightarrow> closed_conns r \<subseteq> closed_conns r' \<Longrightarrow>
   shrinks r r'"
  by (simp add: shrinks_def live_def)

lemma shrinks_revoke_ref: "shrinks r (revoke_ref ref out r)"
proof -
  have "conns st \<subseteq> closed_conns (revoke_ref ref out r)" if "live r ref st" for st
    using that by (auto simp: revoke_ref_def live_def)
  moreover have "closed_conns r \<subseteq> closed_conns (revoke_ref ref out r)"
    by (auto simp: revoke_ref_def split: option.splits)
  ultimately show ?thesis
    by (auto simp: shrinks_def live_revoke_ref revoke_ref_frame)
qed

lemma shrinks_revoke: "shrinks r (revoke i r)"
  by (auto simp: revoke_def shrinks_revoke_ref split: option.splits)

lemma shrinks_fold: "shrinks r (foldl (\<lambda>r ref. revoke_ref ref out r) r refs)"
  by (induction refs arbitrary: r) (auto intro: shrinks_trans [OF shrinks_revoke_ref])

lemma shrinks_close: "shrinks r (close_registry order r)"
  unfolding close_registry_def Let_def
  by (rule shrinks_trans [OF shrinks_same_exposures shrinks_fold]) simp_all

lemma shrinks_lookup: "shrinks r (snd (lookup_host env n h r))"
  using lookup_host_result [of env n h r] by (auto simp: shrinks_revoke_ref)

lemma shrinks_consume: "shrinks r (snd (exchange_consume env n e cap r))"
  by (rule shrinks_same_exposures) (simp_all add: exchange_consume_frame)

lemma shrinks_install: "shrinks r (snd (exchange_install n e tok dg r))"
  by (rule shrinks_same_exposures) (simp_all add: exchange_install_frame)

lemma shrinks_check_session: "shrinks r (snd (check_session env n e tok r))"
  by (rule shrinks_same_exposures) (simp_all add: check_session_frame)

lemma shrinks_track_rejected: "track_connection n e c r = (Inl err, r') \<Longrightarrow> shrinks r r'"
  by (rule shrinks_same_exposures) (auto dest: track_connection_Inl)

text \<open>
  The promises: generations of live exposures are at most the counter; an exposure value
  read earlier equals the live one of the same reference; the active count of a live
  exposure is the number of its open slots; a tracked connection is closed, or belongs to a
  live exposure that will close it.
\<close>

definition gens_ok :: "registry \<Rightarrow> bool" where
  "gens_ok r \<longleftrightarrow> (\<forall>ref st. live r ref st \<longrightarrow> ref_generation ref \<le> next_gen r)"

fun pc_exposure :: "exchange_pc \<Rightarrow> exposure option" where
  "pc_exposure (Looked e _) = Some e"
| "pc_exposure (Consumed e _) = Some e"
| "pc_exposure Finished = None"

definition known :: "registry \<Rightarrow> exposure \<Rightarrow> bool" where
  "known r e \<longleftrightarrow> generation e \<le> next_gen r \<and> (\<forall>st. live r (ref_for e) st \<longrightarrow> es_exposure st = e)"

definition pend_ok :: "registry \<Rightarrow> exchange_pc list \<Rightarrow> bool" where
  "pend_ok r ps \<longleftrightarrow> (\<forall>pc \<in> set ps. \<forall>e. pc_exposure pc = Some e \<longrightarrow> known r e)"

definition open_slots :: "exposure_ref \<Rightarrow> slot list \<Rightarrow> nat" where
  "open_slots ref sls = length (filter (\<lambda>sl. slot_ref sl = ref \<and> \<not> slot_released sl) sls)"

definition slots_ok :: "registry \<Rightarrow> slot list \<Rightarrow> bool" where
  "slots_ok r sls \<longleftrightarrow> (\<forall>sl \<in> set sls. ref_generation (slot_ref sl) \<le> next_gen r)
     \<and> (\<forall>ref st. live r ref st \<longrightarrow> active st = open_slots ref sls)"

definition track_ok :: "registry \<Rightarrow> tracked \<Rightarrow> bool" where
  "track_ok r t \<longleftrightarrow> ref_generation (tr_ref t) \<le> next_gen r
     \<and> (tr_conn t \<in> closed_conns r \<or> (\<exists>st. live r (tr_ref t) st \<and> tr_conn t \<in> conns st))"

definition tracks_ok :: "registry \<Rightarrow> tracked list \<Rightarrow> bool" where
  "tracks_ok r ts \<longleftrightarrow> (\<forall>t \<in> set ts. track_ok r t)"

lemma gens_ok_shrinks: "gens_ok r \<Longrightarrow> shrinks r r' \<Longrightarrow> gens_ok r'"
  unfolding gens_ok_def shrinks_def by metis

lemma known_shrinks: "known r e \<Longrightarrow> shrinks r r' \<Longrightarrow> known r' e"
  unfolding known_def shrinks_def by metis

lemma pend_ok_shrinks: "pend_ok r ps \<Longrightarrow> shrinks r r' \<Longrightarrow> pend_ok r' ps"
  unfolding pend_ok_def by (blast intro: known_shrinks)

lemma slots_ok_shrinks: "slots_ok r sls \<Longrightarrow> shrinks r r' \<Longrightarrow> slots_ok r' sls"
  unfolding slots_ok_def shrinks_def by metis

lemma track_ok_shrinks: "track_ok r t \<Longrightarrow> shrinks r r' \<Longrightarrow> track_ok r' t"
  unfolding track_ok_def shrinks_def by (simp, blast)

lemma tracks_ok_shrinks: "tracks_ok r ts \<Longrightarrow> shrinks r r' \<Longrightarrow> tracks_ok r' ts"
  unfolding tracks_ok_def by (blast intro: track_ok_shrinks)

lemma pend_ok_simps [simp]:
  "pend_ok r []"
  "pend_ok r (ps @ qs) \<longleftrightarrow> pend_ok r ps \<and> pend_ok r qs"
  "pend_ok r (pc # ps) \<longleftrightarrow> (\<forall>e. pc_exposure pc = Some e \<longrightarrow> known r e) \<and> pend_ok r ps"
  by (auto simp: pend_ok_def)

lemma pend_ok_update:
  "pend_ok r ps \<Longrightarrow> \<forall>e. pc_exposure pc = Some e \<longrightarrow> known r e \<Longrightarrow> pend_ok r (ps[i := pc])"
  unfolding pend_ok_def by (metis in_set_conv_nth length_list_update nth_list_update_eq nth_list_update_neq)

lemma pend_ok_nth: "pend_ok r ps \<Longrightarrow> i < length ps \<Longrightarrow> pc_exposure (ps ! i) = Some e \<Longrightarrow> known r e"
  unfolding pend_ok_def by (metis nth_mem)

lemma tracks_ok_simps [simp]:
  "tracks_ok r []"
  "tracks_ok r (ts @ us) \<longleftrightarrow> tracks_ok r ts \<and> tracks_ok r us"
  "tracks_ok r (t # ts) \<longleftrightarrow> track_ok r t \<and> tracks_ok r ts"
  by (auto simp: tracks_ok_def)

section \<open>Preservation of the promises\<close>

text \<open>Registration: a generation above every earlier one, until the counter wraps.\<close>

lemma live_install:
  assumes "exposures r (rg_exposure_id reg) = None"
  shows "live (install_exposure reg h dg n r) ref st \<longleftrightarrow>
    live r ref st \<or> (ref = \<lparr>ref_id = rg_exposure_id reg, ref_generation = (next_gen r + 1) mod 2 ^ 64\<rparr>
      \<and> exposures (install_exposure reg h dg n r) (rg_exposure_id reg) = Some st)"
proof (cases "ref_id ref = rg_exposure_id reg")
  case True
  then show ?thesis using assms by (cases ref) (auto simp: live_def ref_for_def)
qed (auto simp: live_def)

lemma fresh_generation:
  assumes "next_gen r + 1 < 2 ^ 64" and "ref_generation ref \<le> next_gen r"
    and "exposures r (rg_exposure_id reg) = None"
  shows "live (install_exposure reg h dg n r) ref st \<longleftrightarrow> live r ref st"
  using assms by (auto simp: live_install)

text \<open>The assumptions of the lemmas on registration: no wrap of the counter, an absent identifier.\<close>

definition can_install :: "registry \<Rightarrow> registration \<Rightarrow> bool" where
  "can_install r reg \<longleftrightarrow> next_gen r + 1 < 2 ^ 64 \<and> exposures r (rg_exposure_id reg) = None"

lemma install_next_gen:
  "can_install r reg \<Longrightarrow> next_gen (install_exposure reg h dg n r) = next_gen r + 1"
  by (simp add: can_install_def install_next_gen_mod)

lemma live_install_below:
  "can_install r reg \<Longrightarrow> ref_generation ref \<le> next_gen r \<Longrightarrow>
   live (install_exposure reg h dg n r) ref st \<longleftrightarrow> live r ref st"
  unfolding can_install_def by (rule fresh_generation) simp_all

lemma live_install_cases:
  assumes "can_install r reg" and "live (install_exposure reg h dg n r) ref st"
  shows "live r ref st \<or> (ref_generation ref = next_gen r + 1 \<and> active st = 0)"
  using assms by (auto simp: can_install_def live_install)

lemma gens_ok_install: "can_install r reg \<Longrightarrow> gens_ok r \<Longrightarrow> gens_ok (install_exposure reg h dg n r)"
  unfolding gens_ok_def by (metis install_next_gen live_install_cases le_SucI Suc_eq_plus1 order_refl)

lemma known_install: "can_install r reg \<Longrightarrow> known r e \<Longrightarrow> known (install_exposure reg h dg n r) e"
  unfolding known_def by (auto simp: live_install_below install_next_gen)

lemma pend_ok_install:
  "can_install r reg \<Longrightarrow> pend_ok r ps \<Longrightarrow> pend_ok (install_exposure reg h dg n r) ps"
  unfolding pend_ok_def by (blast intro: known_install)

lemma open_slots_fresh:
  "\<forall>sl \<in> set sls. ref_generation (slot_ref sl) \<le> g \<Longrightarrow> g < ref_generation ref \<Longrightarrow>
   open_slots ref sls = 0"
  by (auto simp: open_slots_def filter_empty_conv)

lemma slots_ok_install:
  assumes c: "can_install r reg" and ok: "slots_ok r sls"
  shows "slots_ok (install_exposure reg h dg n r) sls"
proof -
  have "active st = open_slots ref sls" if "live (install_exposure reg h dg n r) ref st" for ref st
    using live_install_cases [OF c that] ok open_slots_fresh [of sls "next_gen r" ref]
    by (auto simp: slots_ok_def)
  with ok show ?thesis by (auto simp: slots_ok_def install_next_gen [OF c])
qed

lemma track_ok_install: "can_install r reg \<Longrightarrow> track_ok r t \<Longrightarrow> track_ok (install_exposure reg h dg n r) t"
  unfolding track_ok_def by (auto simp: live_install_below install_next_gen)

lemma tracks_ok_install:
  "can_install r reg \<Longrightarrow> tracks_ok r ts \<Longrightarrow> tracks_ok (install_exposure reg h dg n r) ts"
  unfolding tracks_ok_def by (blast intro: track_ok_install)

text \<open>Replacing the state of one exposure.\<close>

abbreviation (input) put :: "registry \<Rightarrow> string \<Rightarrow> exposure_state \<Rightarrow> registry" where
  "put r i st \<equiv> r\<lparr>exposures := (exposures r)(i \<mapsto> st)\<rparr>"

lemma live_put:
  "exposures r i = Some st \<Longrightarrow> es_exposure st' = es_exposure st \<Longrightarrow>
   live (put r i st') ref s \<longleftrightarrow> (if ref_id ref = i then s = st' \<and> live r ref st else live r ref s)"
  by (rule live_update) simp_all

lemma gens_ok_put:
  "exposures r i = Some st \<Longrightarrow> es_exposure st' = es_exposure st \<Longrightarrow> gens_ok r \<Longrightarrow> gens_ok (put r i st')"
  by (auto simp: gens_ok_def live_put split: if_splits)

lemma pend_ok_put:
  "exposures r i = Some st \<Longrightarrow> es_exposure st' = es_exposure st \<Longrightarrow> pend_ok r ps \<Longrightarrow> pend_ok (put r i st') ps"
  by (auto simp: pend_ok_def known_def live_put split: if_splits)

lemma slots_ok_put:
  assumes "exposures r i = Some st" "es_exposure st' = es_exposure st" "slots_ok r sls"
    and "\<forall>sl \<in> set sls'. ref_generation (slot_ref sl) \<le> next_gen r"
    and "\<And>ref. live r ref st \<Longrightarrow> ref_id ref = i \<Longrightarrow> active st' = open_slots ref sls'"
    and "\<And>ref. ref_id ref \<noteq> i \<Longrightarrow> open_slots ref sls' = open_slots ref sls"
  shows "slots_ok (put r i st') sls'"
  using assms(3-6) by (auto simp: slots_ok_def live_put [OF assms(1,2)] split: if_splits)

lemma tracks_ok_put:
  assumes "exposures r i = Some st" "es_exposure st' = es_exposure st" "tracks_ok r ts"
    and "conns st \<subseteq> conns st' \<union> closed_conns r"
  shows "tracks_ok (put r i st') ts"
proof -
  have "track_ok (put r i st') t" if t: "track_ok r t" for t
  proof (cases "tr_conn t \<in> closed_conns r")
    case False
    with t obtain s where s: "live r (tr_ref t) s" "tr_conn t \<in> conns s" by (auto simp: track_ok_def)
    have "\<exists>s'. live (put r i st') (tr_ref t) s' \<and> tr_conn t \<in> conns s'"
    proof (cases "ref_id (tr_ref t) = i")
      case True
      with s(1) assms(1) have "s = st" by (simp add: live_def)
      with True s assms(4) False show ?thesis by (auto simp: live_put [OF assms(1,2)])
    next
      case False
      with s show ?thesis by (auto simp: live_put [OF assms(1,2)])
    qed
    with t show ?thesis by (simp add: track_ok_def)
  qed (use t in \<open>simp add: track_ok_def\<close>)
  with assms(3) show ?thesis by (simp add: tracks_ok_def)
qed

section \<open>The system invariant\<close>

definition handles_ok :: "system \<Rightarrow> bool" where
  "handles_ok s \<longleftrightarrow> gens_ok (sreg s) \<and> pend_ok (sreg s) (pending s)
     \<and> slots_ok (sreg s) (slots s) \<and> tracks_ok (sreg s) (tracks s)"

lemma handles_ok_shrinks:
  "handles_ok s \<Longrightarrow> shrinks (sreg s) r' \<Longrightarrow> handles_ok (s\<lparr>sreg := r'\<rparr>)"
  by (auto simp: handles_ok_def
      intro: gens_ok_shrinks pend_ok_shrinks slots_ok_shrinks tracks_ok_shrinks)

lemma handles_ok_pending:
  "handles_ok s \<Longrightarrow> pend_ok (sreg s) ps \<Longrightarrow> handles_ok (s\<lparr>pending := ps\<rparr>)"
  by (simp add: handles_ok_def)

lemma handles_ok_ghost [simp]:
  "handles_ok (s\<lparr>issued := A\<rparr>) = handles_ok s" "handles_ok (s\<lparr>consumed := B\<rparr>) = handles_ok s"
  "handles_ok (s\<lparr>registered := k\<rparr>) = handles_ok s"
  by (simp_all add: handles_ok_def)

lemma handles_ok_register:
  assumes "handles_ok s" and "register env rnd n1 n2 reg (sreg s) = (Inr tok, r')"
    and "next_gen (sreg s) + 1 < 2 ^ 64"
  shows "handles_ok (s\<lparr>sreg := r'\<rparr>) \<and> next_gen r' = next_gen (sreg s) + 1"
proof -
  from assms(2) obtain h where ab: "exposures (sreg s) (rg_exposure_id reg) = None"
    and r': "r' = emit (mk_event (rg_exposure_id reg) ''register'' ''allowed'')
      (install_exposure reg h (sha256 env tok) n2 (sreg s))" by (rule register_Inr)
  let ?i = "install_exposure reg h (sha256 env tok) n2 (sreg s)"
  have c: "can_install (sreg s) reg" using ab assms(3) by (simp add: can_install_def)
  have "handles_ok (s\<lparr>sreg := ?i\<rparr>)"
    using assms(1) by (simp add: handles_ok_def gens_ok_install [OF c] pend_ok_install [OF c]
        slots_ok_install [OF c] tracks_ok_install [OF c])
  then have "handles_ok (s\<lparr>sreg := ?i, sreg := emit ev ?i\<rparr>)" for ev
    by (rule handles_ok_shrinks) (simp add: shrinks_same_exposures)
  then show ?thesis using install_next_gen [OF c] by (simp add: r')
qed

lemma handles_ok_acquire:
  assumes "handles_ok s" and "acquire n e (sreg s) = (Inr sl, r')"
  shows "handles_ok (s\<lparr>sreg := r', slots := slots s @ [sl]\<rparr>) \<and> next_gen r' = next_gen (sreg s)"
proof -
  from assms(2) obtain st where l: "live (sreg s) (ref_for e) st"
    and sl: "sl = \<lparr>slot_ref = ref_for e, slot_released = False\<rparr>"
    and r': "r' = put (sreg s) (exp_id e) (st\<lparr>active := active st + 1\<rparr>)" by (rule acquire_Inr)
  from l have st: "exposures (sreg s) (exp_id e) = Some st" by (simp add: live_def)
  from assms(1) l have g: "generation e \<le> next_gen (sreg s)"
    by (auto simp: handles_ok_def gens_ok_def dest!: spec [of _ "ref_for e"])
  have "slots_ok r' (slots s @ [sl])"
    unfolding r'
  proof (rule slots_ok_put [OF st])
    fix ref assume "live (sreg s) ref st" "ref_id ref = exp_id e"
    then have "ref = ref_for e" using l by (auto simp: live_def)
    then show "active (st\<lparr>active := active st + 1\<rparr>) = open_slots ref (slots s @ [sl])"
      using assms(1) l by (simp add: handles_ok_def slots_ok_def open_slots_def sl)
  qed (use assms(1) g in \<open>auto simp: handles_ok_def slots_ok_def open_slots_def sl\<close>)
  then show ?thesis
    using assms(1) by (simp add: handles_ok_def r' gens_ok_put [OF st] pend_ok_put [OF st] tracks_ok_put [OF st])
qed

lemma open_slots_release:
  assumes "i < length sls" and "\<not> slot_released (sls ! i)"
  shows "open_slots ref (sls[i := (sls ! i)\<lparr>slot_released := True\<rparr>])
    = open_slots ref sls - (if slot_ref (sls ! i) = ref then 1 else 0)"
proof (cases "slot_ref (sls ! i) = ref")
  case True
  have "Suc (open_slots ref (sls[i := (sls ! i)\<lparr>slot_released := True\<rparr>])) = open_slots ref sls"
    unfolding open_slots_def using assms True by (intro length_filter_update_less) simp_all
  with True show ?thesis by simp
next
  case False
  then show ?thesis
    using length_filter_update_same [OF assms(1), of "\<lambda>sl. slot_ref sl = ref \<and> \<not> slot_released sl"]
    by (simp add: open_slots_def)
qed

lemma open_slots_pos:
  "i < length sls \<Longrightarrow> \<not> slot_released (sls ! i) \<Longrightarrow> 0 < open_slots (slot_ref (sls ! i)) sls"
  by (auto simp: open_slots_def filter_empty_conv)

lemma slots_gen_update:
  assumes "\<forall>sl \<in> set sls. ref_generation (slot_ref sl) \<le> g" and "i < length sls"
    and "slot_ref sl' = slot_ref (sls ! i)"
  shows "\<forall>sl \<in> set (sls[i := sl']). ref_generation (slot_ref sl) \<le> g"
  using assms set_update_subset_insert [of sls i sl'] by (auto dest: nth_mem)

lemma handles_ok_release:
  assumes ok: "handles_ok s" and i: "i < length (slots s)"
    and r: "release_slot (slots s ! i) (sreg s) = (sl, r')"
  shows "handles_ok (s\<lparr>sreg := r', slots := (slots s)[i := sl]\<rparr>) \<and> next_gen r' = next_gen (sreg s)"
proof (cases "slot_released (slots s ! i)")
  case True
  then have "sl = slots s ! i" "r' = sreg s" using r by (simp_all add: release_slot_def)
  with ok show ?thesis by simp
next
  case False
  let ?ref = "slot_ref (slots s ! i)" and ?sl = "(slots s ! i)\<lparr>slot_released := True\<rparr>"
  have sl: "sl = ?sl" using r False by (simp add: release_slot_def)
  have gen: "\<forall>x \<in> set ((slots s)[i := ?sl]). ref_generation (slot_ref x) \<le> next_gen (sreg s)"
    by (rule slots_gen_update [OF _ i]) (use ok in \<open>simp_all add: handles_ok_def slots_ok_def\<close>)
  note rel = open_slots_release [OF i False]
  show ?thesis
  proof (cases "\<exists>st. live (sreg s) ?ref st")
    case True
    then obtain st where l: "live (sreg s) ?ref st" ..
    then have st: "exposures (sreg s) (ref_id ?ref) = Some st" and m: "ref_for (es_exposure st) = ?ref"
      by (simp_all add: live_def)
    have act: "active st = open_slots ?ref (slots s)" using ok l by (simp add: handles_ok_def slots_ok_def)
    then have pos: "0 < active st" using open_slots_pos [OF i False] by simp
    have r': "r' = put (sreg s) (ref_id ?ref) (st\<lparr>active := active st - 1\<rparr>)"
      using r False st m pos by (simp add: release_slot_def)
    have "slots_ok r' ((slots s)[i := ?sl])"
      unfolding r'
    proof (rule slots_ok_put [OF st])
      fix ref assume "live (sreg s) ref st" "ref_id ref = ref_id ?ref"
      then have "ref = ?ref" using l by (auto simp: live_def)
      then show "active (st\<lparr>active := active st - 1\<rparr>) = open_slots ref ((slots s)[i := ?sl])"
        using act by (simp add: rel)
    qed (use ok gen in \<open>auto simp: handles_ok_def rel\<close>)
    then show ?thesis
      using ok by (simp add: handles_ok_def sl r' gens_ok_put [OF st] pend_ok_put [OF st] tracks_ok_put [OF st])
  next
    case dead: False
    then have "r' = sreg s"
      using r False by (cases "exposures (sreg s) (ref_id ?ref)") (simp_all add: release_slot_def live_def)
    moreover have "slots_ok (sreg s) ((slots s)[i := ?sl])"
      unfolding slots_ok_def
    proof (intro conjI gen allI impI)
      fix ref st assume "live (sreg s) ref st"
      moreover from this dead have "?ref \<noteq> ref" by blast
      ultimately show "active st = open_slots ref ((slots s)[i := ?sl])"
        using ok by (simp add: rel handles_ok_def slots_ok_def)
    qed
    ultimately show ?thesis using ok by (simp add: handles_ok_def sl)
  qed
qed

lemma slots_ok_conns:
  assumes "exposures r i = Some st" "slots_ok r sls"
  shows "slots_ok (put r i (st\<lparr>conns := C\<rparr>)) sls"
  by (rule slots_ok_put [OF assms(1) _ assms(2)]) (use assms(2) in \<open>auto simp: slots_ok_def\<close>)

lemma handles_ok_track:
  assumes "handles_ok s" and "track_connection n e c (sreg s) = (Inr t, r')"
  shows "handles_ok (s\<lparr>sreg := r', tracks := tracks s @ [t]\<rparr>) \<and> next_gen r' = next_gen (sreg s)"
proof -
  from assms(2) obtain st where l: "live (sreg s) (ref_for e) st"
    and t: "t = \<lparr>tr_ref = ref_for e, tr_conn = c, tr_done = False\<rparr>"
    and r': "r' = put (sreg s) (exp_id e) (st\<lparr>conns := insert c (conns st)\<rparr>)" by (rule track_connection_Inr)
  from l have st: "exposures (sreg s) (exp_id e) = Some st" by (simp add: live_def)
  from assms(1) l have g: "generation e \<le> next_gen (sreg s)"
    by (auto simp: handles_ok_def gens_ok_def dest!: spec [of _ "ref_for e"])
  have "track_ok r' t" using l g by (auto simp: track_ok_def t r' live_put [OF st])
  moreover have "tracks_ok r' (tracks s)"
    unfolding r' by (rule tracks_ok_put [OF st]) (use assms(1) in \<open>auto simp: handles_ok_def\<close>)
  ultimately show ?thesis
    using assms(1) by (simp add: handles_ok_def r' gens_ok_put [OF st] pend_ok_put [OF st] slots_ok_conns [OF st])
qed

text \<open>Closing a tracked connection.\<close>

lemma handles_ok_tracked_close:
  assumes ok: "handles_ok s" and i: "i < length (tracks s)"
    and c: "tracked_close (tracks s ! i) (sreg s) = (t, r')"
  shows "handles_ok (s\<lparr>sreg := r', tracks := (tracks s)[i := t]\<rparr>) \<and> next_gen r' = next_gen (sreg s)"
proof -
  let ?t = "tracks s ! i"
  define r1 where "r1 = (sreg s)\<lparr>closed_conns := insert (tr_conn ?t) (closed_conns (sreg s))\<rparr>"
  have sh: "shrinks (sreg s) r1" unfolding r1_def by (rule shrinks_same_exposures) auto
  then have ok1: "handles_ok (s\<lparr>sreg := r1\<rparr>)" by (rule handles_ok_shrinks [OF ok])
  have gen1: "next_gen r1 = next_gen (sreg s)" by (simp add: r1_def)
  have t: "tr_ref t = tr_ref ?t" "tr_conn t = tr_conn ?t"
    using c by (auto simp: tracked_close_def Let_def split: if_splits)
  have tok: "tracks_ok r ((tracks s)[i := t])" if "tracks_ok r (tracks s)" for r
  proof -
    have "track_ok r t" using that i by (auto simp: tracks_ok_def track_ok_def t dest!: nth_mem)
    with that set_update_subset_insert [of "tracks s" i t] show ?thesis by (auto simp: tracks_ok_def)
  qed
  have "r' = r1 \<or> (\<exists>st. exposures r1 (ref_id (tr_ref ?t)) = Some st
      \<and> r' = put r1 (ref_id (tr_ref ?t)) (st\<lparr>conns := conns st - {tr_conn ?t}\<rparr>))"
    using c by (cases "tr_done ?t"; cases "exposures r1 (ref_id (tr_ref ?t))")
      (auto simp: tracked_close_def Let_def r1_def split: if_splits)
  then show ?thesis
  proof (elim disjE exE conjE)
    assume "r' = r1"
    then show ?thesis using ok1 tok gen1 by (simp add: handles_ok_def)
  next
    fix st assume st: "exposures r1 (ref_id (tr_ref ?t)) = Some st"
      and r': "r' = put r1 (ref_id (tr_ref ?t)) (st\<lparr>conns := conns st - {tr_conn ?t}\<rparr>)"
    have "tracks_ok r' (tracks s)"
      unfolding r' by (rule tracks_ok_put [OF st]) (use ok1 in \<open>auto simp: handles_ok_def r1_def\<close>)
    then show ?thesis
      using ok1 tok gen1
      by (simp add: handles_ok_def r' gens_ok_put [OF st] pend_ok_put [OF st] slots_ok_conns [OF st])
  qed
qed

end
