(* ===== verification/Registry_Safety.thy ===== *)
theory Registry_Safety
  imports Router_System
begin

text \<open>
  The invariants of the registry with its concurrent callers, for every interleaving of
  their critical sections, and the properties the workload router rests on: a bootstrap
  capability is exchanged at most once, a session authenticates one host, revocation,
  expiry and shutdown deny all later access.
\<close>

section \<open>The invariant of reachable states\<close>

text \<open>
  The generation counter is a 64-bit integer. Everything that depends on generations being
  fresh is stated for fewer than \<open>2 ^ 64\<close> registrations.
\<close>

definition core :: "system \<Rightarrow> bool" where
  "core s \<longleftrightarrow> reg_inv (sreg s) \<and> next_gen (sreg s) = registered s \<and> handles_ok s"

definition system_inv :: "system \<Rightarrow> bool" where
  "system_inv s \<longleftrightarrow> (registered s < 2 ^ 64 \<longrightarrow> core s)"

lemma new_registry_empty [simp]:
  "next_gen (new_registry ttl opts) = 0" "exposures (new_registry ttl opts) = Map.empty"
  "capabilities (new_registry ttl opts) = Map.empty" "sessions (new_registry ttl opts) = Map.empty"
  "hosts (new_registry ttl opts) = Map.empty" "closed_conns (new_registry ttl opts) = {}"
  by (simp_all add: new_registry_def)

lemma core_initial: "core (initial_system (new_registry ttl opts))"
  by (simp add: core_def initial_system_def reg_inv_new handles_ok_def gens_ok_def slots_ok_def live_def)

lemma core_shrinks:
  "core s \<Longrightarrow> reg_inv r' \<Longrightarrow> shrinks (sreg s) r' \<Longrightarrow> core (s\<lparr>sreg := r'\<rparr>)"
  by (simp add: core_def handles_ok_shrinks shrinks_def)

lemma core_ghost [simp]:
  "core (s\<lparr>issued := A\<rparr>) = core s" "core (s\<lparr>consumed := B\<rparr>) = core s"
  by (simp_all add: core_def)

lemma core_pending: "core s \<Longrightarrow> pend_ok (sreg s) ps \<Longrightarrow> core (s\<lparr>pending := ps\<rparr>)"
  by (simp add: core_def handles_ok_pending)

lemma core_pend_ok: "core s \<Longrightarrow> pend_ok (sreg s) (pending s)"
  by (simp add: core_def handles_ok_def)

lemma core_pending_update:
  "core s \<Longrightarrow> \<forall>e. pc_exposure pc = Some e \<longrightarrow> known (sreg s) e \<Longrightarrow> core (s\<lparr>pending := (pending s)[i := pc]\<rparr>)"
  by (intro core_pending pend_ok_update core_pend_ok)

text \<open>A step that replaces the registry by one that shrinks it, then updates the pending exchange.\<close>

lemma core_step_pending:
  assumes "core s" "reg_inv r'" "shrinks (sreg s) r'" "\<forall>e. pc_exposure pc = Some e \<longrightarrow> known r' e"
  shows "core (s\<lparr>sreg := r', pending := (pending s)[i := pc]\<rparr>)"
  using core_pending_update [OF core_shrinks [OF assms(1-3)], of pc i] assms(4) by simp

lemma known_lookup:
  assumes "core s" and "lookup_host env n h (sreg s) = (Inr e, r')"
  shows "r' = sreg s \<and> known (sreg s) e"
proof -
  from assms(2) obtain st where l: "live (sreg s) (ref_for e) st" and e: "e = es_exposure st" and r: "r' = sreg s"
    by (rule lookup_host_Inr)
  from l assms(1) have "generation e \<le> next_gen (sreg s)"
    by (auto simp: core_def handles_ok_def gens_ok_def dest!: spec [of _ "ref_for e"])
  moreover have "st' = st" if "live (sreg s) (ref_for e) st'" for st' using live_unique [OF l that] .
  ultimately show ?thesis using r e unfolding known_def by blast
qed

lemma reg_inv_install_session:
  assumes inv: "reg_inv r" and k: "known r e"
  shows "reg_inv (snd (exchange_install n e tok dg r))"
proof (cases "exchange_install n e tok dg r")
  case (Pair res r')
  show ?thesis
  proof (cases res)
    case (Inl err)
    then show ?thesis using Pair exchange_install_Inl [of n e tok dg r err r'] inv by simp
  next
    case (Inr v)
    obtain s' ex where v: "v = (s', ex)" by force
    from Pair Inr v have "exchange_install n e tok dg r = (Inr (s', ex), r')" by simp
    then obtain st where l: "live r (ref_for e) st" and ex: "ex = min (exp_expires_at e) (n + session_ttl r)"
      and r': "r' = emit (mk_event (exp_id e) ''exchange'' ''allowed'')
       (r\<lparr>sessions := (sessions r)(dg \<mapsto> \<lparr>cred_exposure = ref_for e, cred_expires_at = ex\<rparr>)\<rparr>)"
      by (rule exchange_install_Inr)
    have "es_exposure st = e" using k l by (auto simp: known_def)
    then have "reg_inv (r\<lparr>sessions := (sessions r)(dg \<mapsto> \<lparr>cred_exposure = ref_for e, cred_expires_at = ex\<rparr>)\<rparr>)"
      using reg_inv_session_add [OF inv, of "\<lparr>cred_exposure = ref_for e, cred_expires_at = ex\<rparr>" st dg] l ex by simp
    then show ?thesis by (simp add: Pair r')
  qed
qed

lemma core_register:
  assumes c: "core s" and reg: "register env rnd n1 n2 reg (sreg s) = (Inr tok, r')"
    and n: "Suc (registered s) < 2 ^ 64"
  shows "core (s\<lparr>sreg := r', issued := A, registered := Suc (registered s)\<rparr>)"
proof -
  have "handles_ok (s\<lparr>sreg := r'\<rparr>) \<and> next_gen r' = next_gen (sreg s) + 1"
    by (rule handles_ok_register [OF _ reg]) (use c n in \<open>simp_all add: core_def\<close>)
  moreover have "reg_inv r'"
    using reg_inv_register [of "sreg s" env rnd n1 n2 reg] c reg by (simp add: core_def)
  ultimately show ?thesis using c by (simp add: core_def handles_ok_def)
qed

lemma core_step_install:
  assumes c: "core s" and i: "i < length (pending s)" "pending s ! i = Consumed e cap"
    and r: "exchange_install n e tok dg (sreg s) = (res, r')"
  shows "core (s\<lparr>sreg := r', pending := (pending s)[i := Finished], issued := A\<rparr>)"
proof -
  have k: "known (sreg s) e" using pend_ok_nth [OF core_pend_ok [OF c] i(1)] i(2) by simp
  have "core (s\<lparr>sreg := r', pending := (pending s)[i := Finished]\<rparr>)"
    using reg_inv_install_session [OF _ k, of n tok dg] shrinks_install [of "sreg s" n e tok dg] c r
    by (intro core_step_pending) (simp_all add: core_def)
  then have "core (s\<lparr>sreg := r', pending := (pending s)[i := Finished]\<rparr>\<lparr>issued := A\<rparr>)"
    by (simp only: core_ghost)
  then show ?thesis by simp
qed

lemma core_step:
  assumes "router_step env s t" and c: "core s" and n: "registered t < 2 ^ 64"
  shows "core t"
  using assms(1)
proof cases
  case (st_register rnd n1 n2 reg tok r')
  have "Suc (registered s) < 2 ^ 64" using n st_register(1) by simp
  from core_register [OF c st_register(2) this] st_register(1) show ?thesis by simp
next
  case (st_lookup n h res r')
  then show ?thesis
    using core_shrinks [OF c _ shrinks_lookup, of env n h] reg_inv_lookup [of "sreg s" env n h] c
    by (simp add: core_def)
next
  case (st_exchange_begin n h e r' cap)
  then show ?thesis
    using known_lookup [OF c st_exchange_begin(2)] core_pend_ok [OF c] core_pending [OF c, of "pending s @ [Looked e cap]"]
    by simp
next
  case (st_exchange_consume i e cap n u r')
  have k: "known (sreg s) e" using pend_ok_nth [OF core_pend_ok [OF c] st_exchange_consume(2)] st_exchange_consume(3) by simp
  have sh: "shrinks (sreg s) r'" using shrinks_consume [of "sreg s" env n e cap] st_exchange_consume(4) by simp
  have "core (s\<lparr>sreg := r', pending := (pending s)[i := Consumed e cap]\<rparr>)"
    using reg_inv_consume [of "sreg s" env n e cap] st_exchange_consume(4) c known_shrinks [OF k sh] sh
    by (intro core_step_pending) (simp_all add: core_def)
  then have "core (s\<lparr>sreg := r', pending := (pending s)[i := Consumed e cap]\<rparr>\<lparr>consumed := sha256 env cap # consumed s\<rparr>)"
    by (simp only: core_ghost)
  then show ?thesis using st_exchange_consume(1) by simp
next
  case (st_exchange_denied i e cap n err r')
  have "core (s\<lparr>sreg := r', pending := (pending s)[i := Finished]\<rparr>)"
    using reg_inv_consume [of "sreg s" env n e cap] st_exchange_denied(4) c shrinks_consume [of "sreg s" env n e cap]
    by (intro core_step_pending) (simp_all add: core_def)
  then show ?thesis using st_exchange_denied(1) by simp
next
  case (st_exchange_install i e cap rnd tok dg n res r')
  then show ?thesis using core_step_install [OF c, of i e cap n tok dg res r'] by simp
next
  case (st_exchange_no_random i e cap)
  then show ?thesis using core_pending_update [OF c, of Finished i] by simp
next
  case (st_check_session n e tok res r')
  then show ?thesis
    using core_shrinks [OF c _ shrinks_check_session, of env n e tok] reg_inv_check_session [of "sreg s" env n e tok] c
    by (simp add: core_def)
next
  case (st_acquire n e sl r')
  then show ?thesis
    using handles_ok_acquire [of s n e sl r'] reg_inv_acquire [of "sreg s" n e] c by (simp add: core_def)
next
  case (st_release i sl r')
  then show ?thesis
    using handles_ok_release [of s i sl r'] reg_inv_release [of "sreg s" "slots s ! i"] c by (simp add: core_def)
next
  case (st_track n e cn t r')
  then show ?thesis
    using handles_ok_track [of s n e cn t r'] reg_inv_track [of "sreg s" n e cn] c by (simp add: core_def)
next
  case (st_track_rejected n e cn err r')
  then show ?thesis
    using core_shrinks [OF c _ shrinks_track_rejected] reg_inv_track [of "sreg s" n e cn] c by (simp add: core_def)
next
  case (st_tracked_close i t r')
  then show ?thesis
    using handles_ok_tracked_close [of s i t r'] reg_inv_tracked_close [of "sreg s" "tracks s ! i"] c
    by (simp add: core_def)
next
  case (st_revoke i)
  then show ?thesis using core_shrinks [OF c _ shrinks_revoke] c by (simp add: core_def reg_inv_revoke)
next
  case (st_timer ref)
  then show ?thesis using core_shrinks [OF c _ shrinks_revoke_ref] c by (simp add: core_def reg_inv_revoke_ref)
next
  case (st_close order)
  then show ?thesis using core_shrinks [OF c _ shrinks_close] c by (simp add: core_def reg_inv_close)
qed

lemma registered_mono: "router_step env s t \<Longrightarrow> registered s \<le> registered t"
  by (induction rule: router_step.induct) simp_all

interpretation rs: transition_system system_init "router_step env" system_inv for env
proof
  show "system_init s \<Longrightarrow> system_inv s" for s
    by (auto simp: system_init_def system_inv_def core_initial)
  show "system_inv s \<Longrightarrow> router_step env s t \<Longrightarrow> system_inv t" for s t
    using core_step [of env s t] registered_mono [of env s t] by (auto simp: system_inv_def)
qed


section \<open>Credentials in reachable states\<close>

text \<open>
  The digests in the capability table were issued and are not among the consumed ones; no
  digest is consumed twice. This needs no bound on the number of registrations.
\<close>

definition cred_inv :: "system \<Rightarrow> bool" where
  "cred_inv s \<longleftrightarrow> dom (capabilities (sreg s)) \<subseteq> issued s \<and> set (consumed s) \<subseteq> issued s
     \<and> dom (capabilities (sreg s)) \<inter> set (consumed s) = {} \<and> distinct (consumed s)"

lemma cred_inv_mono:
  assumes "cred_inv s" and "capabilities (sreg t) \<subseteq>\<^sub>m capabilities (sreg s)"
    and "issued s \<subseteq> issued t" and "consumed t = consumed s"
  shows "cred_inv t"
proof -
  have "dom (capabilities (sreg t)) \<subseteq> dom (capabilities (sreg s))"
    by (rule map_le_implies_dom_le [OF assms(2)])
  with assms(1,3) show ?thesis unfolding cred_inv_def assms(4) by blast
qed

lemma capabilities_release [simp]: "capabilities (snd (release_slot sl r)) = capabilities r"
  by (simp add: release_slot_def split: option.splits)

lemma capabilities_tracked_close [simp]: "capabilities (snd (tracked_close tr r)) = capabilities r"
  by (simp add: tracked_close_def Let_def split: option.splits)

lemma capabilities_acquire [simp]: "capabilities (snd (acquire n e r)) = capabilities r"
  by (simp add: acquire_def Let_def split: option.splits)

lemma capabilities_track [simp]: "capabilities (snd (track_connection n e c r)) = capabilities r"
  by (simp add: track_connection_def Let_def split: option.splits)

lemma capabilities_fold_revoke: "capabilities (foldl (\<lambda>r ref. revoke_ref ref out r) r refs) \<subseteq>\<^sub>m capabilities r"
  by (induction refs arbitrary: r) (auto intro: map_le_trans revoke_ref_frame(4))

lemma capabilities_close: "capabilities (close_registry order r) \<subseteq>\<^sub>m capabilities r"
  unfolding close_registry_def Let_def
  by (rule map_le_trans [OF capabilities_fold_revoke]) simp

lemma capabilities_revoke: "capabilities (revoke i r) \<subseteq>\<^sub>m capabilities r"
  by (simp add: revoke_def revoke_ref_frame split: option.splits)

lemmas capabilities_step = capabilities_close capabilities_revoke revoke_ref_frame(4)
  lookup_host_frame(2) check_session_frame(3) exchange_install_frame(3)
  capabilities_acquire capabilities_track capabilities_release capabilities_tracked_close

lemma cred_inv_register:
  assumes c: "cred_inv s" and r: "register env rnd n1 n2 reg (sreg s) = (Inr tok, r')"
    and f: "sha256 env tok \<notin> issued s"
  shows "cred_inv (s\<lparr>sreg := r', issued := insert (sha256 env tok) (issued s), registered := k\<rparr>)"
proof -
  from r obtain h where "r' = emit (mk_event (rg_exposure_id reg) ''register'' ''allowed'')
            (install_exposure reg h (sha256 env tok) n2 (sreg s))" by (rule register_Inr)
  then show ?thesis using c f by (auto simp: cred_inv_def)
qed

lemma cred_inv_consume:
  assumes c: "cred_inv s" and r: "exchange_consume env n e cap (sreg s) = (Inr u, r')"
  shows "cred_inv (s\<lparr>sreg := r', pending := ps, consumed := sha256 env cap # consumed s\<rparr>)"
proof -
  from r obtain rec where "capabilities (sreg s) (sha256 env cap) = Some rec"
    and "r' = (sreg s)\<lparr>capabilities := (capabilities (sreg s))(sha256 env cap := None)\<rparr>"
    by (rule exchange_consume_Inr)
  then show ?thesis using c by (auto simp: cred_inv_def)
qed

lemma snd_eqD: "f = (a, b) \<Longrightarrow> b = snd f"
  by simp

lemma cred_inv_step:
  assumes "router_step env s t" and c: "cred_inv s"
  shows "cred_inv t"
  using assms(1)
proof cases
  case (st_register rnd n1 n2 reg tok r')
  then show ?thesis using cred_inv_register [OF c] by simp
next
  case (st_exchange_consume i e cap n u r')
  then show ?thesis using cred_inv_consume [OF c] by simp
next
  case (st_exchange_denied i e cap n err r')
  then have "r' = snd (exchange_consume env n e cap (sreg s))" by simp
  then show ?thesis using st_exchange_denied(1)
    by (intro cred_inv_mono [OF c]) (auto simp: exchange_consume_frame(6))
qed (rule cred_inv_mono [OF c]; auto dest!: snd_eqD simp: capabilities_step)+

interpretation cs: transition_system system_init "router_step env" cred_inv for env
proof
  show "system_init s \<Longrightarrow> cred_inv s" for s
    by (auto simp: system_init_def cred_inv_def initial_system_def)
qed (rule cred_inv_step)

end
