(* ===== verification/Registry_Sample.thy ===== *)
theory Registry_Sample
  imports Registry_Safety
begin

text \<open>
  A concrete run of the registry: one exposure is registered, its capability exchanged for a
  session, a slot acquired, a connection tracked, the exposure revoked. The theorems about
  the registry are applied to this run.
\<close>

definition sample_env :: router_env where
  "sample_env = \<lparr>sha256 = rev, dns1123_subdomain = (\<lambda>h. h \<in> {''app.example'', ''other.example''})\<rparr>"

definition sample_registration :: registration where
  "sample_registration = \<lparr>rg_exposure_id = ''exp'', rg_host = ''App.Example'', rg_expires_at = 100 * second,
     rg_allow_websocket = True, rg_max_connections = 2\<rparr>"

definition sample_exposure :: exposure where
  "sample_exposure = \<lparr>exp_id = ''exp'', exp_host = ''app.example'', exp_expires_at = 100 * second,
     allow_websocket = True, max_connections = 2, generation = 1\<rparr>"

definition sample_random :: "char \<Rightarrow> bytes" where "sample_random c = replicate 32 c"

definition sample_cap :: string where
  "sample_cap = b64_encode raw_url_encoding (sample_random CHR ''a'')"

definition sample_session :: string where
  "sample_session = b64_encode raw_url_encoding (sample_random CHR ''b'')"

definition sample_state :: "nat \<Rightarrow> conn set \<Rightarrow> exposure_state" where
  "sample_state n C = \<lparr>es_exposure = sample_exposure, active = n, timer = Some (100 * second), conns = C\<rparr>"

definition sample_ref :: exposure_ref where
  "sample_ref = \<lparr>ref_id = ''exp'', ref_generation = 1\<rparr>"

definition sample_registered :: registry where
  "sample_registered = \<lparr>session_ttl = 900 * second, bootstrap_ttl = 60 * second, reg_closed = False, next_gen = 1,
     exposures = [''exp'' \<mapsto> sample_state 0 {}], hosts = [''app.example'' \<mapsto> sample_ref],
     capabilities = [rev sample_cap \<mapsto> \<lparr>cred_exposure = sample_ref, cred_expires_at = 60 * second\<rparr>],
     sessions = Map.empty, emitted = [mk_event ''exp'' ''register'' ''allowed''], closed_conns = {}\<rparr>"

lemma sample_host [simp]: "canonical_host sample_env ''App.Example'' = Inr ''app.example''"
  "canonical_host sample_env ''app.example'' = Inr ''app.example''"
  "canonical_host sample_env ''other.example'' = Inr ''other.example''"
  by code_simp+

lemma sample_sha [simp]: "sha256 sample_env = rev"
  by (simp add: sample_env_def)

lemma sample_shapes [simp]: "valid_credential_shape sample_cap" "valid_credential_shape sample_session"
  by code_simp+

lemma sample_credentials [simp]:
  "new_credential sample_env (sample_random CHR ''a'') = Some (sample_cap, rev sample_cap)"
  "new_credential sample_env (sample_random CHR ''b'') = Some (sample_session, rev sample_session)"
  by (simp_all add: new_credential_def sample_cap_def sample_session_def sample_random_def Let_def)

lemma sample_distinct [simp]: "sample_session \<noteq> sample_cap" "rev sample_session \<noteq> rev sample_cap"
  by code_simp+

lemma sample_register:
  "register sample_env (sample_random CHR ''a'') 0 0 sample_registration (new_registry 0 [])
   = (Inr sample_cap, sample_registered)"
  by (simp add: register_def sample_registration_def new_registry_def install_exposure_def sample_registered_def
      sample_state_def sample_exposure_def sample_ref_def emit_def mk_event_def Let_def)

lemma sample_ref_for [simp]: "ref_for sample_exposure = sample_ref"
  by (simp add: ref_for_def sample_exposure_def sample_ref_def)

lemma sample_ref_sel [simp]: "ref_id sample_ref = ''exp''" "ref_generation sample_ref = 1"
  by (simp_all add: sample_ref_def)

lemma sample_exposure_sel [simp]: "exp_id sample_exposure = ''exp''" "exp_host sample_exposure = ''app.example''"
  "exp_expires_at sample_exposure = 100 * second" "max_connections sample_exposure = 2"
  "generation sample_exposure = 1"
  by (simp_all add: sample_exposure_def)

lemma sample_state_sel [simp]: "es_exposure (sample_state n C) = sample_exposure" "active (sample_state n C) = n"
  "conns (sample_state n C) = C"
  by (simp_all add: sample_state_def)

lemma sample_lookup:
  "exposures r = [''exp'' \<mapsto> sample_state n C] \<Longrightarrow> hosts r = [''app.example'' \<mapsto> sample_ref] \<Longrightarrow>
   lookup_host sample_env second ''app.example'' r = (Inr sample_exposure, r)"
  by (simp add: lookup_host_def Let_def)

definition sample_s1 :: system where
  "sample_s1 = (initial_system (new_registry 0 []))
     \<lparr>sreg := sample_registered, issued := {rev sample_cap}, registered := 1\<rparr>"

definition sample_s2 :: system where
  "sample_s2 = sample_s1\<lparr>pending := [Looked sample_exposure sample_cap]\<rparr>"

definition sample_s3 :: system where
  "sample_s3 = sample_s1\<lparr>sreg := sample_registered\<lparr>capabilities := Map.empty\<rparr>,
     pending := [Consumed sample_exposure sample_cap], consumed := [rev sample_cap]\<rparr>"

definition sample_s4 :: system where
  "sample_s4 = sample_s1\<lparr>sreg := emit (mk_event ''exp'' ''exchange'' ''allowed'')
       (sample_registered\<lparr>capabilities := Map.empty,
         sessions := [rev sample_session \<mapsto> \<lparr>cred_exposure = sample_ref, cred_expires_at = 100 * second\<rparr>]\<rparr>),
     pending := [Finished], consumed := [rev sample_cap], issued := {rev sample_session, rev sample_cap}\<rparr>"

definition sample_s5 :: system where
  "sample_s5 = sample_s4\<lparr>sreg := (sreg sample_s4)\<lparr>exposures := [''exp'' \<mapsto> sample_state 1 {}]\<rparr>,
     slots := [\<lparr>slot_ref = sample_ref, slot_released = False\<rparr>]\<rparr>"

definition sample_s6 :: system where
  "sample_s6 = sample_s5\<lparr>sreg := (sreg sample_s4)\<lparr>exposures := [''exp'' \<mapsto> sample_state 1 {7}]\<rparr>,
     tracks := [\<lparr>tr_ref = sample_ref, tr_conn = 7, tr_done = False\<rparr>]\<rparr>"

definition sample_s7 :: system where
  "sample_s7 = sample_s6\<lparr>sreg := revoke ''exp'' (sreg sample_s6)\<rparr>"

lemma sample_init: "system_init (initial_system (new_registry 0 []))"
  by (auto simp: system_init_def)

lemma sample_step1: "router_step sample_env (initial_system (new_registry 0 [])) sample_s1"
  using st_register [of sample_env "sample_random CHR ''a''" 0 0 sample_registration
      "initial_system (new_registry 0 [])" sample_cap sample_registered] sample_register
  by (simp add: sample_s1_def initial_system_def)

lemmas sample_systems = sample_s1_def sample_s2_def sample_s3_def sample_s4_def sample_s5_def sample_s6_def
  sample_registered_def initial_system_def

lemma sample_step2: "router_step sample_env sample_s1 sample_s2"
  using st_exchange_begin [OF sample_lookup, of sample_s1 0 "{}" sample_cap]
  by (simp add: sample_systems)

lemma sample_step3: "router_step sample_env sample_s2 sample_s3"
  using st_exchange_consume [of 0 sample_s2 sample_exposure sample_cap sample_env second "()"
      "sample_registered\<lparr>capabilities := Map.empty\<rparr>"]
  by (simp add: sample_systems exchange_consume_def Let_def)

lemma sample_step4: "router_step sample_env sample_s3 sample_s4"
  using st_exchange_install [of 0 sample_s3 sample_exposure sample_cap sample_env "sample_random CHR ''b''"
      sample_session "rev sample_session" second "Inr (sample_session, 100 * second)" "sreg sample_s4"]
  by (simp add: sample_systems exchange_install_def Let_def)

lemma sample_step5: "router_step sample_env sample_s4 sample_s5"
  using st_acquire [of second sample_exposure sample_s4 "\<lparr>slot_ref = sample_ref, slot_released = False\<rparr>"
      "sreg sample_s5" sample_env]
  by (simp add: sample_systems acquire_def Let_def emit_def sample_state_def)

lemma sample_step6: "router_step sample_env sample_s5 sample_s6"
  using st_track [of second sample_exposure 7 sample_s5 "\<lparr>tr_ref = sample_ref, tr_conn = 7, tr_done = False\<rparr>"
      "sreg sample_s6" sample_env]
  by (simp add: sample_systems track_connection_def Let_def emit_def sample_state_def)

lemma sample_step7: "router_step sample_env sample_s6 sample_s7"
  unfolding sample_s7_def by (rule st_revoke)

lemma sample_run: "(router_step sample_env)\<^sup>*\<^sup>* (initial_system (new_registry 0 [])) sample_s6"
  using sample_step1 sample_step2 sample_step3 sample_step4 sample_step5 sample_step6
  by (meson rtranclp.rtrancl_refl rtranclp.rtrancl_into_rtrancl)

lemma sample_s6_sel [simp]:
  "registered sample_s6 = 1" "consumed sample_s6 = [rev sample_cap]"
  "exposures (sreg sample_s6) = [''exp'' \<mapsto> sample_state 1 {7}]"
  "hosts (sreg sample_s6) = [''app.example'' \<mapsto> sample_ref]"
  "sessions (sreg sample_s6) = [rev sample_session \<mapsto> \<lparr>cred_exposure = sample_ref, cred_expires_at = 100 * second\<rparr>]"
  "slots sample_s6 = [\<lparr>slot_ref = sample_ref, slot_released = False\<rparr>]"
  "tracks sample_s6 = [\<lparr>tr_ref = sample_ref, tr_conn = 7, tr_done = False\<rparr>]"
  "closed_conns (sreg sample_s6) = {}"
  by (simp_all add: sample_systems)

end
