(* ===== verification/Registry_Props.thy ===== *)
theory Registry_Props
  imports Registry_Sample
begin

text \<open>
  The properties of the exposure registry: what holds in every state reachable by any
  interleaving of its callers, and what revocation, expiry and shutdown guarantee.
\<close>

section \<open>Exposures that are gone stay gone\<close>

definition no_new :: "registry \<Rightarrow> registry \<Rightarrow> bool" where
  "no_new r r' \<longleftrightarrow> next_gen r' = next_gen r \<and> closed_conns r \<subseteq> closed_conns r'
     \<and> (\<forall>ref st'. live r' ref st' \<longrightarrow> (\<exists>st. live r ref st))"

lemma no_new_shrinks: "shrinks r r' \<Longrightarrow> no_new r r'"
  unfolding shrinks_def no_new_def by blast

lemma no_new_put:
  assumes "exposures r i = Some st" "es_exposure st' = es_exposure st"
  shows "no_new r (put r i st')"
  using live_put [OF assms] by (auto simp: no_new_def split: if_split_asm)

lemma no_new_refl [simp]: "no_new r r"
  by (auto simp: no_new_def)

lemma no_new_trans: "no_new r r1 \<Longrightarrow> no_new r1 r2 \<Longrightarrow> no_new r r2"
  unfolding no_new_def by (metis order_trans)

lemma no_new_acquire: "no_new r (snd (acquire n e r))"
  by (auto simp: acquire_def Let_def intro!: no_new_put split: option.splits)

lemma no_new_release: "no_new r (snd (release_slot sl r))"
  by (auto simp: release_slot_def intro!: no_new_put split: option.splits)

lemma no_new_closed_conns: "no_new r (r\<lparr>closed_conns := insert c (closed_conns r)\<rparr>)"
  by (intro no_new_shrinks shrinks_same_exposures) auto

lemma no_new_track: "no_new r (snd (track_connection n e c r))"
  by (auto simp: track_connection_def Let_def intro!: no_new_put no_new_closed_conns split: option.splits)

lemma no_new_tracked_close: "no_new r (snd (tracked_close t r))"
proof -
  let ?r = "r\<lparr>closed_conns := insert (tr_conn t) (closed_conns r)\<rparr>"
  have "no_new ?r (snd (tracked_close t r))"
  proof (cases "exposures ?r (ref_id (tr_ref t))")
    case (Some st)
    then show ?thesis
      using no_new_put [OF Some, of "st\<lparr>conns := conns st - {tr_conn t}\<rparr>"]
      by (simp add: tracked_close_def Let_def)
  qed (simp add: tracked_close_def Let_def)
  then show ?thesis by (rule no_new_trans [OF no_new_closed_conns])
qed

lemmas no_new_ops = no_new_acquire no_new_release no_new_track no_new_tracked_close
  no_new_shrinks [OF shrinks_lookup] no_new_shrinks [OF shrinks_consume] no_new_shrinks [OF shrinks_install]
  no_new_shrinks [OF shrinks_check_session] no_new_shrinks [OF shrinks_revoke]
  no_new_shrinks [OF shrinks_revoke_ref] no_new_shrinks [OF shrinks_close]

text \<open>Every step but a registration creates no live reference; a registration creates one of a fresh generation.\<close>

lemma step_no_new:
  assumes "router_step env s t" and "registered t = registered s"
  shows "no_new (sreg s) (sreg t)"
  using assms by cases (auto dest!: snd_eqD simp: no_new_ops)

definition gone :: "exposure_ref \<Rightarrow> conn set \<Rightarrow> system \<Rightarrow> bool" where
  "gone ref C s \<longleftrightarrow> (registered s < 2 ^ 64 \<longrightarrow> ref_generation ref \<le> next_gen (sreg s)
     \<and> \<not> (\<exists>st. live (sreg s) ref st) \<and> C \<subseteq> closed_conns (sreg s))"

lemma gone_step:
  assumes inv: "system_inv s" and g: "gone ref C s" and step: "router_step env s t"
  shows "gone ref C t"
proof (cases "registered t = registered s")
  case True
  with step_no_new [OF step] g show ?thesis
    unfolding gone_def no_new_def by (metis order_trans)
next
  case False
  with step obtain rnd n1 n2 reg tok r' where reg: "register env rnd n1 n2 reg (sreg s) = (Inr tok, r')"
    and t: "sreg t = r'" "registered t = Suc (registered s)" by cases auto
  from reg obtain h where r': "r' = emit (mk_event (rg_exposure_id reg) ''register'' ''allowed'')
      (install_exposure reg h (sha256 env tok) n2 (sreg s))" and ab: "exposures (sreg s) (rg_exposure_id reg) = None"
    by (rule register_Inr)
  show ?thesis
    unfolding gone_def
  proof
    assume n: "registered t < 2 ^ 64"
    then have "core s" using inv t by (simp add: system_inv_def)
    then have c: "can_install (sreg s) reg" using ab n t by (simp add: can_install_def core_def)
    then show "ref_generation ref \<le> next_gen (sreg t) \<and> \<not> (\<exists>st. live (sreg t) ref st)
        \<and> C \<subseteq> closed_conns (sreg t)"
      using g n t by (simp add: gone_def r' live_install_below [OF c] install_next_gen [OF c])
  qed
qed

interpretation gone: stable_property system_init "router_step env" system_inv "gone ref C" for env ref C
  by unfold_locales (rule gone_step)

lemma live_generation: "core s \<Longrightarrow> live (sreg s) ref st \<Longrightarrow> ref_generation ref \<le> next_gen (sreg s)"
  by (auto simp: core_def handles_ok_def gens_ok_def)

text \<open>What a well-formed registry says of a reference that is not live.\<close>

lemma dead_denied:
  assumes inv: "reg_inv r" and dead: "\<not> (\<exists>st. live r ref st)"
  shows "hosts r h \<noteq> Some ref"
    and "capabilities r d = Some c \<Longrightarrow> cred_exposure c \<noteq> ref"
    and "sessions r d = Some c \<Longrightarrow> cred_exposure c \<noteq> ref"
    and "fst (authenticate env n1 n2 h tok r) = Inr e \<Longrightarrow> ref_for e \<noteq> ref"
    and "ref_for e = ref \<Longrightarrow> fst (acquire n e r) = Inl Unauthorized"
    and "ref_for e = ref \<Longrightarrow> track_connection n e cn r = (Inl Unauthorized, r\<lparr>closed_conns := insert cn (closed_conns r)\<rparr>)"
proof -
  note ok = reg_invD(2-4) [OF inv, unfolded hosts_ok_def creds_ok_def]
  show "hosts r h \<noteq> Some ref" using ok(1) dead by blast
  show "capabilities r d = Some c \<Longrightarrow> cred_exposure c \<noteq> ref" using ok(2) dead by blast
  show "sessions r d = Some c \<Longrightarrow> cred_exposure c \<noteq> ref" using ok(3) dead by blast
next
  assume "fst (authenticate env n1 n2 h tok r) = Inr e"
  then obtain r1 e' r' where l: "lookup_host env n1 h r = (Inr e', r1)"
      and c: "check_session env n2 e' tok r1 = (Inr e, r')"
    by (auto simp: authenticate_def split: prod.splits sum.splits if_split_asm)
      (metis prod.collapse)
  from l obtain st where lv: "live r (ref_for e') st" by (rule lookup_host_Inr)
  from c have "e = e'" by (rule check_session_Inr)
  with lv dead show "ref_for e \<noteq> ref" by blast
next
  assume e: "ref_for e = ref"
  then have i: "exp_id e = ref_id ref" by (metis ref_for_sel(1))
  show "fst (acquire n e r) = Inl Unauthorized"
    using dead e i by (auto simp: acquire_def Let_def live_def split: option.split)
  show "track_connection n e cn r = (Inl Unauthorized, r\<lparr>closed_conns := insert cn (closed_conns r)\<rparr>)"
    using dead e i by (auto simp: track_connection_def Let_def live_def split: option.split)
qed


section \<open>Properties\<close>

lemma reachable_core:
  assumes "system_init s0" "(router_step env)\<^sup>*\<^sup>* s0 s" "registered s < 2 ^ 64"
  shows "core s"
  using rs.reachable_inv [OF assms(1,2)] assms(3) by (simp add: system_inv_def)

text \<open>
  C14. In every state reachable by concurrent callers, the tables of the registry agree:
  every exposure sits under its identifier, owns its host and holds its expiry timer; every
  host, capability and session names a live exposure; no credential outlives its exposure;
  and the connections in use are the slots acquired and not yet released, at most
  \<open>MaxConnections\<close> of them.
\<close>

theorem registry_invariant:
  assumes "system_init s0" and "(router_step env)\<^sup>*\<^sup>* s0 s" and "registered s < 2 ^ 64"
  shows "reg_inv (sreg s) \<and>
    (\<forall>i st. exposures (sreg s) i = Some st \<longrightarrow>
       active st = open_slots (ref_for (es_exposure st)) (slots s)
       \<and> int (active st) \<le> max_connections (es_exposure st))"
proof -
  have c: "core s" by (rule reachable_core [OF assms])
  then have inv: "reg_inv (sreg s)" by (simp add: core_def)
  have "active st = open_slots (ref_for (es_exposure st)) (slots s)" if "exposures (sreg s) i = Some st" for i st
  proof -
    have "live (sreg s) (ref_for (es_exposure st)) st"
      using that reg_invD(1) [OF inv that] by (simp add: live_def exposure_ok_def)
    with c show ?thesis by (simp add: core_def handles_ok_def slots_ok_def)
  qed
  with inv active_le_max [OF inv] show ?thesis by blast
qed

lemma registry_invariant_witness:
  "reg_inv (sreg sample_s6) \<and> open_slots sample_ref (slots sample_s6) = 1"
  using registry_invariant [OF sample_init sample_run] by (auto dest!: spec [of _ "''exp''"])

text \<open>
  C17. A bootstrap capability is consumed at most once, whatever else runs concurrently: no
  digest is consumed twice, and once a capability has been consumed every later exchange of
  it, for any host and at any time, is refused.
\<close>

theorem capability_single_use:
  assumes "system_init s0" and "(router_step env)\<^sup>*\<^sup>* s0 s"
  shows "distinct (consumed s) \<and>
    (\<forall>cap t n1 n2 n3 rnd h. sha256 env cap \<in> set (consumed s) \<and> (router_step env)\<^sup>*\<^sup>* s t \<longrightarrow>
       fst (exchange env rnd n1 n2 n3 h cap (sreg t)) = Inl Unauthorized)"
proof (intro conjI allI impI, goal_cases)
  case 1
  show ?case using cs.reachable_inv [OF assms] by (simp add: cred_inv_def)
next
  case (2 cap t n1 n2 n3 rnd h)
  have mono: "set (consumed s) \<subseteq> set (consumed t)"
    using conjunct2 [OF 2]
  proof (induction rule: rtranclp_induct)
    case (step y z)
    from step(2) have "set (consumed y) \<subseteq> set (consumed z)" by cases auto
    with step(3) show ?case by blast
  qed simp
  have "cred_inv t" using cs.run_inv [OF cs.reachable_inv [OF assms]] 2 by blast
  then have "capabilities (sreg t) (sha256 env cap) = None"
    using mono 2 unfolding cred_inv_def by blast
  then have "capabilities (snd (lookup_host env n1 h (sreg t))) (sha256 env cap) = None"
    using lookup_host_frame(2) [of env n1 h "sreg t"] unfolding map_le_def by (metis domIff)
  then show ?case
    by (auto simp: exchange_def exchange_consume_def Let_def split: prod.splits sum.splits)
qed

lemma capability_single_use_witness:
  "fst (exchange sample_env (sample_random CHR ''c'') second second second ''app.example'' sample_cap (sreg sample_s6))
   = Inl Unauthorized"
  using capability_single_use [OF sample_init sample_run] by (simp add: rtranclp.rtrancl_refl)

text \<open>
  C19. A session opens exactly the host it was issued for: a successful authentication finds
  a live, unexpired exposure on the canonical form of the requested host and an unexpired
  session of that very exposure, and the same session is refused on every other host.
\<close>

theorem authenticate_sound:
  assumes "system_init s0" and "(router_step env)\<^sup>*\<^sup>* s0 s" and "registered s < 2 ^ 64"
    and ok: "authenticate env n1 n2 host session (sreg s) = (Inr e, r')"
  shows "r' = sreg s \<and> canonical_host env host = Inr (exp_host e) \<and> n1 < exp_expires_at e
    \<and> (\<exists>st c. live (sreg s) (ref_for e) st \<and> es_exposure st = e
         \<and> sessions (sreg s) (sha256 env session) = Some c \<and> cred_exposure c = ref_for e
         \<and> n2 < cred_expires_at c \<and> cred_expires_at c \<le> exp_expires_at e)
    \<and> (\<forall>host2 m1 m2. canonical_host env host2 \<noteq> Inr (exp_host e) \<longrightarrow>
         fst (authenticate env m1 m2 host2 session (sreg s)) = Inl Unauthorized)"
proof -
  let ?r = "sreg s"
  have inv: "reg_inv ?r" using reachable_core [OF assms(1-3)] by (simp add: core_def)
  have look: "\<exists>st c. canonical_host env h = Inr (exp_host e) \<and> m1 < exp_expires_at e
      \<and> live ?r (ref_for e) st \<and> es_exposure st = e
      \<and> sessions ?r (sha256 env session) = Some c \<and> cred_exposure c = ref_for e \<and> m2 < cred_expires_at c \<and> r' = ?r"
    if a: "authenticate env m1 m2 h session ?r = (Inr e, r')" for h m1 m2 e r'
  proof -
    from a obtain e' r1 where l: "lookup_host env m1 h ?r = (Inr e', r1)"
      and c: "check_session env m2 e' session r1 = (Inr e, r')"
      by (auto simp: authenticate_def split: prod.splits sum.splits if_split_asm)
    from l obtain hc st where h: "canonical_host env h = Inr hc" "hosts ?r hc = Some (ref_for e')"
      and st: "live ?r (ref_for e') st" and e': "e' = es_exposure st" and x: "m1 < exp_expires_at e'" "r1 = ?r"
      by (rule lookup_host_Inr)
    from c obtain cr where cr: "sessions r1 (sha256 env session) = Some cr" "cred_exposure cr = ref_for e'"
      "m2 < cred_expires_at cr" "e = e'" "r' = r1" by (rule check_session_Inr)
    have "exp_host e' = hc"
      using reg_invD(2) [OF inv] h(2) live_unique [OF st] e' unfolding hosts_ok_def by blast
    with h st x cr e' show ?thesis by blast
  qed
  from look [OF ok] obtain st c where l: "canonical_host env host = Inr (exp_host e)" "n1 < exp_expires_at e"
    "live ?r (ref_for e) st" "es_exposure st = e" "sessions ?r (sha256 env session) = Some c"
    "cred_exposure c = ref_for e" "n2 < cred_expires_at c" "r' = ?r" by blast
  have le: "cred_expires_at c \<le> exp_expires_at e"
    using reg_invD(4) [OF inv] l(3-6) live_unique unfolding creds_ok_def by metis
  have other: "fst (authenticate env m1 m2 host2 session ?r) = Inl Unauthorized"
    if ne: "canonical_host env host2 \<noteq> Inr (exp_host e)" for host2 m1 m2
  proof (cases "authenticate env m1 m2 host2 session ?r")
    case (Pair res r2)
    show ?thesis
    proof (cases res)
      case (Inr e2)
      with look [of m1 m2 host2 e2 r2] Pair obtain st2 c2 where o: "canonical_host env host2 = Inr (exp_host e2)"
        "live ?r (ref_for e2) st2" "es_exposure st2 = e2" "sessions ?r (sha256 env session) = Some c2"
        "cred_exposure c2 = ref_for e2" by blast
      with l have "ref_for e2 = ref_for e" by simp
      with o(2) l(3) have "st2 = st" using live_unique by simp
      with o l(4) ne show ?thesis by simp
    next
      case (Inl err)
      with Pair show ?thesis
        by (auto simp: authenticate_def check_session_def Let_def split: prod.splits sum.splits option.splits if_split_asm)
    qed
  qed
  from l le other show ?thesis by blast
qed

lemma sample_authenticate:
  "authenticate sample_env second second ''app.example'' sample_session (sreg sample_s6)
   = (Inr sample_exposure, sreg sample_s6)"
  by (simp add: authenticate_def sample_lookup [of _ 1 "{7}"] check_session_def Let_def)

lemma authenticate_sound_witness:
  "fst (authenticate sample_env second second ''other.example'' sample_session (sreg sample_s6)) = Inl Unauthorized"
  using authenticate_sound [OF sample_init sample_run _ sample_authenticate] by simp

text \<open>
  C20. Revocation is complete and permanent: after \<open>Revoke\<close> of an exposure, in every later
  state no host, capability or session names it, every connection it tracked is closed, no
  authentication returns it, and a caller that still holds the old exposure value can
  neither acquire a slot nor track a connection (which is closed instead); even when the
  same identifier or host is registered again.
\<close>

theorem revoke_complete:
  assumes "system_init s0" and "(router_step env)\<^sup>*\<^sup>* s0 s" and "registered t < 2 ^ 64"
    and st: "exposures (sreg s) i = Some st"
    and run: "(router_step env)\<^sup>*\<^sup>* (s\<lparr>sreg := revoke i (sreg s)\<rparr>) t"
  shows "(\<forall>h. hosts (sreg t) h \<noteq> Some (ref_for (es_exposure st)))
    \<and> (\<forall>d c. capabilities (sreg t) d = Some c \<or> sessions (sreg t) d = Some c \<longrightarrow>
           cred_exposure c \<noteq> ref_for (es_exposure st))
    \<and> conns st \<subseteq> closed_conns (sreg t)
    \<and> (\<forall>h tok n1 n2 e. fst (authenticate env n1 n2 h tok (sreg t)) = Inr e \<longrightarrow>
           ref_for e \<noteq> ref_for (es_exposure st))
    \<and> (\<forall>n. fst (acquire n (es_exposure st) (sreg t)) = Inl Unauthorized)
    \<and> (\<forall>n cn. fst (track_connection n (es_exposure st) cn (sreg t)) = Inl Unauthorized
           \<and> cn \<in> closed_conns (snd (track_connection n (es_exposure st) cn (sreg t))))"
proof -
  let ?ref = "ref_for (es_exposure st)" and ?s = "s\<lparr>sreg := revoke i (sreg s)\<rparr>"
  have inv: "system_inv s" by (rule rs.reachable_inv [OF assms(1,2)])
  have step: "router_step env s ?s" by (rule st_revoke)
  have "gone ?ref (conns st) ?s"
    unfolding gone_def
  proof
    assume "registered ?s < 2 ^ 64"
    then have c: "core s" using inv by (simp add: system_inv_def)
    then have l: "live (sreg s) ?ref st"
      using reg_invD(1) [OF _ st] st by (simp add: core_def live_def exposure_ok_def)
    have r: "revoke i (sreg s) = revoke_ref ?ref ''revoked'' (sreg s)" using st by (simp add: revoke_def)
    have "conns st \<subseteq> closed_conns (sreg ?s)" using revoke_ref_live(5) [OF _ l] c by (simp add: r core_def)
    then show "ref_generation ?ref \<le> next_gen (sreg ?s) \<and> \<not> (\<exists>x. live (sreg ?s) ?ref x)
        \<and> conns st \<subseteq> closed_conns (sreg ?s)"
      using live_generation [OF c l] by (simp add: r live_revoke_ref revoke_ref_frame)
  qed
  then have g: "gone ?ref (conns st) t" by (rule gone.run_stable [OF run rs.step_inv [OF inv step]])
  have "system_inv t" by (rule rs.run_inv [OF rs.step_inv [OF inv step] run])
  then have ri: "reg_inv (sreg t)" using assms(3) by (simp add: system_inv_def core_def)
  from g assms(3) have dead: "\<not> (\<exists>x. live (sreg t) ?ref x)" and cl: "conns st \<subseteq> closed_conns (sreg t)"
    by (simp_all add: gone_def)
  note d = dead_denied [OF ri dead]
  show ?thesis using d(1,2,3,4) d(5,6) [OF refl] cl by auto
qed

lemma revoke_complete_witness:
  "7 \<in> closed_conns (sreg sample_s7)
   \<and> fst (acquire second sample_exposure (sreg sample_s7)) = Inl Unauthorized"
  using revoke_complete [OF sample_init sample_run, of sample_s7 "''exp''" "sample_state 1 {7}"]
  by (simp add: sample_s7_def)

text \<open>
  No tracked connection outlives its exposure: in every reachable state a connection
  ever registered with \<open>TrackConnection\<close> is either closed or held by its live exposure,
  whose revocation will close it.
\<close>

theorem tracked_connections_closed:
  assumes "system_init s0" and "(router_step env)\<^sup>*\<^sup>* s0 s" and "registered s < 2 ^ 64"
    and "tr \<in> set (tracks s)"
  shows "tr_conn tr \<in> closed_conns (sreg s)
    \<or> (\<exists>st. live (sreg s) (tr_ref tr) st \<and> tr_conn tr \<in> conns st
         \<and> tr_conn tr \<in> closed_conns (revoke (ref_id (tr_ref tr)) (sreg s)))"
proof -
  have c: "core s" by (rule reachable_core [OF assms(1-3)])
  with assms(4) have "track_ok (sreg s) tr" by (simp add: core_def handles_ok_def tracks_ok_def)
  then consider "tr_conn tr \<in> closed_conns (sreg s)"
    | st where "live (sreg s) (tr_ref tr) st" "tr_conn tr \<in> conns st" by (auto simp: track_ok_def)
  then show ?thesis
  proof cases
    case (2 st)
    have "revoke (ref_id (tr_ref tr)) (sreg s) = revoke_ref (tr_ref tr) ''revoked'' (sreg s)"
      using 2(1) by (simp add: revoke_def live_def)
    with 2 c revoke_ref_live(5) [OF _ 2(1)] show ?thesis by (auto simp: core_def)
  qed simp
qed

lemma tracked_connections_closed_witness:
  "7 \<in> closed_conns (sreg sample_s6) \<or> 7 \<in> closed_conns (revoke ''exp'' (sreg sample_s6))"
  using tracked_connections_closed [OF sample_init sample_run, of "\<lparr>tr_ref = sample_ref, tr_conn = 7, tr_done = False\<rparr>"]
  by auto

text \<open>
  An exposure is unusable from its expiry on, even before its timer fires: lookup,
  exchange, authentication, slot acquisition and connection tracking are refused, and the
  first lookup removes it.
\<close>

theorem expired_denied:
  assumes inv: "reg_inv r" and h: "canonical_host env host = Inr h" "hosts r h = Some ref"
    and st: "exposures r (ref_id ref) = Some st" and ex: "exp_expires_at (es_exposure st) \<le> now"
  shows "fst (lookup_host env now host r) = Inl Unauthorized
    \<and> exposures (snd (lookup_host env now host r)) (ref_id ref) = None
    \<and> fst (exchange env rnd now n2 n3 host cap r) = Inl Unauthorized
    \<and> fst (authenticate env now n2 host session r) = Inl Unauthorized
    \<and> fst (acquire now (es_exposure st) r) = Inl Unauthorized
    \<and> fst (track_connection now (es_exposure st) cn r) = Inl Unauthorized"
proof -
  have l: "live r ref st"
  proof -
    obtain s where "live r ref s" using reg_invD(2) [OF inv] h(2) unfolding hosts_ok_def by blast
    moreover from this have "s = st" using st by (simp add: live_def)
    ultimately show ?thesis by simp
  qed
  then have e: "ref_id ref = exp_id (es_exposure st)" by (auto simp: live_def)
  have m: "state_matches (Some st) ref" using l by (simp add: live_def)
  have look: "lookup_host env now host r = (Inl Unauthorized, revoke_ref ref ''expired'' r)"
    using h st ex m by (simp del: state_matches_simps add: lookup_host_def Let_def)
  moreover have "exposures (revoke_ref ref ''expired'' r) (ref_id ref) = None"
    by (simp add: revoke_ref_live [OF inv l])
  ultimately show ?thesis
    using st ex e by (simp add: exchange_def authenticate_def acquire_def track_connection_def Let_def)
qed

lemma expired_denied_witness:
  "fst (authenticate sample_env (100 * second) (100 * second) ''app.example'' sample_session (sreg sample_s6))
   = Inl Unauthorized"
  using expired_denied [of "sreg sample_s6" sample_env "''app.example''" "''app.example''" sample_ref
      "sample_state 1 {7}" "100 * second"] reachable_core [OF sample_init sample_run]
  by (simp add: core_def)

section \<open>Shutdown\<close>

definition shut :: "system \<Rightarrow> bool" where
  "shut s \<longleftrightarrow> reg_closed (sreg s) \<and> exposures (sreg s) = Map.empty"

lemma shut_step: "shut s \<Longrightarrow> router_step env s t \<Longrightarrow> shut t"
proof -
  assume sh: "shut s" and "router_step env s t"
  from this(2) show "shut t"
  proof cases
    case (st_register rnd n1 n2 reg tok r')
    then show ?thesis using sh by (auto simp: shut_def elim: register_Inr)
  next
    case (st_close order)
    have "foldl (\<lambda>r ref. revoke_ref ref out r) r refs = r" if "exposures r = Map.empty" for out r refs
      using that by (induction refs) (simp_all add: revoke_ref_def)
    then show ?thesis using sh st_close by (simp add: shut_def close_registry_def Let_def)
  qed (use sh in \<open>auto dest!: snd_eqD simp: shut_def lookup_host_def exchange_consume_def exchange_install_def
      check_session_def acquire_def release_slot_def track_connection_def tracked_close_def revoke_def
      revoke_ref_def Let_def split: sum.splits option.splits\<close>)
qed

interpretation shut: stable_property system_init "router_step env" system_inv shut for env
  by unfold_locales (rule shut_step)

lemma fold_revoke_gone:
  "live (foldl (\<lambda>r ref. revoke_ref ref out r) r refs) ref st \<longleftrightarrow> live r ref st \<and> ref \<notin> set refs"
  by (induction refs arbitrary: r) (auto simp: live_revoke_ref)

lemma fold_revoke_closed [simp]:
  "reg_closed (foldl (\<lambda>r ref. revoke_ref ref out r) r refs) = reg_closed r"
  by (induction refs arbitrary: r) (simp_all add: revoke_ref_frame)

lemma close_registry_shuts:
  assumes inv: "reg_inv r" and order: "dom (exposures r) \<subseteq> set order"
  shows "reg_closed (close_registry order r) \<and> exposures (close_registry order r) = Map.empty"
proof -
  let ?r1 = "r\<lparr>reg_closed := True\<rparr>"
  let ?refs = "List.map_filter (\<lambda>i. map_option (\<lambda>st. ref_for (es_exposure st)) (exposures ?r1 i)) order"
  let ?r2 = "close_registry order r"
  have eq: "?r2 = foldl (\<lambda>r ref. revoke_ref ref ''shutdown'' r) ?r1 ?refs"
    by (simp add: close_registry_def Let_def)
  have l1: "live ?r1 = live r" by (simp add: fun_eq_iff live_def)
  have none: "\<not> live ?r2 ref st" for ref st
  proof
    assume "live ?r2 ref st"
    then have "live r ref st \<and> ref \<notin> set ?refs" unfolding eq fold_revoke_gone l1 .
    then have l: "live r ref st" and n: "ref \<notin> set ?refs" by blast+
    from l have "ref_id ref \<in> set order" using order by (auto simp: live_def)
    moreover from l have "exposures r (ref_id ref) = Some st" "ref_for (es_exposure st) = ref" by (simp_all add: live_def)
    ultimately have "ref \<in> set ?refs" by (force simp: List.map_filter_def)
    with n show False ..
  qed
  have "exposures ?r2 i = None" for i
  proof (rule ccontr)
    assume "exposures ?r2 i \<noteq> None"
    then obtain st where st: "exposures ?r2 i = Some st" by blast
    then have "live ?r2 (ref_for (es_exposure st)) st"
      using reg_invD(1) [OF reg_inv_close [OF inv] st] by (simp add: live_def exposure_ok_def)
    with none show False by blast
  qed
  moreover have "reg_closed ?r2" by (simp add: eq)
  ultimately show ?thesis by (simp add: fun_eq_iff)
qed

text \<open>
  \<open>Close\<close> ends everything: whatever order Go iterates the map in, after it, and in every
  later state, no exposure, host, capability or session is left, every connection tracked
  before is closed, and no registration succeeds.
\<close>

theorem close_denies_all:
  assumes "system_init s0" and "(router_step env)\<^sup>*\<^sup>* s0 s" and "registered t < 2 ^ 64"
    and order: "dom (exposures (sreg s)) \<subseteq> set order" and r0: "registered s < 2 ^ 64"
    and run: "(router_step env)\<^sup>*\<^sup>* (s\<lparr>sreg := close_registry order (sreg s)\<rparr>) t"
  shows "exposures (sreg t) = Map.empty \<and> hosts (sreg t) = Map.empty
    \<and> capabilities (sreg t) = Map.empty \<and> sessions (sreg t) = Map.empty
    \<and> (\<forall>tr \<in> set (tracks t). tr_conn tr \<in> closed_conns (sreg t))
    \<and> (\<forall>rnd n1 n2 reg. \<exists>e. register env rnd n1 n2 reg (sreg t) = (Inl e, sreg t))"
proof -
  let ?s = "s\<lparr>sreg := close_registry order (sreg s)\<rparr>"
  have inv: "system_inv ?s" by (rule rs.step_inv [OF rs.reachable_inv [OF assms(1,2)] st_close])
  have "shut ?s"
    using close_registry_shuts [OF _ order] reachable_core [OF assms(1,2) r0] by (simp add: shut_def core_def)
  then have sh: "shut t" by (rule shut.run_stable [OF run inv])
  have c: "core t" using rs.run_inv [OF inv run] assms(3) by (simp add: system_inv_def)
  then have ri: "reg_inv (sreg t)" by (simp add: core_def)
  have dead: "\<not> (\<exists>st. live (sreg t) ref st)" for ref using sh by (simp add: shut_def live_def)
  note d = dead_denied [OF ri dead]
  have "hosts (sreg t) h = None" for h using d(1) [of h] by (metis option.exhaust)
  moreover have "capabilities (sreg t) k = None" for k using d(2) [of k] by (cases "capabilities (sreg t) k") auto
  moreover have "sessions (sreg t) k = None" for k using d(3) [of k] by (cases "sessions (sreg t) k") auto
  moreover have "\<forall>tr \<in> set (tracks t). tr_conn tr \<in> closed_conns (sreg t)"
    using c dead unfolding core_def handles_ok_def tracks_ok_def track_ok_def by blast
  moreover have "\<exists>e. register env rnd n1 n2 reg (sreg t) = (Inl e, sreg t)" for rnd n1 n2 reg
  proof (cases "register env rnd n1 n2 reg (sreg t)")
    case (Pair res r')
    show ?thesis
    proof (cases res)
      case (Inl e)
      with Pair register_Inl [of env rnd n1 n2 reg "sreg t" e r'] show ?thesis by simp
    next
      case (Inr tok)
      with Pair have "\<not> reg_closed (sreg t)" by (auto elim: register_Inr)
      with sh show ?thesis by (simp add: shut_def)
    qed
  qed
  ultimately show ?thesis using sh by (simp add: shut_def fun_eq_iff)
qed

lemma close_denies_all_witness:
  "sessions (close_registry [''exp''] (sreg sample_s6)) = Map.empty
   \<and> 7 \<in> closed_conns (close_registry [''exp''] (sreg sample_s6))"
  using close_denies_all [OF sample_init sample_run, of
      "sample_s6\<lparr>sreg := close_registry [''exp''] (sreg sample_s6)\<rparr>" "[''exp'']"]
  by simp

section \<open>Host names\<close>

text \<open>
  What \<open>IsDNS1123Subdomain\<close> documents: lower-case alphanumerics, dots and hyphens, starting
  and ending with an alphanumeric.
\<close>

definition dns_alphabet :: string where
  "dns_alphabet = ''abcdefghijklmnopqrstuvwxyz0123456789''"

definition dns_letter :: "char \<Rightarrow> bool" where
  "dns_letter c \<longleftrightarrow> c \<in> set dns_alphabet"

definition dns_law :: "router_env \<Rightarrow> bool" where
  "dns_law env \<longleftrightarrow> (\<forall>h. dns1123_subdomain env h \<longrightarrow>
     h \<noteq> [] \<and> (\<forall>c \<in> set h. dns_letter c \<or> c = CHR ''.'' \<or> c = CHR ''-'')
     \<and> dns_letter (hd h) \<and> dns_letter (last h))"

lemma sample_dns_law: "dns_law sample_env"
  unfolding dns_law_def by (auto simp: sample_env_def dns_letter_def dns_alphabet_def)

definition dns_char_ok :: "char \<Rightarrow> bool" where
  "dns_char_ok c \<longleftrightarrow> (of_char c :: nat) < 128 \<and> lower_char c = c \<and> \<not> List.member host_forbidden c
     \<and> list_all (\<lambda>w. \<not> List.member w c) space_encodings"

lemma dns_char_check: "list_all dns_char_ok (CHR ''.'' # CHR ''-'' # dns_alphabet)"
  by code_simp

lemma dns_char_facts:
  assumes "dns_letter c \<or> c = CHR ''.'' \<or> c = CHR ''-''"
  shows "(of_char c :: nat) < 128" and "lower_char c = c" and "c \<notin> set host_forbidden"
    and "w \<in> set space_encodings \<Longrightarrow> c \<notin> set w"
proof -
  have "c \<in> set (CHR ''.'' # CHR ''-'' # dns_alphabet)"
    using assms unfolding dns_letter_def by auto
  with dns_char_check have "dns_char_ok c" unfolding list_all_iff by blast
  then show "(of_char c :: nat) < 128" "lower_char c = c" "c \<notin> set host_forbidden"
    "w \<in> set space_encodings \<Longrightarrow> c \<notin> set w"
    unfolding dns_char_ok_def list_all_iff List.member_iff by blast+
qed

lemma dns_to_lower:
  assumes "\<forall>c \<in> set h. dns_letter c \<or> c = CHR ''.'' \<or> c = CHR ''-''"
  shows "to_lower h = h"
proof -
  have "ascii h" using assms dns_char_facts(1) by (auto simp: ascii_def list_all_iff)
  then have "to_lower h = map lower_char h" by (simp add: to_lower_ascii ascii_lower_def)
  also have "\<dots> = h" using assms dns_char_facts(2) by (simp add: map_idI)
  finally show ?thesis .
qed

lemma dns_trim_space:
  assumes "\<forall>c \<in> set h. dns_letter c \<or> c = CHR ''.'' \<or> c = CHR ''-''"
  shows "trim_space h = h"
proof -
  have no: "\<not> has_prefix h w \<and> \<not> has_suffix h w" if w: "w \<in> set space_encodings" for w
  proof -
    obtain a where a: "a \<in> set w" using space_encodings_nonempty [OF w] by (cases w) auto
    then have "a \<notin> set h" using assms dns_char_facts(4) [OF _ w] by blast
    with a show ?thesis by (auto simp: has_prefix_iff has_suffix_iff)
  qed
  then have "find (has_prefix h) space_encodings = None" "find (has_suffix h) space_encodings = None"
    by (auto simp: find_None_iff)
  then show ?thesis by (simp add: trim_space_def trim_left.simps [of h] trim_right.simps [of h])
qed

text \<open>
  \<open>CanonicalHost\<close> returns a canonical name: a DNS name in lower case that is not an IPv4
  literal, and applying \<open>CanonicalHost\<close> to it again returns it unchanged, so hosts stored
  by registration and hosts looked up from requests are compared in the same form.
\<close>

theorem canonical_host_canonical:
  assumes law: "dns_law env" and h: "canonical_host env host = Inr h"
  shows "canonical_host env h = Inr h \<and> dns1123_subdomain env h \<and> \<not> is_ipv4 h \<and> to_lower h = h
    \<and> h = to_lower host"
proof -
  from h have d: "dns1123_subdomain env h" "\<not> is_ipv4 h" "h = to_lower host"
    by (auto simp: canonical_host_def Let_def split: if_split_asm)
  from law d(1) have c: "h \<noteq> []" "\<forall>c \<in> set h. dns_letter c \<or> c = CHR ''.'' \<or> c = CHR ''-''"
    and l: "dns_letter (last h)" by (auto simp: dns_law_def)
  have low: "to_lower h = h" by (rule dns_to_lower [OF c(2)])
  have forb: "\<not> contains_any h host_forbidden"
    using c(2) dns_char_facts(3) unfolding contains_any_def list_ex_iff by blast
  have "\<not> has_suffix h ''.''"
  proof
    assume "has_suffix h ''.''"
    then have "last h = CHR ''.''" by (auto simp: has_suffix_iff)
    with l show False by (simp add: dns_letter_def dns_alphabet_def)
  qed
  with c(1) d(1,2) low forb dns_trim_space [OF c(2)] have "canonical_host env h = Inr h"
    by (simp add: canonical_host_def)
  with d low show ?thesis by simp
qed

lemma canonical_host_canonical_witness:
  "canonical_host sample_env ''App.Example'' = Inr ''app.example''
   \<and> canonical_host sample_env ''app.example'' = Inr ''app.example''"
  by (rule conjI [OF sample_host(1) conjunct1 [OF canonical_host_canonical [OF sample_dns_law sample_host(1)]]])

text \<open>
  The order of the two checks matters: the name is lower-cased before it is checked, and two
  characters outside ASCII have an ASCII lower-case form, so a host with the Kelvin sign
  (U+212A) in place of a letter k is accepted although it is not a DNS name.
\<close>

lemma canonical_host_accepts_kelvin_sign:
  assumes "dns1123_subdomain env ''k.example''"
  shows "canonical_host env ([CHR 0xE2, CHR 0x84, CHR 0xAA] @ ''.example'') = Inr ''k.example''"
proof -
  have "to_lower ([CHR 0xE2, CHR 0x84, CHR 0xAA] @ ''.example'') = ''k.example''"
    "trim_space ([CHR 0xE2, CHR 0x84, CHR 0xAA] @ ''.example'') = [CHR 0xE2, CHR 0x84, CHR 0xAA] @ ''.example''"
    "\<not> contains_any ([CHR 0xE2, CHR 0x84, CHR 0xAA] @ ''.example'') host_forbidden"
    "\<not> has_suffix ([CHR 0xE2, CHR 0x84, CHR 0xAA] @ ''.example'') ''.''"
    "\<not> is_ipv4 ''k.example''"
    by code_simp+
  with assms show ?thesis by (simp add: canonical_host_def)
qed

end
