(* ===== verification/Spool.thy ===== *)
theory Spool
  imports Base64
begin

text \<open>
  The event spool of one supervised command
  (\<open>apps/command-supervisor/internal/runtime/persistence.go\<close>): the binary record format, the
  segmented files of the spool directory, the bounded append and the reading with
  truncation of a torn tail. A directory is the list of its entries; the outcome of every
  system call is an argument, so that each error path is a branch of the model.
\<close>

section \<open>Events and their encoding\<close>

record spool_event =
  se_seq :: nat
  se_stream :: string
  se_data :: bytes

definition max_event_bytes :: nat where "max_event_bytes = 16384"
definition max_spool_bytes :: nat where "max_spool_bytes = 8388608"
definition spool_record_header :: nat where "spool_record_header = 13"
definition spool_segment_bytes :: nat where "spool_segment_bytes = 262144"

definition spool_version_header :: bytes where "spool_version_header = ''ASPEVT01''"

text \<open>Big-endian encodings of \<open>encoding/binary\<close>: the \<open>k\<close> low bytes of a number.\<close>

fun be_bytes :: "nat \<Rightarrow> nat \<Rightarrow> bytes" where
  "be_bytes 0 n = []"
| "be_bytes (Suc k) n = be_bytes k (n div 256) @ [char_of (n mod 256)]"

definition be_value :: "bytes \<Rightarrow> nat" where
  "be_value bs = foldl (\<lambda>n c. 256 * n + byte_val c) 0 bs"

definition encode_event :: "spool_event \<Rightarrow> bytes" where
  "encode_event ev =
     be_bytes 8 (se_seq ev)
     @ [if se_stream ev = ''stderr'' then CHR 0x02 else CHR 0x01]
     @ be_bytes 4 (length (se_data ev))
     @ se_data ev"

definition encode_events :: "spool_event list \<Rightarrow> bytes" where
  "encode_events evs = spool_version_header @ concat (map encode_event evs)"

datatype spool_error =
    PayloadTooLarge nat | InvalidStream nat | UnsupportedVersion string | PartialSegment string
  | NotMonotonic | InvalidSegmentName string | EventTooLarge | ExceedsBudget | SpoolIO

text \<open>
  \<open>decodeEvents\<close>: whole records, and the number of bytes they take. A record cut short, in
  its header or in its payload, ends the reading without an error.
\<close>

function decode_events :: "bytes \<Rightarrow> spool_error + (spool_event list \<times> nat)" where
  "decode_events bs =
     (if length bs < spool_record_header then Inr ([], 0)
      else let size = be_value (take 4 (drop 9 bs)); rest = drop spool_record_header bs in
        if size > max_event_bytes then Inl (PayloadTooLarge size)
        else if length rest < size then Inr ([], 0)
        else if bs ! 8 \<noteq> CHR 0x01 \<and> bs ! 8 \<noteq> CHR 0x02 then Inl (InvalidStream (byte_val (bs ! 8)))
        else case decode_events (drop size rest) of Inl e \<Rightarrow> Inl e
          | Inr (evs, n) \<Rightarrow>
            Inr (\<lparr>se_seq = be_value (take 8 bs),
                  se_stream = (if bs ! 8 = CHR 0x02 then ''stderr'' else ''stdout''),
                  se_data = take size rest\<rparr> # evs,
                 spool_record_header + size + n))"
  by pat_completeness auto
termination
  by (relation "measure length") (auto simp: spool_record_header_def)

declare decode_events.simps [simp del]

section \<open>The spool directory\<close>

datatype spool_entry = File bytes | Subdirectory

type_synonym spool_dir = "(string \<times> spool_entry) list"

record segment =
  seg_path :: string
  seg_first :: nat
  seg_size :: nat

fun segment_entries :: "spool_dir \<Rightarrow> spool_error + segment list" where
  "segment_entries [] = Inr []"
| "segment_entries ((name, entry) # es) =
     (case entry of
        Subdirectory \<Rightarrow> segment_entries es
      | File content \<Rightarrow>
        if \<not> has_suffix name ''.bin'' then segment_entries es
        else (case parse_uint64 (trim_suffix name ''.bin'') of
            None \<Rightarrow> Inl (InvalidSegmentName name)
          | Some first \<Rightarrow>
            (case segment_entries es of Inl e \<Rightarrow> Inl e
             | Inr parts \<Rightarrow>
               Inr (\<lparr>seg_path = name, seg_first = first, seg_size = length content\<rparr> # parts))))"

text \<open>\<open>segments\<close>: an absent directory (\<open>None\<close>) has no segments.\<close>

definition segments :: "spool_dir option \<Rightarrow> spool_error + segment list" where
  "segments dir = (case dir of None \<Rightarrow> Inr []
     | Some d \<Rightarrow> (case segment_entries d of Inl e \<Rightarrow> Inl e
         | Inr parts \<Rightarrow> Inr (sort_key seg_first parts)))"

fun dir_update :: "string \<Rightarrow> bytes \<Rightarrow> spool_dir \<Rightarrow> spool_dir" where
  "dir_update name content [] = []"
| "dir_update name content ((n, e) # es) =
     (if n = name then (n, File content) # es else (n, e) # dir_update name content es)"

fun dir_remove :: "string \<Rightarrow> spool_dir \<Rightarrow> spool_dir" where
  "dir_remove name [] = []"
| "dir_remove name ((n, e) # es) = (if n = name then es else (n, e) # dir_remove name es)"

text \<open>The check of \<open>readEvents\<close> that sequence numbers grow, from the previous one.\<close>

fun check_sequence :: "nat \<Rightarrow> spool_event list \<Rightarrow> nat option" where
  "check_sequence previous [] = Some previous"
| "check_sequence previous (ev # evs) =
     (if se_seq ev \<le> previous then None else check_sequence (se_seq ev) evs)"

record read_io =
  can_read :: "string \<Rightarrow> bool"
  can_truncate :: bool

fun read_parts ::
    "read_io \<Rightarrow> spool_dir \<Rightarrow> nat \<Rightarrow> spool_event list \<Rightarrow> segment list
     \<Rightarrow> (spool_error + spool_event list) \<times> spool_dir" where
  "read_parts io d previous events [] = (Inr events, d)"
| "read_parts io d previous events (part # rest) =
     (case map_of d (seg_path part) of
        Some (File content) \<Rightarrow>
          if \<not> can_read io (seg_path part) then (Inl SpoolIO, d)
          else if take (length spool_version_header) content \<noteq> spool_version_header
          then (Inl (UnsupportedVersion (seg_path part)), d)
          else (case decode_events (drop (length spool_version_header) content) of
              Inl e \<Rightarrow> (Inl e, d)
            | Inr (items, valid) \<Rightarrow>
              let valid_bytes = valid + length spool_version_header; torn = (valid_bytes \<noteq> seg_size part);
                  d' = (if torn then dir_update (seg_path part) (take valid_bytes content) d else d)
              in if torn \<and> rest \<noteq> [] then (Inl (PartialSegment (seg_path part)), d)
                 else if torn \<and> \<not> can_truncate io then (Inl SpoolIO, d)
                 else (case check_sequence previous items of
                     None \<Rightarrow> (Inl NotMonotonic, d')
                   | Some previous' \<Rightarrow> read_parts io d' previous' (events @ items) rest))
      | _ \<Rightarrow> (Inl SpoolIO, d))"

definition read_events ::
    "read_io \<Rightarrow> spool_dir option \<Rightarrow> (spool_error + spool_event list) \<times> spool_dir option" where
  "read_events io dir =
     (case segments dir of Inl e \<Rightarrow> (Inl e, dir)
      | Inr parts \<Rightarrow> (case dir of None \<Rightarrow> (Inr [], None)
          | Some d \<Rightarrow> (case read_parts io d 0 [] parts of (res, d') \<Rightarrow> (res, Some d'))))"

section \<open>The bounded append\<close>

text \<open>
  The outcomes of the system calls of one append: \<open>removes\<close> is the number of \<open>os.Remove\<close>
  calls that succeed before one fails (\<open>None\<close>: all succeed), \<open>written\<close> the number of bytes a
  failing write leaves in the file (\<open>None\<close>: the write is complete).
\<close>

record append_io =
  mkdir_ok :: bool
  removes :: "nat option"
  open_ok :: bool
  written :: "nat option"
  sync_ok :: bool
  dirsync_ok :: bool

definition no_faults :: append_io where
  "no_faults = \<lparr>mkdir_ok = True, removes = None, open_ok = True, written = None,
     sync_ok = True, dirsync_ok = True\<rparr>"

fun evict ::
    "nat option \<Rightarrow> nat \<Rightarrow> nat \<Rightarrow> nat \<Rightarrow> segment list \<Rightarrow> spool_dir
     \<Rightarrow> bool \<times> segment list \<times> spool_dir" where
  "evict quota budget used append_bytes [] d = (True, [], d)"
| "evict quota budget used append_bytes (p # ps) d =
     (if used + append_bytes > budget
      then (if quota = Some 0 then (False, p # ps, d)
            else evict (map_option (\<lambda>n. n - 1) quota) budget (used - seg_size p) append_bytes ps
              (dir_remove (seg_path p) d))
      else (True, p # ps, d))"

text \<open>\<open>fmt.Sprintf("%020d.bin", seq)\<close>\<close>

definition segment_name :: "nat \<Rightarrow> string" where
  "segment_name seq = (let ds = nat_digits seq in replicate (20 - length ds) CHR ''0'' @ ds @ ''.bin'')"

definition write_file :: "append_io \<Rightarrow> string \<Rightarrow> bytes \<Rightarrow> bytes \<Rightarrow> spool_dir \<Rightarrow> bool \<times> spool_dir" where
  "write_file io path old payload d =
     (case written io of
        Some k \<Rightarrow> (False, dir_update path (old @ take k payload) d)
      | None \<Rightarrow> (sync_ok io, dir_update path (old @ payload) d))"

definition append_bounded_event ::
    "append_io \<Rightarrow> spool_dir option \<Rightarrow> spool_event \<Rightarrow> nat \<Rightarrow> spool_error option \<times> spool_dir option" where
  "append_bounded_event io dir ev budget =
     (let record_bytes = encode_event ev; header = length spool_version_header in
      if length (se_data ev) > max_event_bytes then (Some EventTooLarge, dir)
      else if length record_bytes + header > budget then (Some ExceedsBudget, dir)
      else if \<not> mkdir_ok io then (Some SpoolIO, dir)
      else let d = (case dir of None \<Rightarrow> [] | Some d \<Rightarrow> d) in
        case segments (Some d) of Inl e \<Rightarrow> (Some e, Some d)
        | Inr parts \<Rightarrow>
          let used = sum_list (map seg_size parts);
              rotate = (parts = []
                \<or> seg_size (last parts) + length record_bytes > spool_segment_bytes
                \<or> used + length record_bytes > budget)
          in if rotate
             then (case evict (removes io) budget used (length record_bytes + header) parts d of
                 (False, _, d1) \<Rightarrow> (Some SpoolIO, Some d1)
               | (True, _, d1) \<Rightarrow>
                 let path = segment_name (se_seq ev) in
                 if \<not> open_ok io \<or> map_of d1 path \<noteq> None then (Some SpoolIO, Some d1)
                 else (case write_file io path [] (spool_version_header @ record_bytes) (d1 @ [(path, File [])]) of
                     (ok, d2) \<Rightarrow> (if ok \<and> dirsync_ok io then None else Some SpoolIO, Some d2)))
             else let path = seg_path (last parts) in
               (case map_of d path of
                  Some (File old) \<Rightarrow>
                    if \<not> open_ok io then (Some SpoolIO, Some d)
                    else (case write_file io path old record_bytes d of
                        (ok, d2) \<Rightarrow> (if ok then None else Some SpoolIO, Some d2))
                | _ \<Rightarrow> (Some SpoolIO, Some d)))"

end
