(* ===== verification/Supervisor.thy ===== *)
theory Supervisor
  imports Spool "HOL-Library.List_Lexorder" "HOL-Library.Char_ord"
begin

text \<open>
  The command supervisor (\<open>apps/command-supervisor/internal/runtime\<close>: \<open>manager.go\<close>,
  \<open>protocol.go\<close>, the dispatch of \<open>server.go\<close>): command records, the manager and its durable
  state, and one definition per operation or critical section. \<open>Start\<close> and the collector
  of a command's output run concurrently with everything else, so they are split where the
  code releases its locks. Clock readings, random identifiers, the outcome of system calls
  and of the child process are arguments. Human-readable messages are not modelled.
\<close>

section \<open>Data\<close>

text \<open>The state is a string in Go; \<open>OtherState\<close> is any string that is not one of the constants.\<close>

datatype command_state = Starting | Running | Exited | Signaled | Lost | OtherState string

definition terminal :: "command_state \<Rightarrow> bool" where
  "terminal s = (s = Exited \<or> s = Signaled \<or> s = Lost)"

record request =
  rq_version :: int
  rq_operation :: string
  rq_request_id :: string
  rq_command_id :: string
  rq_argv :: "string list"
  rq_cwd :: string
  rq_env :: "(string \<times> string) list"
  rq_after :: nat
  rq_data :: bytes
  rq_signal :: string
  rq_timeout_ms :: int

record command =
  cm_id :: string
  request_id :: string
  argv :: "string list"
  cwd :: string
  cmd_env :: "string list"
  spec_hash :: string
  state :: command_state
  exit_code :: "int option"
  signal_name :: string
  created_at :: time
  started_at :: time
  finished_at :: time
  next_seq :: nat

record response =
  rs_ok :: bool
  rs_code :: string
  rs_command :: "command option"
  rs_commands :: "command list"
  rs_events :: "spool_event list"
  rs_next_cursor :: nat

definition success :: response where
  "success = \<lparr>rs_ok = True, rs_code = [], rs_command = None, rs_commands = [], rs_events = [], rs_next_cursor = 0\<rparr>"

definition failure :: "string \<Rightarrow> response" where
  "failure code = success\<lparr>rs_ok := False, rs_code := code\<rparr>"

definition with_command :: "command \<Rightarrow> response" where
  "with_command c = success\<lparr>rs_command := Some c\<rparr>"

definition max_commands :: nat where "max_commands = 256"
definition metadata_max :: nat where "metadata_max = 8192"
definition disk_overhead_reserve :: nat where "disk_overhead_reserve = 65536"
definition max_request_bytes :: nat where "max_request_bytes = 1048576"
definition max_stdin_bytes :: nat where "max_stdin_bytes = 65536"

text \<open>
  What the manager takes from the standard library and the file system: \<open>json_spec\<close> and
  \<open>json_metadata\<close> are \<open>json.Marshal\<close> of a specification and of a record, \<open>hash256\<close> is SHA-256,
  \<open>eval_symlinks\<close> and \<open>stat_dir\<close> read the file system (\<open>None\<close>: an error).
\<close>

record supervisor_env =
  json_spec :: "string list \<Rightarrow> string \<Rightarrow> string list \<Rightarrow> bytes"
  json_metadata :: "command \<Rightarrow> bytes"
  hash256 :: "bytes \<Rightarrow> bytes"
  eval_symlinks :: "string \<Rightarrow> string option"
  stat_dir :: "string \<Rightarrow> bool option"
  workspace_dir :: string

section \<open>Durable state\<close>

text \<open>
  The metadata file of a command holds its record without the environment, which has no
  JSON field; the spool is the directory of the same command.
\<close>

record disk =
  metadata :: "string \<rightharpoonup> command"
  spools :: "string \<rightharpoonup> spool_dir"

definition stored :: "command \<Rightarrow> command" where
  "stored c = c\<lparr>cmd_env := []\<rparr>"

text \<open>
  The atomic replacement of the metadata file: written and synced; failed before the rename,
  leaving the old file; or failed after it (the directory could not be synced).
\<close>

datatype persist_outcome = Synced | NotRenamed | NotSynced

definition persist_command ::
    "supervisor_env \<Rightarrow> persist_outcome \<Rightarrow> command \<Rightarrow> disk \<Rightarrow> bool \<times> disk" where
  "persist_command env out cmd d =
     (if length (json_metadata env cmd) + 1 > metadata_max then (False, d)
      else case out of
        Synced \<Rightarrow> (True, d\<lparr>metadata := (metadata d)(cm_id cmd \<mapsto> stored cmd)\<rparr>)
      | NotRenamed \<Rightarrow> (False, d)
      | NotSynced \<Rightarrow> (False, d\<lparr>metadata := (metadata d)(cm_id cmd \<mapsto> stored cmd)\<rparr>))"

definition append_event ::
    "append_io \<Rightarrow> string \<Rightarrow> spool_event \<Rightarrow> nat \<Rightarrow> disk \<Rightarrow> bool \<times> disk" where
  "append_event io i ev budget d =
     (case append_bounded_event io (spools d i) ev budget of
        (err, dir) \<Rightarrow> (err = None, d\<lparr>spools := (spools d)(i := dir)\<rparr>))"

section \<open>The manager\<close>

text \<open>
  \<open>phase\<close> says which goroutine still owns the command: \<open>Start\<close> between its reservation and
  the launch, the collector, or none.
\<close>

datatype phase = Launching | Collecting | Settled

record process_state =
  rcd :: command
  stdin_open :: bool
  contained :: bool
  phase :: phase
  spool_failed :: bool
  eofs :: nat

record manager =
  commands :: "string \<rightharpoonup> process_state"
  requests :: "string \<rightharpoonup> string"
  unhealthy :: bool
  disk_state :: disk

definition unhealthy_response :: response where
  "unhealthy_response = failure ''UNHEALTHY''"

definition mark_unhealthy :: "manager \<Rightarrow> manager" where
  "mark_unhealthy m = m\<lparr>unhealthy := True\<rparr>"

definition persist_transition ::
    "supervisor_env \<Rightarrow> persist_outcome \<Rightarrow> command \<Rightarrow> manager \<Rightarrow> bool \<times> manager" where
  "persist_transition env out cmd m =
     (case persist_command env out cmd (disk_state m) of
        (True, d) \<Rightarrow> (True, m\<lparr>disk_state := d\<rparr>)
      | (False, d) \<Rightarrow> (False, mark_unhealthy (m\<lparr>disk_state := d\<rparr>)))"

text \<open>\<open>normalize\<close>: the environment entries are sorted by key.\<close>

definition no_nul :: "string \<Rightarrow> bool" where
  "no_nul s = (CHR 0x00 \<notin> set s)"

definition env_entry_ok :: "string \<times> string \<Rightarrow> bool" where
  "env_entry_ok kv = (case kv of (key, val) \<Rightarrow>
     key \<noteq> [] \<and> length key \<le> 256 \<and> length val \<le> 65536
     \<and> CHR ''='' \<notin> set key \<and> no_nul key \<and> no_nul val)"

definition blank_command :: command where
  "blank_command = \<lparr>cm_id = [], request_id = [], argv = [], cwd = [], cmd_env = [], spec_hash = [],
     state = OtherState [], exit_code = None, signal_name = [], created_at = 0, started_at = 0,
     finished_at = 0, next_seq = 0\<rparr>"

definition normalize_req :: "supervisor_env \<Rightarrow> request \<Rightarrow> command option" where
  "normalize_req env req =
     (if rq_request_id req = [] \<or> length (rq_request_id req) > 200 then None
      else if rq_argv req = [] \<or> length (rq_argv req) > 256 then None
      else if list_ex (\<lambda>a. length a > 65536 \<or> \<not> no_nul a) (rq_argv req) then None
      else let c = path_clean (if rq_cwd req = [] then ''/workspace'' else rq_cwd req) in
        if c \<noteq> ''/workspace'' \<and> \<not> has_prefix c ''/workspace/'' then None
        else if length (rq_env req) > 256 then None
        else if \<not> list_all env_entry_ok (rq_env req) then None
        else let es = map (\<lambda>(k, v). k @ ''='' @ v) (sort_key fst (rq_env req));
                 spec = json_spec env (rq_argv req) c es
          in if length spec > max_request_bytes then None
             else Some (blank_command\<lparr>request_id := rq_request_id req, argv := rq_argv req, cwd := c,
                    cmd_env := es, spec_hash := hex_encode (hash256 env spec)\<rparr>))"

text \<open>\<open>commandCwd\<close>: the directory the child starts in, inside the resolved workspace.\<close>

definition command_cwd :: "supervisor_env \<Rightarrow> string \<Rightarrow> string option" where
  "command_cwd env c =
     (case eval_symlinks env (workspace_dir env) of None \<Rightarrow> None
      | Some root \<Rightarrow>
        (case eval_symlinks env (path_join [root, trim_prefix c ''/workspace'']) of None \<Rightarrow> None
         | Some target \<Rightarrow>
           if target \<noteq> root \<and> \<not> has_prefix target (root @ ''/'') then None
           else if stat_dir env target = Some True then Some target else None))"

section \<open>Start\<close>

datatype start_result = Respond response | Launch string

text \<open>The reservation of a record under a fresh identifier and its first durable write.\<close>

definition reserve_command ::
    "supervisor_env \<Rightarrow> command \<Rightarrow> string \<Rightarrow> time \<Rightarrow> persist_outcome \<Rightarrow> manager \<Rightarrow> start_result \<times> manager" where
  "reserve_command env c i now out m =
     (let cmd = c\<lparr>cm_id := i, state := Starting, created_at := now, next_seq := 1\<rparr>;
          st = \<lparr>rcd = cmd, stdin_open = False, contained = True, phase = Launching,
                spool_failed = False, eofs = 0\<rparr>;
          m1 = m\<lparr>commands := (commands m)(i \<mapsto> st),
                 requests := (requests m)(request_id cmd \<mapsto> i)\<rparr>
      in case persist_transition env out cmd m1 of
           (True, m2) \<Rightarrow> (Launch i, m2)
         | (False, m2) \<Rightarrow>
           (Respond unhealthy_response,
            m2\<lparr>commands := (commands m2)(i := None),
               requests := (requests m2)(request_id cmd := None)\<rparr>))"

text \<open>
  The first part of \<open>Start\<close>, up to the release of the manager's lock: checks, idempotency,
  reservation. \<open>rnd\<close> is the random identifier.
\<close>

definition start_reserve ::
    "supervisor_env \<Rightarrow> request \<Rightarrow> string option \<Rightarrow> time \<Rightarrow> persist_outcome \<Rightarrow> manager
     \<Rightarrow> start_result \<times> manager" where
  "start_reserve env req rnd now out m =
     (if unhealthy m then (Respond unhealthy_response, m)
      else case normalize_req env req of None \<Rightarrow> (Respond (failure ''INVALID_ARGUMENT''), m)
      | Some cmd \<Rightarrow>
        if command_cwd env (cwd cmd) = None then (Respond (failure ''INVALID_ARGUMENT''), m)
        else case requests m (request_id cmd) of
          Some i \<Rightarrow>
            (case commands m i of
               None \<Rightarrow> (Respond (failure ''PANIC''), m)
             | Some st \<Rightarrow>
               if spec_hash (rcd st) \<noteq> spec_hash cmd
               then (Respond (failure ''IDEMPOTENCY_CONFLICT''), m)
               else (Respond (with_command (rcd st)), m))
        | None \<Rightarrow>
          if card (dom (commands m)) \<ge> max_commands then (Respond (failure ''COMMAND_LIMIT''), m)
          else (case rnd of None \<Rightarrow> (Respond (failure ''INTERNAL''), m)
            | Some i \<Rightarrow> reserve_command env cmd i now out m))"

text \<open>The two ends of a launch: the child could not be started, or it runs.\<close>

definition start_failed ::
    "supervisor_env \<Rightarrow> string \<Rightarrow> time \<Rightarrow> persist_outcome \<Rightarrow> manager \<Rightarrow> response \<times> manager" where
  "start_failed env i now out m =
     (case commands m i of None \<Rightarrow> (failure ''PANIC'', m)
      | Some st \<Rightarrow>
        let lost = (rcd st)\<lparr>state := Lost, finished_at := now\<rparr> in
        case persist_transition env out lost m of
          (False, m1) \<Rightarrow> (unhealthy_response, m1\<lparr>commands := (commands m1)(i \<mapsto> st\<lparr>phase := Settled\<rparr>)\<rparr>)
        | (True, m1) \<Rightarrow>
          (failure ''START_FAILED'', m1\<lparr>commands := (commands m1)(i \<mapsto> st\<lparr>rcd := lost, phase := Settled\<rparr>)\<rparr>))"

definition start_running ::
    "supervisor_env \<Rightarrow> string \<Rightarrow> time \<Rightarrow> persist_outcome \<Rightarrow> manager \<Rightarrow> response \<times> manager" where
  "start_running env i now out m =
     (case commands m i of None \<Rightarrow> (failure ''PANIC'', m)
      | Some st \<Rightarrow>
        let started = (rcd st)\<lparr>state := Running, started_at := now\<rparr>;
            st1 = st\<lparr>stdin_open := True, phase := Collecting\<rparr> in
        case persist_transition env out started m of
          (True, m1) \<Rightarrow>
            (with_command started, m1\<lparr>commands := (commands m1)(i \<mapsto> st1\<lparr>rcd := started\<rparr>)\<rparr>)
        | (False, m1) \<Rightarrow> (unhealthy_response, m1\<lparr>commands := (commands m1)(i \<mapsto> st1)\<rparr>))"

section \<open>The collector\<close>

text \<open>One chunk of output: the event is made durable first, then the record that counts it.\<close>

definition collect_chunk ::
    "supervisor_env \<Rightarrow> append_io \<Rightarrow> persist_outcome \<Rightarrow> string \<Rightarrow> string \<Rightarrow> bytes \<Rightarrow> manager \<Rightarrow> manager" where
  "collect_chunk env io out i stream chunk m =
     (case commands m i of None \<Rightarrow> m
      | Some st \<Rightarrow>
        if spool_failed st then m
        else let ev = \<lparr>se_seq = next_seq (rcd st), se_stream = stream, se_data = chunk\<rparr> in
          case append_event io i ev (max_spool_bytes - disk_overhead_reserve) (disk_state m) of
            (False, d) \<Rightarrow>
              mark_unhealthy (m\<lparr>disk_state := d, commands := (commands m)(i \<mapsto> st\<lparr>spool_failed := True\<rparr>)\<rparr>)
          | (True, d) \<Rightarrow>
              let m1 = m\<lparr>disk_state := d\<rparr>;
                  advanced = (rcd st)\<lparr>next_seq := (next_seq (rcd st) + 1) mod 2 ^ 64\<rparr> in
              (case persist_transition env out advanced m1 of
                 (True, m2) \<Rightarrow> m2\<lparr>commands := (commands m2)(i \<mapsto> st\<lparr>rcd := advanced\<rparr>)\<rparr>
               | (False, m2) \<Rightarrow> m2\<lparr>commands := (commands m2)(i \<mapsto> st\<lparr>spool_failed := True\<rparr>)\<rparr>))"

definition collect_eof :: "string \<Rightarrow> manager \<Rightarrow> manager" where
  "collect_eof i m = (case commands m i of None \<Rightarrow> m
     | Some st \<Rightarrow> m\<lparr>commands := (commands m)(i \<mapsto> st\<lparr>eofs := eofs st + 1\<rparr>)\<rparr>)"

datatype wait_status = ExitStatus int | SignalStatus string

definition terminal_record :: "process_state \<Rightarrow> wait_status \<Rightarrow> time \<Rightarrow> command" where
  "terminal_record st status now =
     (let t = (rcd st)\<lparr>finished_at := now\<rparr> in
      if spool_failed st then t\<lparr>state := Lost\<rparr>
      else case status of
        SignalStatus name \<Rightarrow> t\<lparr>state := Signaled, signal_name := name\<rparr>
      | ExitStatus code \<Rightarrow> t\<lparr>state := Exited, exit_code := Some code\<rparr>)"

definition collect_finish ::
    "supervisor_env \<Rightarrow> persist_outcome \<Rightarrow> string \<Rightarrow> wait_status \<Rightarrow> time \<Rightarrow> manager \<Rightarrow> manager" where
  "collect_finish env out i status now m =
     (case commands m i of None \<Rightarrow> m
      | Some st \<Rightarrow>
        let t = terminal_record st status now;
            st1 = st\<lparr>stdin_open := False, phase := Settled\<rparr> in
        case persist_transition env out t m of
          (True, m1) \<Rightarrow> m1\<lparr>commands := (commands m1)(i \<mapsto> st1\<lparr>rcd := t\<rparr>)\<rparr>
        | (False, m1) \<Rightarrow> m1\<lparr>commands := (commands m1)(i \<mapsto> st1)\<rparr>)"

section \<open>The other operations\<close>

definition status :: "string \<Rightarrow> manager \<Rightarrow> response" where
  "status i m = (case commands m i of None \<Rightarrow> failure ''NOT_FOUND''
     | Some st \<Rightarrow> with_command (rcd st))"

text \<open>\<open>order\<close> is the order in which Go iterates over the command map.\<close>

definition list_commands :: "string list \<Rightarrow> manager \<Rightarrow> response" where
  "list_commands order m =
     success\<lparr>rs_commands := sort_key created_at (map rcd (List.map_filter (commands m) order))\<rparr>"

definition connect :: "read_io \<Rightarrow> string \<Rightarrow> nat \<Rightarrow> manager \<Rightarrow> response \<times> manager" where
  "connect io i after m =
     (case commands m i of None \<Rightarrow> (failure ''NOT_FOUND'', m)
      | Some st \<Rightarrow>
        let generated = next_seq (rcd st) - 1 in
        if after > generated then (failure ''INVALID_CURSOR'', m)
        else case read_events io (spools (disk_state m) (cm_id (rcd st))) of
          (res, dir) \<Rightarrow>
            let m1 = m\<lparr>disk_state := (disk_state m)\<lparr>spools := (spools (disk_state m))(cm_id (rcd st) := dir)\<rparr>\<rparr> in
            (case res of Inl _ \<Rightarrow> (failure ''INTERNAL'', m1)
             | Inr evs \<Rightarrow>
               let retained = (case evs of [] \<Rightarrow> next_seq (rcd st) | ev # _ \<Rightarrow> se_seq ev) in
               if after + 1 < retained then (failure ''CURSOR_EXPIRED'', m1)
               else ((with_command (rcd st))
                       \<lparr>rs_events := filter (\<lambda>ev. se_seq ev > after) evs, rs_next_cursor := generated\<rparr>, m1)))"

text \<open>\<open>written\<close> is whether the write to the pipe succeeds.\<close>

definition stdin :: "bool \<Rightarrow> string \<Rightarrow> bytes \<Rightarrow> manager \<Rightarrow> response" where
  "stdin write_ok i chunk m =
     (if length chunk > max_stdin_bytes then failure ''REQUEST_TOO_LARGE''
      else case commands m i of None \<Rightarrow> failure ''NOT_FOUND''
      | Some st \<Rightarrow>
        if state (rcd st) \<noteq> Running \<or> \<not> stdin_open st then failure ''NOT_RUNNING''
        else if write_ok then success else failure ''IO_ERROR'')"

definition close_stdin :: "bool \<Rightarrow> string \<Rightarrow> manager \<Rightarrow> response \<times> manager" where
  "close_stdin close_ok i m =
     (case commands m i of None \<Rightarrow> (failure ''NOT_FOUND'', m)
      | Some st \<Rightarrow>
        if \<not> stdin_open st then (failure ''STDIN_CLOSED'', m)
        else (if close_ok then success else failure ''IO_ERROR'',
              m\<lparr>commands := (commands m)(i \<mapsto> st\<lparr>stdin_open := False\<rparr>)\<rparr>))"

text \<open>\<open>kill_ok\<close> is whether the signal is delivered to the process group.\<close>

definition signal :: "bool \<Rightarrow> string \<Rightarrow> string \<Rightarrow> manager \<Rightarrow> response \<times> manager" where
  "signal kill_ok i name m =
     (case commands m i of None \<Rightarrow> (failure ''NOT_FOUND'', m)
      | Some st \<Rightarrow>
        if name \<noteq> ''TERM'' \<and> name \<noteq> ''KILL'' then (failure ''INVALID_SIGNAL'', m)
        else if state (rcd st) \<noteq> Running \<or> \<not> contained st then (failure ''NOT_RUNNING'', m)
        else (if kill_ok then success else failure ''SIGNAL_FAILED'',
              m\<lparr>commands := (commands m)(i \<mapsto> st\<lparr>stdin_open := False\<rparr>)\<rparr>))"

definition is_hard_failure :: "response \<Rightarrow> bool" where
  "is_hard_failure r = (\<not> rs_ok r \<and> rs_code r \<noteq> ''NOT_RUNNING'')"

fun kill_loop :: "(string \<Rightarrow> bool) \<Rightarrow> string list \<Rightarrow> response option \<Rightarrow> manager \<Rightarrow> response option \<times> manager" where
  "kill_loop kill_ok [] first m = (first, m)"
| "kill_loop kill_ok (i # is) first m =
     (case signal (kill_ok i) i ''KILL'' m of (r, m1) \<Rightarrow>
        kill_loop kill_ok is (if is_hard_failure r \<and> first = None then Some r else first) m1)"

definition kill_all :: "(string \<Rightarrow> bool) \<Rightarrow> string list \<Rightarrow> manager \<Rightarrow> response \<times> manager" where
  "kill_all kill_ok order m = (case kill_loop kill_ok order None m of
     (Some r, m1) \<Rightarrow> (r, m1) | (None, m1) \<Rightarrow> (success, m1))"

text \<open>
  \<open>Wait\<close> polls: it looks at a sequence of manager states, one per wake-up, and times out when
  the sequence ends. The timeout is clamped before.
\<close>

definition wait_timeout :: "int \<Rightarrow> int" where
  "wait_timeout t = (if t \<le> 0 \<or> t > 5 * minute then 30 * second else t)"

fun wait_polls :: "string \<Rightarrow> manager list \<Rightarrow> response" where
  "wait_polls i [] = failure ''WAIT_TIMEOUT''"
| "wait_polls i (m # ms) =
     (if unhealthy m then unhealthy_response
      else case commands m i of None \<Rightarrow> failure ''PANIC''
      | Some st \<Rightarrow> if terminal (state (rcd st)) then with_command (rcd st) else wait_polls i ms)"

definition wait :: "string \<Rightarrow> manager \<Rightarrow> manager list \<Rightarrow> response" where
  "wait i m later = (if commands m i = None then failure ''NOT_FOUND'' else wait_polls i (m # later))"

section \<open>Recovery\<close>

text \<open>
  \<open>load\<close>, over the entries of the commands directory in directory order: the name, whether it
  is a directory, and the decoded metadata (\<open>None\<close>: unreadable or not JSON).
\<close>

datatype load_error =
    TooManyRecords | BadMetadata string | BadIdentity string | BadSequence string | BadState string
  | SpoolUnreadable string | MissingOutput string | MetadataAhead string | PersistFailed string
  | DuplicateRequest string

definition recover_record ::
    "string \<Rightarrow> command \<Rightarrow> spool_event list \<Rightarrow> time \<Rightarrow> load_error + (command \<times> bool)" where
  "recover_record name cmd evs now =
     (let next = (if evs = [] then next_seq cmd else (se_seq (last evs) + 1) mod 2 ^ 64) in
      if evs = [] \<and> next_seq cmd \<noteq> 1 then Inl (MissingOutput name)
      else if next_seq cmd > next then Inl (MetadataAhead name)
      else let advanced = cmd\<lparr>next_seq := next\<rparr>;
               lost = (state cmd = Starting \<or> state cmd = Running);
               final = (if lost then advanced\<lparr>state := Lost, finished_at := now\<rparr> else advanced)
        in Inr (final, next_seq cmd < next \<or> lost))"

definition valid_identity :: "string \<Rightarrow> command \<Rightarrow> bool" where
  "valid_identity name cmd = (cm_id cmd = name \<and> length (cm_id cmd) = 48)"

definition load_command ::
    "supervisor_env \<Rightarrow> read_io \<Rightarrow> persist_outcome \<Rightarrow> time \<Rightarrow> string \<Rightarrow> manager
     \<Rightarrow> (load_error + unit) \<times> manager" where
  "load_command env io out now name m =
     (case metadata (disk_state m) name of None \<Rightarrow> (Inl (BadMetadata name), m)
      | Some cmd \<Rightarrow>
        if \<not> valid_identity name cmd then (Inl (BadIdentity name), m)
        else if next_seq cmd = 0 then (Inl (BadSequence name), m)
        else if \<not> terminal (state cmd) \<and> state cmd \<noteq> Starting \<and> state cmd \<noteq> Running
        then (Inl (BadState name), m)
        else if hex_decode (cm_id cmd) = None then (Inl (BadIdentity name), m)
        else case read_events io (spools (disk_state m) name) of
          (Inl _, dir) \<Rightarrow> (Inl (SpoolUnreadable name),
             m\<lparr>disk_state := (disk_state m)\<lparr>spools := (spools (disk_state m))(name := dir)\<rparr>\<rparr>)
        | (Inr evs, dir) \<Rightarrow>
          let m1 = m\<lparr>disk_state := (disk_state m)\<lparr>spools := (spools (disk_state m))(name := dir)\<rparr>\<rparr> in
          (case recover_record name cmd evs now of Inl e \<Rightarrow> (Inl e, m1)
           | Inr (final, dirty) \<Rightarrow>
             (case (if dirty then persist_command env out final (disk_state m1) else (True, disk_state m1)) of
                (False, d) \<Rightarrow> (Inl (PersistFailed name), m1\<lparr>disk_state := d\<rparr>)
              | (True, d) \<Rightarrow>
                let st = \<lparr>rcd = final, stdin_open = False, contained = False, phase = Settled,
                          spool_failed = False, eofs = 0\<rparr>;
                    m2 = m1\<lparr>disk_state := d, commands := (commands m1)(cm_id final \<mapsto> st)\<rparr>
                in if request_id final = [] then (Inr (), m2)
                   else if requests m2 (request_id final) \<noteq> None then (Inl (DuplicateRequest name), m2)
                   else (Inr (), m2\<lparr>requests := (requests m2)(request_id final \<mapsto> cm_id final)\<rparr>))))"

fun load_loop ::
    "supervisor_env \<Rightarrow> read_io \<Rightarrow> persist_outcome \<Rightarrow> time \<Rightarrow> (string \<times> bool) list \<Rightarrow> manager
     \<Rightarrow> (load_error + unit) \<times> manager" where
  "load_loop env io out now [] m = (Inr (), m)"
| "load_loop env io out now ((name, is_dir) # es) m =
     (if \<not> is_dir then load_loop env io out now es m
      else case load_command env io out now name m of
        (Inl e, m1) \<Rightarrow> (Inl e, m1)
      | (Inr _, m1) \<Rightarrow> load_loop env io out now es m1)"

definition fresh_manager :: "disk \<Rightarrow> manager" where
  "fresh_manager d = \<lparr>commands = Map.empty, requests = Map.empty, unhealthy = False, disk_state = d\<rparr>"

definition load ::
    "supervisor_env \<Rightarrow> read_io \<Rightarrow> persist_outcome \<Rightarrow> time \<Rightarrow> (string \<times> bool) list \<Rightarrow> disk
     \<Rightarrow> (load_error + unit) \<times> manager" where
  "load env io out now entries d =
     (if length entries > max_commands then (Inl TooManyRecords, fresh_manager d)
      else load_loop env io out now entries (fresh_manager d))"

section \<open>Dispatch\<close>

definition protocol_version :: int where "protocol_version = 1"

text \<open>
  The operations other than \<open>start\<close> and \<open>wait\<close>, which span several critical sections, as the
  dispatcher routes them; \<open>Inl\<close> names the two that are left to their own definitions.
\<close>

definition dispatch ::
    "read_io \<Rightarrow> bool \<Rightarrow> (string \<Rightarrow> bool) \<Rightarrow> string list \<Rightarrow> request \<Rightarrow> manager
     \<Rightarrow> (string + response) \<times> manager" where
  "dispatch io pipe_ok kill_ok order req m =
     (let opn = rq_operation req; i = rq_command_id req in
      if rq_version req \<noteq> protocol_version then (Inr (failure ''UNSUPPORTED_VERSION''), m)
      else if opn = ''health'' then (Inr (if unhealthy m then unhealthy_response else success), m)
      else if opn = ''start'' \<or> opn = ''wait'' then (Inl opn, m)
      else if opn = ''list'' then (Inr (list_commands order m), m)
      else if opn = ''status'' then (Inr (status i m), m)
      else if opn = ''connect'' then map_prod Inr id (connect io i (rq_after req) m)
      else if opn = ''stdin'' then (Inr (stdin pipe_ok i (rq_data req) m), m)
      else if opn = ''closeStdin'' then map_prod Inr id (close_stdin pipe_ok i m)
      else if opn = ''signal'' then map_prod Inr id (signal (kill_ok i) i (rq_signal req) m)
      else if opn = ''killAll'' then map_prod Inr id (kill_all kill_ok order m)
      else (Inr (failure ''UNKNOWN_OPERATION''), m))"

end
