(* ===== verification/Spool_Props.thy ===== *)
theory Spool_Props
  imports Spool
begin

text \<open>
  The event spool: records and segments round-trip, a torn tail costs exactly the record
  that was being written, and the append implements a bounded log: it keeps the newest
  events, drops whole old segments, and never exceeds its disk budget.
\<close>

section \<open>Big-endian numbers\<close>

lemma length_be_bytes [simp]: "length (be_bytes k n) = k"
  by (induction k arbitrary: n) simp_all

lemma foldl_be_value:
  "foldl (\<lambda>n c. 256 * n + byte_val c) a bs = a * 256 ^ length bs + be_value bs"
proof (induction bs arbitrary: a)
  case (Cons b bs)
  from Cons [of "256 * a + byte_val b"] Cons [of "byte_val b"] show ?case
    by (simp add: be_value_def algebra_simps)
qed (simp add: be_value_def)

lemma be_value_append: "be_value (bs @ cs) = be_value bs * 256 ^ length cs + be_value cs"
proof -
  have "be_value (bs @ cs) = foldl (\<lambda>n c. 256 * n + byte_val c) (be_value bs) cs"
    by (simp add: be_value_def)
  then show ?thesis by (simp only: foldl_be_value)
qed

lemma be_value_single [simp]: "be_value [c] = byte_val c"
  by (simp add: be_value_def)

lemma be_round_trip: "be_value (be_bytes k n) = n mod 256 ^ k"
proof (induction k arbitrary: n)
  case 0
  show ?case by (simp add: be_value_def)
next
  case (Suc k)
  have "be_value (be_bytes (Suc k) n) = (n div 256) mod 256 ^ k * 256 + n mod 256"
    using Suc [of "n div 256"] by (simp add: be_value_append)
  also have "\<dots> = n mod 256 ^ Suc k"
    using mod_mult2_eq [of n 256 "256 ^ k"] by simp
  finally show ?case .
qed

section \<open>Records\<close>

definition event_ok :: "spool_event \<Rightarrow> bool" where
  "event_ok ev \<longleftrightarrow> se_seq ev < 2 ^ 64 \<and> se_stream ev \<in> {''stdout'', ''stderr''}
     \<and> length (se_data ev) \<le> max_event_bytes"

lemma length_encode_event: "length (encode_event ev) = spool_record_header + length (se_data ev)"
  by (simp add: encode_event_def spool_record_header_def)

lemma encode_event_parts:
  assumes "event_ok ev"
  shows "take 8 (encode_event ev @ r) = be_bytes 8 (se_seq ev)"
    "(encode_event ev @ r) ! 8 = (if se_stream ev = ''stderr'' then CHR 0x02 else CHR 0x01)"
    "take 4 (drop 9 (encode_event ev @ r)) = be_bytes 4 (length (se_data ev))"
    "drop spool_record_header (encode_event ev @ r) = se_data ev @ r"
  by (simp_all add: encode_event_def nth_append drop_Cons' spool_record_header_def del: be_bytes.simps)

lemma event_numbers:
  assumes "event_ok ev"
  shows "be_value (be_bytes 8 (se_seq ev)) = se_seq ev"
    "be_value (be_bytes 4 (length (se_data ev))) = length (se_data ev)"
  using assms by (simp_all add: be_round_trip event_ok_def max_event_bytes_def del: be_bytes.simps)

lemma decode_cons:
  assumes ok: "event_ok ev"
  shows "decode_events (encode_event ev @ r) =
    (case decode_events r of Inl e \<Rightarrow> Inl e
     | Inr (evs, n) \<Rightarrow> Inr (ev # evs, length (encode_event ev) + n))"
proof -
  define w where "w = encode_event ev @ r"
  note parts = encode_event_parts [OF ok, of r, folded w_def]
  note nums = event_numbers [OF ok]
  have le: "\<not> max_event_bytes < length (se_data ev)" using ok by (simp add: event_ok_def)
  have len: "\<not> length w < spool_record_header" by (simp add: w_def length_encode_event)
  have size: "be_value (take 4 (drop 9 w)) = length (se_data ev)" by (simp only: parts nums)
  have seq: "be_value (take 8 w) = se_seq ev" by (simp only: parts nums)
  have ev: "\<lparr>se_seq = se_seq ev, se_stream = (if w ! 8 = CHR 0x02 then ''stderr'' else ''stdout''), se_data = se_data ev\<rparr> = ev"
    using ok parts(2) by (cases ev) (auto simp: event_ok_def)
  have "w ! 8 = CHR 0x01 \<or> w ! 8 = CHR 0x02" by (simp add: parts(2))
  then have "decode_events w = (case decode_events r of Inl e \<Rightarrow> Inl e
     | Inr (evs, n) \<Rightarrow> Inr (ev # evs, length (encode_event ev) + n))"
  proof (elim disjE)
    assume w: "w ! 8 = CHR 0x01"
    with ev have e: "\<lparr>se_seq = se_seq ev, se_stream = ''stdout'', se_data = se_data ev\<rparr> = ev" by simp
    show ?thesis
      by (subst decode_events.simps)
        (simp add: len size seq le w e parts(4) Let_def length_encode_event split: sum.split prod.split)
  next
    assume w: "w ! 8 = CHR 0x02"
    with ev have e: "\<lparr>se_seq = se_seq ev, se_stream = ''stderr'', se_data = se_data ev\<rparr> = ev" by simp
    show ?thesis
      by (subst decode_events.simps)
        (simp add: len size seq le w e parts(4) Let_def length_encode_event split: sum.split prod.split)
  qed
  then show ?thesis by (simp only: w_def)
qed

text \<open>A tail that is a proper prefix of a record decodes to nothing.\<close>

definition torn_record :: "bytes \<Rightarrow> bool" where
  "torn_record t \<longleftrightarrow> (\<exists>ev. event_ok ev \<and> (\<exists>k < length (encode_event ev). t = take k (encode_event ev)))"

lemma torn_record_Nil [simp]: "torn_record []"
  unfolding torn_record_def
  by (intro exI [of _ "\<lparr>se_seq = 0, se_stream = ''stdout'', se_data = []\<rparr>"] conjI exI [of _ 0])
    (simp_all add: event_ok_def encode_event_def)

lemma decode_torn:
  assumes "torn_record t"
  shows "decode_events t = Inr ([], 0)"
proof -
  from assms obtain ev k where ok: "event_ok ev" and k: "k < length (encode_event ev)" and t: "t = take k (encode_event ev)"
    unfolding torn_record_def by blast
  show ?thesis
  proof (cases "length t < spool_record_header")
    case True
    then show ?thesis by (subst decode_events.simps) simp
  next
    case False
    then have k13: "spool_record_header \<le> k" using t k by simp
    have "take 4 (drop 9 t) = take 4 (drop 9 (encode_event ev))"
      using k13 by (simp add: t drop_take min_def spool_record_header_def)
    then have size: "be_value (take 4 (drop 9 t)) = length (se_data ev)"
      using encode_event_parts(3) [OF ok, of "[]"] event_numbers(2) [OF ok] by simp
    have "length (drop spool_record_header t) < length (se_data ev)"
      using k k13 by (simp add: t length_encode_event)
    then show ?thesis
      using False size ok by (subst decode_events.simps) (simp add: Let_def event_ok_def)
  qed
qed

lemma decode_stream:
  assumes "\<forall>ev \<in> set evs. event_ok ev" and "torn_record t"
  shows "decode_events (concat (map encode_event evs) @ t) = Inr (evs, length (concat (map encode_event evs)))"
  using assms(1) by (induction evs) (simp_all add: decode_torn [OF assms(2)] decode_cons)

section \<open>Names of segment files\<close>

lemma segment_name_suffix [simp]: "has_suffix (segment_name n) ''.bin''"
proof -
  have "segment_name n = (replicate (20 - length (nat_digits n)) CHR ''0'' @ nat_digits n) @ ''.bin''"
    by (simp add: segment_name_def Let_def)
  then show ?thesis by (simp only: has_suffix_append)
qed

lemma segment_name_number:
  assumes "n < 2 ^ 64"
  shows "parse_uint64 (trim_suffix (segment_name n) ''.bin'') = Some n"
proof -
  have "segment_name n = (replicate (20 - length (nat_digits n)) CHR ''0'' @ nat_digits n) @ ''.bin''"
    by (simp add: segment_name_def Let_def)
  then have "trim_suffix (segment_name n) ''.bin'' = replicate (20 - length (nat_digits n)) CHR ''0'' @ nat_digits n"
    by (simp only: trim_suffix_append)
  then show ?thesis using assms by (simp add: parse_uint64_def parse_digits_zeros parse_nat_digits)
qed

lemma segment_name_inj: "segment_name m = segment_name n \<Longrightarrow> m < 2 ^ 64 \<Longrightarrow> n < 2 ^ 64 \<Longrightarrow> m = n"
  by (metis option.inject segment_name_number)

section \<open>Well-formed spool directories\<close>

text \<open>
  A spool holds one file per segment, each non-empty, in the order of their first events.
  \<open>spool_of\<close> is the directory of a list of segments; the log it stands for is the
  concatenation.
\<close>

definition seg_file :: "spool_event list \<Rightarrow> string \<times> spool_entry" where
  "seg_file es = (segment_name (se_seq (hd es)), File (encode_events es))"

definition spool_of :: "spool_event list list \<Rightarrow> spool_dir" where
  "spool_of segs = map seg_file segs"

definition log_ok :: "spool_event list \<Rightarrow> bool" where
  "log_ok evs \<longleftrightarrow> (\<forall>ev \<in> set evs. event_ok ev) \<and> sorted_wrt (<) (0 # map se_seq evs)"

definition segs_ok :: "spool_event list list \<Rightarrow> bool" where
  "segs_ok segs \<longleftrightarrow> [] \<notin> set segs \<and> log_ok (concat segs)"

definition seg_part :: "spool_event list \<Rightarrow> segment" where
  "seg_part es = \<lparr>seg_path = segment_name (se_seq (hd es)), seg_first = se_seq (hd es),
     seg_size = length (encode_events es)\<rparr>"

lemma log_ok_append:
  "log_ok (xs @ ys) \<longleftrightarrow> log_ok xs \<and> log_ok ys \<and> (\<forall>x \<in> set xs. \<forall>y \<in> set ys. se_seq x < se_seq y)"
  by (auto simp: log_ok_def sorted_wrt_append)

lemma segs_ok_Cons:
  "segs_ok (es # segs) \<longleftrightarrow> es \<noteq> [] \<and> log_ok es \<and> segs_ok segs
     \<and> (\<forall>x \<in> set es. \<forall>y \<in> set (concat segs). se_seq x < se_seq y)"
  by (auto simp: segs_ok_def log_ok_append)

lemma segs_ok_append:
  "segs_ok (xs @ ys) \<longleftrightarrow> segs_ok xs \<and> segs_ok ys
     \<and> (\<forall>x \<in> set (concat xs). \<forall>y \<in> set (concat ys). se_seq x < se_seq y)"
  by (auto simp: segs_ok_def log_ok_append)

lemma segs_ok_Nil [simp]: "segs_ok []"
  by (simp add: segs_ok_def log_ok_def)

lemma hd_seq: "segs_ok segs \<Longrightarrow> es \<in> set segs \<Longrightarrow> es \<noteq> [] \<and> hd es \<in> set es \<and> event_ok (hd es)"
proof -
  assume ok: "segs_ok segs" and es: "es \<in> set segs"
  then have "es \<noteq> []" by (auto simp: segs_ok_def)
  then have "hd es \<in> set es" by simp
  moreover from this es ok have "event_ok (hd es)" unfolding segs_ok_def log_ok_def by auto
  ultimately show ?thesis using \<open>es \<noteq> []\<close> by blast
qed

lemma segment_entries_spool:
  "segs_ok segs \<Longrightarrow> segment_entries (spool_of segs) = Inr (map seg_part segs)"
proof (induction segs)
  case (Cons es segs)
  then have "se_seq (hd es) < 2 ^ 64" using hd_seq [OF Cons.prems, of es] by (simp add: event_ok_def)
  then show ?case
    using Cons by (simp add: spool_of_def seg_file_def seg_part_def segment_name_number segs_ok_Cons)
qed (simp add: spool_of_def)

lemma sorted_firsts: "segs_ok segs \<Longrightarrow> sorted_wrt (<) (map (\<lambda>es. se_seq (hd es)) segs)"
proof (induction segs)
  case (Cons es segs)
  have "se_seq (hd es) < se_seq (hd fs)" if "fs \<in> set segs" for fs
  proof -
    have "hd fs \<in> set fs" using hd_seq [OF Cons.prems, of fs] that by simp
    then have "hd fs \<in> set (concat segs)" using that by auto
    then show ?thesis using Cons.prems by (auto simp: segs_ok_Cons)
  qed
  with Cons show ?case by (simp add: segs_ok_Cons)
qed simp

lemma segments_spool: "segs_ok segs \<Longrightarrow> segments (Some (spool_of segs)) = Inr (map seg_part segs)"
proof -
  assume ok: "segs_ok segs"
  have "map seg_first (map seg_part segs) = map (\<lambda>es. se_seq (hd es)) segs"
    by (simp add: seg_part_def)
  with sorted_firsts [OF ok] have "sorted (map seg_first (map seg_part segs))"
    by (simp only: strict_sorted_imp_sorted)
  then have "sort_key seg_first (map seg_part segs) = map seg_part segs"
    by (rule sort_key_id_if_sorted)
  then show ?thesis by (simp add: segments_def segment_entries_spool [OF ok])
qed

lemma segment_path [simp]: "seg_path (seg_part es) = segment_name (se_seq (hd es))"
  "seg_size (seg_part es) = length (encode_events es)"
  by (simp_all add: seg_part_def)

lemma spool_of_append [simp]: "spool_of (xs @ ys) = spool_of xs @ spool_of ys"
  "spool_of [es] = [(segment_name (se_seq (hd es)), File (encode_events es))]" "spool_of [] = []"
  by (simp_all add: spool_of_def seg_file_def)

lemma spool_names: "fst ` set (spool_of segs) = (\<lambda>es. segment_name (se_seq (hd es))) ` set segs"
  by (auto simp: spool_of_def seg_file_def image_image)

lemma new_name_fresh:
  assumes ok: "segs_ok segs" and n: "n < 2 ^ 64" "\<forall>ev \<in> set (concat segs). se_seq ev < n"
  shows "segment_name n \<notin> fst ` set (spool_of segs)"
proof
  assume "segment_name n \<in> fst ` set (spool_of segs)"
  then obtain es where es: "es \<in> set segs" "segment_name n = segment_name (se_seq (hd es))"
    by (auto simp: spool_names)
  note h = hd_seq [OF ok es(1)]
  then have "n = se_seq (hd es)" using es(2) n(1) segment_name_inj by (simp add: event_ok_def)
  moreover have "hd es \<in> set (concat segs)" using h es(1) by auto
  ultimately show False using n(2) by auto
qed

lemma distinct_spool: "segs_ok segs \<Longrightarrow> distinct (map fst (spool_of segs))"
proof (induction segs rule: rev_induct)
  case (snoc es segs)
  then have ok: "segs_ok segs" and es: "segs_ok [es]" by (simp_all add: segs_ok_append)
  note h = hd_seq [OF es, of es]
  have "segment_name (se_seq (hd es)) \<notin> fst ` set (spool_of segs)"
    by (rule new_name_fresh [OF ok]) (use h snoc.prems in \<open>auto simp: segs_ok_append event_ok_def\<close>)
  with snoc.IH [OF ok] show ?case by simp
qed simp

lemma map_of_spool:
  assumes "segs_ok segs" and "es \<in> set segs" and "d = spool_of segs @ extra"
  shows "map_of d (segment_name (se_seq (hd es))) = Some (File (encode_events es))"
proof -
  have "map_of (spool_of segs) (segment_name (se_seq (hd es))) = Some (File (encode_events es))"
    by (rule map_of_is_SomeI [OF distinct_spool [OF assms(1)]]) (use assms(2) in \<open>auto simp: spool_of_def seg_file_def\<close>)
  then show ?thesis by (simp add: assms(3))
qed

lemma dir_update_last:
  "n \<notin> fst ` set d \<Longrightarrow> dir_update n c (d @ [(n, x)]) = d @ [(n, File c)]"
  by (induction d) auto

section \<open>Reading\<close>

lemma check_sequence_sorted:
  "sorted_wrt (<) (p # map se_seq evs) \<Longrightarrow> check_sequence p evs = Some (last (p # map se_seq evs))"
  by (induction evs arbitrary: p) auto

lemma encode_events_take [simp]:
  "take (length spool_version_header) (encode_events es @ t) = spool_version_header"
  "drop (length spool_version_header) (encode_events es @ t) = concat (map encode_event es) @ t"
  "length (encode_events es) = length spool_version_header + length (concat (map encode_event es))"
  by (simp_all add: encode_events_def)

lemma read_parts_step:
  assumes ok: "\<forall>ev \<in> set es. event_ok ev" and seq: "sorted_wrt (<) (p # map se_seq es)" and torn: "torn_record t"
    and fl: "map_of d (seg_path part) = Some (File (encode_events es @ t))" and io: "can_read io (seg_path part)"
    and size: "seg_size part = length (encode_events es @ t)"
    and last: "t = [] \<or> rest = [] \<and> can_truncate io"
  shows "read_parts io d p acc (part # rest)
    = read_parts io (if t = [] then d else dir_update (seg_path part) (encode_events es) d) (last (p # map se_seq es)) (acc @ es) rest"
proof -
  define c where "c = encode_events es @ t"
  define len where "len = length (concat (map encode_event es))"
  have c: "map_of d (seg_path part) = Some (File c)" "take (length spool_version_header) c = spool_version_header"
    "decode_events (drop (length spool_version_header) c) = Inr (es, len)"
    "take (len + length spool_version_header) c = encode_events es"
    using fl decode_stream [OF ok torn] by (simp_all add: c_def len_def encode_events_def)
  have sz: "len + length spool_version_header = seg_size part \<longleftrightarrow> t = []"
    by (auto simp: size len_def encode_events_def)
  show ?thesis
  proof (cases "t = []")
    case True
    then show ?thesis
      using sz io check_sequence_sorted [OF seq] by (simp add: c Let_def del: last.simps check_sequence.simps)
  next
    case False
    then show ?thesis
      using sz io last check_sequence_sorted [OF seq]
      by (simp add: c Let_def del: last.simps check_sequence.simps)
  qed
qed

lemma last_seq_less:
  "sorted_wrt (<) (p # map se_seq (es @ rest)) \<Longrightarrow> sorted_wrt (<) (last (p # map se_seq es) # map se_seq rest)"
proof (induction es arbitrary: p)
  case (Cons e es)
  then show ?case using Cons.IH [of "se_seq e"] by simp
qed simp

lemma read_parts_full:
  assumes "\<forall>es \<in> set segs. \<forall>ev \<in> set es. event_ok ev" and "sorted_wrt (<) (p # map se_seq (concat segs @ later))"
    and "\<forall>es \<in> set segs. map_of d (segment_name (se_seq (hd es))) = Some (File (encode_events es))"
    and "\<forall>n. can_read io n"
  shows "\<exists>p'. read_parts io d p acc (map seg_part segs @ rest) = read_parts io d p' (acc @ concat segs) rest
    \<and> sorted_wrt (<) (p' # map se_seq later)"
  using assms
proof (induction segs arbitrary: p acc)
  case (Cons es segs)
  have srt: "sorted_wrt (<) (p # map se_seq (es @ concat segs @ later))" using Cons.prems(2) by simp
  have "sorted_wrt (<) (p # map se_seq es)" using srt by (auto simp: sorted_wrt_append)
  then have "read_parts io d p acc (seg_part es # map seg_part segs @ rest)
      = read_parts io d (last (p # map se_seq es)) (acc @ es) (map seg_part segs @ rest)"
    using read_parts_step [of es p "[]" d "seg_part es" io "map seg_part segs @ rest" acc]
      Cons.prems by simp
  moreover note Cons.IH [OF _ last_seq_less [OF srt], of "acc @ es"]
  ultimately show ?case using Cons.prems by simp
qed auto

text \<open>
  A spool whose last file, named after \<open>n\<close>, ends in the torn record \<open>t\<close>, as a crash or a
  failing write leaves it.
\<close>

definition spool_torn :: "spool_event list list \<Rightarrow> nat \<Rightarrow> spool_event list \<Rightarrow> bytes \<Rightarrow> spool_dir" where
  "spool_torn segs n es t = spool_of segs @ [(segment_name n, File (encode_events es @ t))]"

lemma segments_extra:
  assumes ok: "segs_ok segs" and n: "n < 2 ^ 64" "\<forall>ev \<in> set (concat segs). se_seq ev < n"
  shows "segments (Some (spool_of segs @ [(segment_name n, File cont)])) = Inr (map seg_part segs
    @ [\<lparr>seg_path = segment_name n, seg_first = n, seg_size = length cont\<rparr>])"
proof -
  let ?p = "\<lparr>seg_path = segment_name n, seg_first = n, seg_size = length cont\<rparr>"
  have app: "segment_entries (d @ [(segment_name n, File c)]) = (case segment_entries d of Inl e \<Rightarrow> Inl e
      | Inr ps \<Rightarrow> Inr (ps @ [\<lparr>seg_path = segment_name n, seg_first = n, seg_size = length c\<rparr>]))" for d c
    by (induction d rule: segment_entries.induct)
      (auto simp: segment_name_number [OF n(1)] split: spool_entry.splits option.splits sum.splits)
  have "segment_entries (spool_of segs @ [(segment_name n, File cont)]) = Inr (map seg_part segs @ [?p])"
    by (simp add: app segment_entries_spool [OF ok])
  moreover have "sorted (map seg_first (map seg_part segs @ [?p]))"
  proof -
    have "\<forall>fs \<in> set segs. se_seq (hd fs) < n" using hd_seq [OF ok] n(2) by fastforce
    moreover have "sorted (map (\<lambda>es. se_seq (hd es)) segs)"
      using sorted_firsts [OF ok] by (rule strict_sorted_imp_sorted)
    ultimately show ?thesis by (auto simp: sorted_append seg_part_def o_def intro: less_imp_le)
  qed
  ultimately show ?thesis by (simp add: segments_def sort_key_id_if_sorted)
qed

lemma segments_torn:
  assumes "segs_ok segs" and "n < 2 ^ 64" "\<forall>ev \<in> set (concat segs). se_seq ev < n"
  shows "segments (Some (spool_torn segs n es t)) = Inr (map seg_part segs
    @ [\<lparr>seg_path = segment_name n, seg_first = n, seg_size = length (encode_events es @ t)\<rparr>])"
  unfolding spool_torn_def by (rule segments_extra [OF assms])

lemma read_torn:
  assumes ok: "segs_ok segs" and n: "n < 2 ^ 64" "\<forall>ev \<in> set (concat segs). se_seq ev < n"
    and es: "log_ok (concat segs @ es)" and t: "torn_record t" and io: "\<forall>x. can_read io x" "can_truncate io"
  shows "read_events io (Some (spool_torn segs n es t)) = (Inr (concat segs @ es), Some (spool_torn segs n es []))"
proof -
  let ?d = "spool_torn segs n es t"
  define pt where "pt = \<lparr>seg_path = segment_name n, seg_first = n, seg_size = length (encode_events es @ t)\<rparr>"
  have pt: "seg_path pt = segment_name n" "seg_size pt = length (encode_events es @ t)" by (simp_all add: pt_def)
  have fresh: "segment_name n \<notin> fst ` set (spool_of segs)" by (rule new_name_fresh [OF ok n])
  have evs: "\<forall>es \<in> set segs. \<forall>ev \<in> set es. event_ok ev" "\<forall>ev \<in> set es. event_ok ev"
    and srt: "sorted_wrt (<) (0 # map se_seq (concat segs @ es))" using es by (auto simp: log_ok_def)
  have files: "\<forall>es \<in> set segs. map_of ?d (segment_name (se_seq (hd es))) = Some (File (encode_events es))"
    using map_of_spool [OF ok _ spool_torn_def] by blast
  obtain p where p: "read_parts io ?d 0 [] (map seg_part segs @ [pt]) = read_parts io ?d p (concat segs) [pt]"
    "sorted_wrt (<) (p # map se_seq es)"
    using read_parts_full [OF evs(1) srt files io(1), of "[]" "[pt]"] by auto
  have "map_of ?d (segment_name n) = Some (File (encode_events es @ t))"
    using fresh by (auto simp: spool_torn_def map_add_def dest: map_of_SomeD split: option.split)
      (metis fst_conv image_eqI map_of_SomeD)
  then have "read_parts io ?d p (concat segs) [pt]
      = (Inr (concat segs @ es), if t = [] then ?d else dir_update (segment_name n) (encode_events es) ?d)"
    by (subst read_parts_step [OF evs(2) p(2) t]) (use io in \<open>simp_all add: pt\<close>)
  moreover have "(if t = [] then ?d else dir_update (segment_name n) (encode_events es) ?d) = spool_torn segs n es []"
    using dir_update_last [OF fresh] by (simp add: spool_torn_def)
  ultimately show ?thesis
    by (simp add: read_events_def segments_torn [OF ok n, of es t, folded pt_def] p(1) del: read_parts.simps)
qed

text \<open>A last file cut short inside its version header makes the whole spool unreadable.\<close>

lemma read_short_header:
  assumes ok: "segs_ok segs" and n: "n < 2 ^ 64" "\<forall>ev \<in> set (concat segs). se_seq ev < n"
    and k: "k < length spool_version_header" and io: "\<forall>x. can_read io x"
  shows "read_events io (Some (spool_of segs @ [(segment_name n, File (take k spool_version_header))]))
    = (Inl (UnsupportedVersion (segment_name n)), Some (spool_of segs @ [(segment_name n, File (take k spool_version_header))]))"
proof -
  define c where "c = take k spool_version_header"
  define d where "d = spool_of segs @ [(segment_name n, File c)]"
  define pt where "pt = \<lparr>seg_path = segment_name n, seg_first = n, seg_size = length c\<rparr>"
  have evs: "\<forall>es \<in> set segs. \<forall>ev \<in> set es. event_ok ev" and srt: "sorted_wrt (<) (0 # map se_seq (concat segs @ []))"
    using ok by (auto simp: segs_ok_def log_ok_def)
  have files: "\<forall>es \<in> set segs. map_of d (segment_name (se_seq (hd es))) = Some (File (encode_events es))"
    using map_of_spool [OF ok _ d_def] by blast
  obtain p where p: "read_parts io d 0 [] (map seg_part segs @ [pt]) = read_parts io d p (concat segs) [pt]"
    using read_parts_full [OF evs srt files io, of "[]" "[pt]"] by auto
  have "segment_name n \<notin> fst ` set (spool_of segs)" by (rule new_name_fresh [OF ok n])
  then have "map_of (spool_of segs) (segment_name n) = None" by (simp add: map_of_eq_None_iff)
  then have "map_of d (segment_name n) = Some (File c)" by (simp add: d_def map_add_def)
  moreover have "take (length spool_version_header) c \<noteq> spool_version_header"
  proof
    assume "take (length spool_version_header) c = spool_version_header"
    then have "length spool_version_header \<le> length c" by (metis length_take min.cobounded1)
    then show False using k by (simp add: c_def)
  qed
  ultimately have "read_parts io d p (concat segs) [pt] = (Inl (UnsupportedVersion (segment_name n)), d)"
    using io by (simp add: pt_def)
  then show ?thesis
    using p segments_extra [OF ok n, of c, folded d_def pt_def]
    by (simp add: read_events_def c_def [symmetric] d_def [symmetric] del: read_parts.simps)
qed

lemma read_clean:
  assumes "segs_ok segs" and "\<forall>x. can_read io x"
  shows "read_events io (Some (spool_of segs)) = (Inr (concat segs), Some (spool_of segs))"
proof -
  have evs: "\<forall>es \<in> set segs. \<forall>ev \<in> set es. event_ok ev" and srt: "sorted_wrt (<) (0 # map se_seq (concat segs @ []))"
    using assms(1) by (auto simp: segs_ok_def log_ok_def)
  have files: "\<forall>es \<in> set segs. map_of (spool_of segs) (segment_name (se_seq (hd es))) = Some (File (encode_events es))"
    using map_of_spool [OF assms(1), of _ _ "[]"] by simp
  show ?thesis
    using read_parts_full [OF evs srt files assms(2), of "[]" "[]"]
    by (auto simp: read_events_def segments_spool [OF assms(1)])
qed

section \<open>Appending\<close>

definition spool_bytes :: "spool_event list list \<Rightarrow> nat" where
  "spool_bytes segs = sum_list (map (\<lambda>es. length (encode_events es)) segs)"

lemma spool_bytes_simps [simp]:
  "spool_bytes [] = 0" "spool_bytes (es # segs) = length (encode_events es) + spool_bytes segs"
  "spool_bytes (xs @ ys) = spool_bytes xs + spool_bytes ys"
  by (simp_all add: spool_bytes_def)

lemma used_bytes: "sum_list (map seg_size (map seg_part segs)) = spool_bytes segs"
  by (simp add: spool_bytes_def o_def)

lemma spool_of_Cons: "spool_of (es # segs) = (segment_name (se_seq (hd es)), File (encode_events es)) # spool_of segs"
  by (simp add: spool_of_def seg_file_def)

text \<open>
  Eviction removes segments from the oldest on, and no more than needed: \<open>j\<close> of them.
\<close>

lemma evict_spool:
  "\<exists>j ok. evict quota budget (spool_bytes segs) ab (map seg_part segs) (spool_of segs)
      = (ok, map seg_part (drop j segs), spool_of (drop j segs))
    \<and> (ok \<longrightarrow> drop j segs = [] \<or> spool_bytes (drop j segs) + ab \<le> budget)
    \<and> (quota = None \<longrightarrow> ok)
    \<and> (spool_bytes segs + ab \<le> budget \<longrightarrow> j = 0)
    \<and> (0 < j \<longrightarrow> budget < spool_bytes (drop (j - 1) segs) + ab) \<and> j \<le> length segs"
proof (induction segs arbitrary: quota)
  case Nil
  show ?case by (intro exI [of _ 0] exI [of _ True]) simp
next
  case (Cons es segs)
  show ?case
  proof (cases "spool_bytes (es # segs) + ab > budget \<and> quota \<noteq> Some 0")
    case False
    then show ?thesis
      by (intro exI [of _ 0] exI [of _ "\<not> spool_bytes (es # segs) + ab > budget"]) auto
  next
    case True
    from Cons.IH [of "map_option (\<lambda>n. n - 1) quota"] obtain j ok where
      j: "evict (map_option (\<lambda>n. n - 1) quota) budget (spool_bytes segs) ab (map seg_part segs) (spool_of segs)
        = (ok, map seg_part (drop j segs), spool_of (drop j segs))"
      "ok \<longrightarrow> drop j segs = [] \<or> spool_bytes (drop j segs) + ab \<le> budget"
      "quota = None \<longrightarrow> ok"
      "0 < j \<longrightarrow> budget < spool_bytes (drop (j - 1) segs) + ab" "j \<le> length segs" by auto
    have "evict quota budget (spool_bytes (es # segs)) ab (map seg_part (es # segs)) (spool_of (es # segs))
        = (ok, map seg_part (drop j segs), spool_of (drop j segs))"
      using True j(1) by (simp add: spool_of_Cons)
    moreover have "0 < Suc j \<longrightarrow> budget < spool_bytes (drop (Suc j - 1) (es # segs)) + ab"
      using True j(4) by (cases j) auto
    ultimately show ?thesis
      using True j(2,3,5) by (intro exI [of _ "Suc j"] exI [of _ ok]) auto
  qed
qed

definition can_append :: "spool_event list list \<Rightarrow> spool_event \<Rightarrow> nat \<Rightarrow> bool" where
  "can_append segs ev budget \<longleftrightarrow> segs_ok segs \<and> event_ok ev \<and> 0 < se_seq ev
     \<and> (\<forall>x \<in> set (concat segs). se_seq x < se_seq ev)
     \<and> length (encode_events [ev]) \<le> budget"

lemma encode_events_snoc: "encode_events (es @ [ev]) = encode_events es @ encode_event ev"
  by (simp add: encode_events_def)

text \<open>The state of the directory after the data was written, in part or in full.\<close>

text \<open>The three shapes of an append: a new segment after eviction, or a longer last segment.\<close>

definition rotates :: "spool_event list list \<Rightarrow> spool_event \<Rightarrow> nat \<Rightarrow> bool" where
  "rotates segs ev budget \<longleftrightarrow> segs = []
     \<or> length (encode_events (last segs)) + length (encode_event ev) > spool_segment_bytes
     \<or> spool_bytes segs + length (encode_event ev) > budget"

lemma segs_ok_drop: "segs_ok segs \<Longrightarrow> segs_ok (drop j segs)"
  by (metis append_take_drop_id segs_ok_append)

lemma concat_drop_subset: "set (concat (drop j segs)) \<subseteq> set (concat segs)"
  by (auto dest: in_set_dropD)

lemma append_rotate:
  assumes c: "can_append segs ev budget" and r: "rotates segs ev budget" and io: "mkdir_ok io"
  shows "\<exists>j ok. (removes io = None \<longrightarrow> ok) \<and> (spool_bytes segs + length (encode_events [ev]) \<le> budget \<longrightarrow> j = 0)
    \<and> (0 < j \<longrightarrow> budget < spool_bytes (drop (j - 1) segs) + length (encode_events [ev])) \<and> j \<le> length segs
    \<and> (ok \<longrightarrow> drop j segs = [] \<or> spool_bytes (drop j segs) + length (encode_events [ev]) \<le> budget)
    \<and> append_bounded_event io (Some (spool_of segs)) ev budget =
       (if \<not> ok \<or> \<not> open_ok io then (Some SpoolIO, Some (spool_of (drop j segs)))
        else case written io of
          None \<Rightarrow> (if sync_ok io \<and> dirsync_ok io then None else Some SpoolIO, Some (spool_of (drop j segs @ [[ev]])))
        | Some k \<Rightarrow> (Some SpoolIO, Some (spool_of (drop j segs)
            @ [(segment_name (se_seq ev), File (take k (encode_events [ev])))])))"
proof -
  let ?ab = "length (encode_event ev) + length spool_version_header"
  obtain j ok where e: "evict (removes io) budget (spool_bytes segs) ?ab (map seg_part segs) (spool_of segs)
      = (ok, map seg_part (drop j segs), spool_of (drop j segs))"
    and j: "ok \<longrightarrow> drop j segs = [] \<or> spool_bytes (drop j segs) + ?ab \<le> budget" "removes io = None \<longrightarrow> ok"
      "spool_bytes segs + ?ab \<le> budget \<longrightarrow> j = 0" "0 < j \<longrightarrow> budget < spool_bytes (drop (j - 1) segs) + ?ab"
      "j \<le> length segs"
    using evict_spool [of "removes io" budget segs ?ab] by (elim exE conjE) (rule that)
  have ok: "segs_ok segs" "se_seq ev < 2 ^ 64" and len: "\<not> max_event_bytes < length (se_data ev)"
    and bud: "\<not> budget < ?ab"
    using c by (auto simp: can_append_def event_ok_def encode_events_def)
  let ?d = "spool_of (drop j segs)" and ?n = "segment_name (se_seq ev)"
  have fresh: "?n \<notin> fst ` set ?d"
    by (rule new_name_fresh [OF segs_ok_drop [OF ok(1)] ok(2)])
      (use c concat_drop_subset [of j segs] in \<open>auto simp: can_append_def\<close>)
  then have none: "map_of ?d ?n = None" by (simp add: map_of_eq_None_iff)
  have rot: "map seg_part segs = [] \<or> spool_segment_bytes < seg_size (last (map seg_part segs)) + length (encode_event ev)
      \<or> budget < spool_bytes segs + length (encode_event ev)"
    using r by (cases "segs = []") (simp_all add: rotates_def last_map)
  have enc: "spool_version_header @ encode_event ev = encode_events [ev]" "?ab = length (encode_events [ev])"
    by (simp_all add: encode_events_def)
  have app: "append_bounded_event io (Some (spool_of segs)) ev budget =
      (if \<not> ok then (Some SpoolIO, Some ?d) else if \<not> open_ok io then (Some SpoolIO, Some ?d)
       else (case write_file io ?n [] (encode_events [ev]) (?d @ [(?n, File [])]) of
          (w, d2) \<Rightarrow> (if w \<and> dirsync_ok io then None else Some SpoolIO, Some d2)))"
  proof -
    have T: "(map seg_part segs = [] \<or> spool_segment_bytes < seg_size (last (map seg_part segs)) + length (encode_event ev)
      \<or> budget < spool_bytes segs + length (encode_event ev)) = True" using rot by blast
    have F: "(max_event_bytes < length (se_data ev)) = False" "(budget < ?ab) = False" "(\<not> mkdir_ok io) = False"
      using len bud io by blast+
    show ?thesis
      unfolding append_bounded_event_def Let_def option.case segments_spool [OF ok(1)] sum.case used_bytes T F
        if_True if_False e
      by (cases ok) (simp_all only: prod.case bool.case none enc(1), simp_all)
  qed
  have "append_bounded_event io (Some (spool_of segs)) ev budget =
       (if \<not> ok \<or> \<not> open_ok io then (Some SpoolIO, Some ?d)
        else case written io of
          None \<Rightarrow> (if sync_ok io \<and> dirsync_ok io then None else Some SpoolIO, Some (spool_of (drop j segs @ [[ev]])))
        | Some k \<Rightarrow> (Some SpoolIO, Some (?d @ [(?n, File (take k (encode_events [ev])))])))"
    unfolding app write_file_def dir_update_last [OF fresh] append_Nil
    by (cases "written io"; cases ok; cases "open_ok io") (simp_all only: option.case prod.case simp_thms if_True if_False spool_of_append list.sel)
  with j show ?thesis unfolding enc(2) by (intro exI [of _ j] exI [of _ ok] conjI)
qed

lemma append_in_place:
  assumes c: "can_append segs ev budget" and r: "\<not> rotates segs ev budget" and io: "mkdir_ok io" "open_ok io"
  shows "append_bounded_event io (Some (spool_of segs)) ev budget =
    (case written io of
       None \<Rightarrow> (if sync_ok io then None else Some SpoolIO, Some (spool_of (butlast segs @ [last segs @ [ev]])))
     | Some k \<Rightarrow> (Some SpoolIO, Some (spool_torn (butlast segs) (se_seq (hd (last segs))) (last segs) (take k (encode_event ev)))))"
proof -
  from r have ne: "segs \<noteq> []" by (simp add: rotates_def)
  define xs es where "xs = butlast segs" and "es = last segs"
  have segs: "segs = xs @ [es]" using ne by (simp add: xs_def es_def)
  have ok: "segs_ok segs" and len: "\<not> max_event_bytes < length (se_data ev)"
    and bud: "\<not> budget < length (encode_event ev) + length spool_version_header"
    using c by (auto simp: can_append_def event_ok_def encode_events_def)
  have oke: "segs_ok xs" "es \<noteq> []" "event_ok (hd es)"
    "\<forall>x \<in> set (concat xs). se_seq x < se_seq (hd es)"
    using ok hd_seq [OF ok, of es] by (auto simp: segs segs_ok_append)
  let ?n = "segment_name (se_seq (hd es))"
  have fresh: "?n \<notin> fst ` set (spool_of xs)"
    by (rule new_name_fresh [OF oke(1)]) (use oke in \<open>auto simp: event_ok_def\<close>)
  have fl: "map_of (spool_of segs) ?n = Some (File (encode_events es))"
    by (rule map_of_spool [OF ok, of es _ "[]"]) (simp_all add: segs)
  have rot: "\<not> (map seg_part segs = [] \<or> spool_segment_bytes < seg_size (last (map seg_part segs)) + length (encode_event ev)
      \<or> budget < spool_bytes segs + length (encode_event ev))"
    using r by (simp add: rotates_def last_map)
  have last: "seg_path (last (map seg_part segs)) = ?n" by (simp add: segs)
  have app: "append_bounded_event io (Some (spool_of segs)) ev budget =
      (case write_file io ?n (encode_events es) (encode_event ev) (spool_of segs) of
         (w, d2) \<Rightarrow> (if w then None else Some SpoolIO, Some d2))"
  proof -
    have F: "(max_event_bytes < length (se_data ev)) = False" "(budget < length (encode_event ev) + length spool_version_header) = False"
      "(\<not> mkdir_ok io) = False" "(\<not> open_ok io) = False"
      "(map seg_part segs = [] \<or> spool_segment_bytes < seg_size (last (map seg_part segs)) + length (encode_event ev)
      \<or> budget < spool_bytes segs + length (encode_event ev)) = False" using len bud io rot by blast+
    show ?thesis
      unfolding append_bounded_event_def Let_def option.case segments_spool [OF ok] sum.case used_bytes F
        if_True if_False last fl spool_entry.case ..
  qed
  have hd: "hd (es @ [ev]) = hd es" using oke(2) by simp
  show ?thesis
    unfolding app xs_def [symmetric] es_def [symmetric]
    by (simp add: segs write_file_def dir_update_last [OF fresh] spool_torn_def encode_events_snoc hd split: option.split)
qed

lemma append_absent:
  "mkdir_ok io \<Longrightarrow> length (encode_events [ev]) \<le> budget \<Longrightarrow> length (se_data ev) \<le> max_event_bytes \<Longrightarrow>
   append_bounded_event io None ev budget = append_bounded_event io (Some (spool_of [])) ev budget"
  by (simp add: append_bounded_event_def Let_def encode_events_def)

lemma concat_drop_log: "\<exists>k. concat (drop j segs) = drop k (concat segs)"
proof -
  have "concat segs = concat (take j segs) @ concat (drop j segs)"
    by (simp add: concat_append [symmetric])
  then show ?thesis by (metis append_eq_conv_conj)
qed

lemma segs_ok_rotated:
  assumes c: "can_append segs ev budget"
  shows "segs_ok (drop j segs @ [[ev]])"
  using c segs_ok_drop [of segs j] concat_drop_subset [of j segs]
  by (auto simp: segs_ok_append can_append_def) (auto simp: segs_ok_def log_ok_def)

lemma segs_ok_extended:
  assumes c: "can_append segs ev budget" and ne: "segs \<noteq> []"
  shows "segs_ok (butlast segs @ [last segs @ [ev]])"
    and "concat (butlast segs @ [last segs @ [ev]]) = concat segs @ [ev]"
proof -
  show eq: "concat (butlast segs @ [last segs @ [ev]]) = concat segs @ [ev]"
    using ne by (metis append.assoc append_butlast_last_id concat_append concat.simps append_Nil2)
  have "log_ok (concat segs @ [ev])"
    using c by (auto simp: can_append_def segs_ok_def log_ok_append) (auto simp: log_ok_def)
  then show "segs_ok (butlast segs @ [last segs @ [ev]])"
    using c unfolding segs_ok_def eq by (auto simp: can_append_def segs_ok_def dest: in_set_butlastD)
qed

section \<open>Properties\<close>

text \<open>
  C32. The append refines a bounded log. On a well-formed spool it succeeds, the directory
  it leaves is well-formed and reads back as the old log without a prefix, followed by the
  new event; the disk budget is kept, and nothing is dropped while the new event fits.
\<close>

theorem append_refines_log:
  assumes c: "can_append segs ev budget"
  shows "\<exists>segs' k. append_bounded_event no_faults (Some (spool_of segs)) ev budget = (None, Some (spool_of segs'))
    \<and> segs_ok segs' \<and> concat segs' = drop k (concat segs) @ [ev]
    \<and> (spool_bytes segs \<le> budget \<longrightarrow> spool_bytes segs' \<le> budget)
    \<and> (spool_bytes segs + length (encode_events [ev]) \<le> budget \<longrightarrow> k = 0)
    \<and> (\<forall>io. (\<forall>x. can_read io x) \<longrightarrow>
         read_events io (Some (spool_of segs')) = (Inr (drop k (concat segs) @ [ev]), Some (spool_of segs')))"
proof (cases "rotates segs ev budget")
  case True
  have io: "mkdir_ok no_faults" by (simp add: no_faults_def)
  obtain j ok where j: "ok" "spool_bytes segs + length (encode_events [ev]) \<le> budget \<longrightarrow> j = 0"
    "drop j segs = [] \<or> spool_bytes (drop j segs) + length (encode_events [ev]) \<le> budget"
    and app: "append_bounded_event no_faults (Some (spool_of segs)) ev budget = (None, Some (spool_of (drop j segs @ [[ev]])))"
    using append_rotate [OF c True io] by (fastforce simp: no_faults_def)
  let ?s = "drop j segs @ [[ev]]"
  have ok: "segs_ok ?s" by (rule segs_ok_rotated [OF c])
  obtain k where k: "concat (drop j segs) = drop k (concat segs)" "j = 0 \<longrightarrow> k = 0"
    using concat_drop_log [of j segs] by (cases "j = 0") auto
  have cc: "concat ?s = drop k (concat segs) @ [ev]" by (simp add: k)
  have "spool_bytes ?s \<le> budget" using j(3) c by (auto simp: can_append_def)
  then show ?thesis
    using app ok cc k(2) j(2) read_clean [OF ok] by (intro exI [of _ ?s] exI [of _ k]) simp
next
  case False
  then have ne: "segs \<noteq> []" and fit: "spool_bytes segs + length (encode_event ev) \<le> budget"
    by (simp_all add: rotates_def)
  let ?s = "butlast segs @ [last segs @ [ev]]"
  have app: "append_bounded_event no_faults (Some (spool_of segs)) ev budget = (None, Some (spool_of ?s))"
    using append_in_place [OF c False, of no_faults] by (simp add: no_faults_def)
  note ok = segs_ok_extended [OF c ne]
  have "spool_bytes ?s = spool_bytes segs + length (encode_event ev)"
    using ne by (subst (2) append_butlast_last_id [OF ne, symmetric]) (simp only: spool_bytes_simps encode_events_snoc length_append)
  with fit app ok read_clean [OF ok(1)] show ?thesis
    by (intro exI [of _ ?s] exI [of _ 0]) simp
qed

definition sample_event :: "nat \<Rightarrow> spool_event" where
  "sample_event n = \<lparr>se_seq = n, se_stream = ''stdout'', se_data = ''hi''\<rparr>"

lemma sample_can_append: "can_append [[sample_event 1, sample_event 2]] (sample_event 3) 1000"
  by (simp add: can_append_def segs_ok_def log_ok_def event_ok_def sample_event_def encode_events_def
      length_encode_event spool_record_header_def spool_version_header_def max_event_bytes_def)

lemma append_refines_log_witness:
  "\<exists>segs' k. fst (append_bounded_event no_faults (Some (spool_of [[sample_event 1, sample_event 2]])) (sample_event 3) 1000) = None
    \<and> concat segs' = drop k [sample_event 1, sample_event 2] @ [sample_event 3]"
  using append_refines_log [OF sample_can_append] by auto

lemma log_ok_drop: "log_ok evs \<Longrightarrow> log_ok (drop k evs)"
  by (metis append_take_drop_id log_ok_append)

lemma torn_prefix:
  assumes "event_ok ev"
  shows "torn_record (take k (encode_event ev)) \<or> take k (encode_event ev) = encode_event ev"
  using assms unfolding torn_record_def by (metis linorder_not_less take_all)

text \<open>What a file holding a prefix of the bytes of the new record reads back as.\<close>

lemma read_partial_write:
  assumes ok: "segs_ok segs" and ev: "event_ok ev" and n: "n < 2 ^ 64" "\<forall>x \<in> set (concat segs). se_seq x < n"
    and es: "log_ok (concat segs @ es @ [ev])" and io: "\<forall>x. can_read io x" "can_truncate io"
  shows "fst (read_events io (Some (spool_torn segs n es (take k (encode_event ev)))))
    \<in> {Inr (concat segs @ es), Inr (concat segs @ es @ [ev])}"
proof (cases "torn_record (take k (encode_event ev))")
  case True
  have "log_ok (concat segs @ es)" using es by (simp add: log_ok_append)
  then show ?thesis using read_torn [OF ok n _ True io] by simp
next
  case False
  then have "take k (encode_event ev) = encode_event ev" using torn_prefix [OF ev] by blast
  then have "spool_torn segs n es (take k (encode_event ev)) = spool_torn segs n (es @ [ev]) []"
    by (simp add: spool_torn_def encode_events_snoc)
  then show ?thesis using read_torn [OF ok n es torn_record_Nil io] by simp
qed

text \<open>What reading the spool yields after an append, whatever happened to it.\<close>

definition append_outcome ::
    "append_io \<Rightarrow> read_io \<Rightarrow> spool_event list list \<Rightarrow> spool_event \<Rightarrow> nat \<Rightarrow> spool_error option \<Rightarrow> (string \<times> spool_entry) list \<Rightarrow> bool" where
  "append_outcome io rio segs ev budget err d \<longleftrightarrow>
    (\<exists>k. fst (read_events rio (Some d)) = Inr (drop k (concat segs) @ [ev])
            \<or> (err \<noteq> None \<and> fst (read_events rio (Some d)) = Inr (drop k (concat segs))))
    \<or> (err \<noteq> None \<and> rotates segs ev budget \<and> (\<exists>m < 8. written io = Some m)
        \<and> fst (read_events rio (Some d)) = Inl (UnsupportedVersion (segment_name (se_seq ev))))"

lemma append_fault_rotating:
  assumes c: "can_append segs ev budget" and io: "mkdir_ok io" and rd: "\<forall>x. can_read rio x" "can_truncate rio"
    and app: "append_bounded_event io (Some (spool_of segs)) ev budget = (err, Some d)"
    and new_segment: "rotates segs ev budget"
  shows "append_outcome io rio segs ev budget err d"
proof -
  from c have ev: "event_ok ev" "se_seq ev < 2 ^ 64" and ok: "segs_ok segs" by (auto simp: can_append_def event_ok_def)
  obtain j b where j: "append_bounded_event io (Some (spool_of segs)) ev budget =
       (if \<not> b \<or> \<not> open_ok io then (Some SpoolIO, Some (spool_of (drop j segs)))
        else case written io of
          None \<Rightarrow> (if sync_ok io \<and> dirsync_ok io then None else Some SpoolIO, Some (spool_of (drop j segs @ [[ev]])))
        | Some k \<Rightarrow> (Some SpoolIO, Some (spool_of (drop j segs)
            @ [(segment_name (se_seq ev), File (take k (encode_events [ev])))])))"
    using append_rotate [OF c new_segment io] by (elim exE conjE) (rule that)
  obtain k where k: "concat (drop j segs) = drop k (concat segs)" using concat_drop_log by blast
  have okj: "segs_ok (drop j segs)" by (rule segs_ok_drop [OF ok])
  have new: "\<forall>x \<in> set (concat (drop j segs)). se_seq x < se_seq ev"
    using c concat_drop_subset [of j segs] by (auto simp: can_append_def)
  have log: "log_ok (concat (drop j segs) @ [] @ [ev])"
    using segs_ok_rotated [OF c, of j] by (simp add: segs_ok_def)
  consider "err = Some SpoolIO" "d = spool_of (drop j segs)"
    | "d = spool_of (drop j segs @ [[ev]])"
    | m where "written io = Some m" "err = Some SpoolIO"
        "d = spool_of (drop j segs) @ [(segment_name (se_seq ev), File (take m (encode_events [ev])))]"
    using app unfolding j by (cases "written io"; cases "\<not> b \<or> \<not> open_ok io") auto
  then show ?thesis
  proof cases
    case 1
    then show ?thesis using read_clean [OF okj rd(1)] k by (auto simp: append_outcome_def)
  next
    case 2
    then show ?thesis using read_clean [OF segs_ok_rotated [OF c, of j] rd(1)] k by (auto simp: append_outcome_def)
  next
    case (3 m)
    show ?thesis
    proof (cases "m < length spool_version_header")
      case True
      then have "take m (encode_events [ev]) = take m spool_version_header" by (simp add: encode_events_def)
      with 3 True new_segment show ?thesis
        using read_short_header [OF okj ev(2) new True rd(1)] by (simp add: spool_version_header_def append_outcome_def)
    next
      case False
      then have "take m (encode_events [ev]) = encode_events [] @ take (m - length spool_version_header) (encode_event ev)"
        by (simp add: encode_events_def)
      then have "d = spool_torn (drop j segs) (se_seq ev) [] (take (m - length spool_version_header) (encode_event ev))"
        using 3 by (simp add: spool_torn_def)
      then show ?thesis
        using read_partial_write [OF okj ev(1) ev(2) new log rd] 3(2) k by (auto simp: append_outcome_def)
    qed
  qed
qed

lemma append_fault_in_place:
  assumes c: "can_append segs ev budget" and io: "mkdir_ok io" and rd: "\<forall>x. can_read rio x" "can_truncate rio"
    and app: "append_bounded_event io (Some (spool_of segs)) ev budget = (err, Some d)"
    and same_segment: "\<not> rotates segs ev budget"
  shows "append_outcome io rio segs ev budget err d"
proof -
  from c have ev: "event_ok ev" and ok: "segs_ok segs" by (auto simp: can_append_def)
  from same_segment have ne: "segs \<noteq> []" by (simp add: rotates_def)
  note ext = segs_ok_extended [OF c ne]
  show ?thesis
  proof (cases "open_ok io")
    case op: False
    then have "err = Some SpoolIO \<and> d = spool_of segs"
    proof -
      have F: "(max_event_bytes < length (se_data ev)) = False" "(budget < length (encode_event ev) + length spool_version_header) = False"
        using c by (auto simp: can_append_def event_ok_def encode_events_def)
      have R: "(map seg_part segs = [] \<or> spool_segment_bytes < seg_size (last (map seg_part segs)) + length (encode_event ev)
        \<or> budget < spool_bytes segs + length (encode_event ev)) = False"
        using same_segment by (simp add: rotates_def last_map)
      show ?thesis
        using app op io
        unfolding append_bounded_event_def Let_def option.case segments_spool [OF ok] sum.case used_bytes F R if_False
        by (auto split: option.splits spool_entry.splits)
    qed
    then show ?thesis using read_clean [OF ok rd(1)] by (auto simp: append_outcome_def intro: exI [of _ 0])
  next
    case True
    note app' = append_in_place [OF c same_segment io True]
    show ?thesis
    proof (cases "written io")
      case None
      then have "d = spool_of (butlast segs @ [last segs @ [ev]])" using app app' by simp
      then have "fst (read_events rio (Some d)) = Inr (drop 0 (concat segs) @ [ev])"
        using read_clean [OF ext(1) rd(1)] by (simp only: ext(2) fst_conv drop_0)
      then show ?thesis unfolding append_outcome_def by blast
    next
      case (Some m)
      define xs es where "xs = butlast segs" and "es = last segs"
      have segs: "segs = xs @ [es]" using ne by (simp add: xs_def es_def)
      have oke: "segs_ok xs" "es \<noteq> []" "event_ok (hd es)" "\<forall>x \<in> set (concat xs). se_seq x < se_seq (hd es)"
        using ok hd_seq [OF ok, of es] by (auto simp: segs segs_ok_append)
      have log: "log_ok (concat xs @ es @ [ev])" using ext by (simp add: segs_ok_def segs)
      have d: "d = spool_torn xs (se_seq (hd es)) es (take m (encode_event ev))" "err = Some SpoolIO"
        using app app' Some by (simp_all add: xs_def es_def)
      have "fst (read_events rio (Some d)) \<in> {Inr (concat xs @ es), Inr (concat xs @ es @ [ev])}"
        unfolding d by (rule read_partial_write [OF oke(1) ev _ oke(4) log rd]) (use oke(3) in \<open>simp add: event_ok_def\<close>)
      then show ?thesis unfolding append_outcome_def by (intro disjI1 [OF exI [of _ 0]]) (auto simp: segs d)
    qed
  qed
qed

text \<open>
  C33. A failed or interrupted append never damages the log: whatever system call fails and
  however many bytes the write leaves behind, reading the spool afterwards yields a suffix
  of the old log, or such a suffix with the complete new event (always the latter when the
  append reported success). The one exception is exact: a new segment whose eight-byte
  version header is itself cut short makes reading fail.
\<close>

theorem append_fault_atomic:
  assumes c: "can_append segs ev budget" and io: "mkdir_ok io" and rd: "\<forall>x. can_read rio x" "can_truncate rio"
    and app: "append_bounded_event io (Some (spool_of segs)) ev budget = (err, Some d)"
  shows "(\<exists>k. fst (read_events rio (Some d)) = Inr (drop k (concat segs) @ [ev])
            \<or> (err \<noteq> None \<and> fst (read_events rio (Some d)) = Inr (drop k (concat segs))))
    \<or> (err \<noteq> None \<and> rotates segs ev budget \<and> (\<exists>m < 8. written io = Some m)
        \<and> fst (read_events rio (Some d)) = Inl (UnsupportedVersion (segment_name (se_seq ev))))"
  using append_fault_rotating [OF c io rd app] append_fault_in_place [OF c io rd app] unfolding append_outcome_def by blast

lemma append_fault_atomic_witness:
  "\<exists>d. append_bounded_event (no_faults\<lparr>written := Some 5\<rparr>) (Some (spool_of [])) (sample_event 1) 1000 = (Some SpoolIO, Some d)
    \<and> fst (read_events \<lparr>can_read = (\<lambda>_. True), can_truncate = True\<rparr> (Some d)) = Inl (UnsupportedVersion (segment_name 1))"
proof -
  have c: "can_append [] (sample_event 1) 1000"
    by (simp add: can_append_def event_ok_def sample_event_def encode_events_def
      length_encode_event spool_record_header_def spool_version_header_def max_event_bytes_def)
  let ?io = "no_faults\<lparr>written := Some 5\<rparr>" and ?rio = "\<lparr>can_read = (\<lambda>_. True), can_truncate = True\<rparr>"
  obtain d where d: "append_bounded_event ?io (Some (spool_of [])) (sample_event 1) 1000 = (Some SpoolIO, Some d)"
    and n: "d = [(segment_name 1, File (take 5 (encode_events [sample_event 1])))]"
    using append_rotate [OF c, of ?io] by (auto simp: rotates_def no_faults_def sample_event_def)
  have "\<not> is_ok (fst (read_events ?rio (Some d)))"
    using read_short_header [of "[]" 1 5 ?rio] by (simp add: n encode_events_def spool_version_header_def)
  with d append_fault_atomic [OF c, of ?io ?rio "Some SpoolIO" d] show ?thesis
    by (auto simp: no_faults_def sample_event_def)
qed

text \<open>
  The record format round-trips, and tolerates a torn tail: decoding what was encoded,
  followed by any proper prefix of a further record, yields exactly the complete records and
  the number of bytes they take, which is where recovery truncates the file.
\<close>

theorem spool_round_trip:
  assumes "\<forall>ev \<in> set evs. event_ok ev" and "event_ok last_ev" and "k < length (encode_event last_ev)"
  shows "decode_events (drop (length spool_version_header) (encode_events evs @ take k (encode_event last_ev)))
    = Inr (evs, length (encode_events evs) - length spool_version_header)"
proof -
  have "torn_record (take k (encode_event last_ev))" using assms(2,3) unfolding torn_record_def by blast
  from decode_stream [OF assms(1) this] show ?thesis by (simp add: encode_events_def)
qed

lemma spool_round_trip_witness:
  "decode_events (drop 8 (encode_events [sample_event 1, sample_event 2] @ take 14 (encode_event (sample_event 3))))
   = Inr ([sample_event 1, sample_event 2], 30)"
  using spool_round_trip [of "[sample_event 1, sample_event 2]" "sample_event 3" 14]
  by (simp add: event_ok_def sample_event_def max_event_bytes_def length_encode_event spool_record_header_def
      spool_version_header_def encode_events_def)

end
