(* ===== verification/Supervisor_Inv.thy ===== *)
theory Supervisor_Inv
  imports Supervisor Spool_Props Transition
begin

text \<open>
  The supervisor as a step relation: launches, collectors and requests of many clients, in
  any interleaving, with any system call failing; and the invariant of its reachable states.
\<close>

section \<open>Steps\<close>

definition random_id :: "string \<Rightarrow> bool" where
  "random_id i = (length i = 48 \<and> hex_decode i \<noteq> None)"

text \<open>
  \<open>randomID\<close> yields 24 random bytes in hexadecimal; the premise of the first rule says that
  they are not those of a record or directory that exists. A reader delivers non-empty
  chunks of at most \<open>MaxEventBytes\<close>; the sequence number stays below \<open>2 ^ 64\<close>.
\<close>

definition fresh_id :: "string option \<Rightarrow> manager \<Rightarrow> bool" where
  "fresh_id rnd m \<longleftrightarrow> (\<forall>i. rnd = Some i \<longrightarrow> random_id i \<and> commands m i = None
     \<and> metadata (disk_state m) i = None \<and> spools (disk_state m) i = None)"

inductive sup_step :: "supervisor_env \<Rightarrow> manager \<Rightarrow> manager \<Rightarrow> bool" for env :: supervisor_env where
  ss_reserve: "start_reserve env req rnd now out m = (res, m') \<Longrightarrow> fresh_id rnd m \<Longrightarrow> sup_step env m m'"
| ss_start_failed: "commands m i = Some st \<Longrightarrow> phase st = Launching \<Longrightarrow>
    start_failed env i now out m = (r, m') \<Longrightarrow> sup_step env m m'"
| ss_start_running: "commands m i = Some st \<Longrightarrow> phase st = Launching \<Longrightarrow>
    start_running env i now out m = (r, m') \<Longrightarrow> sup_step env m m'"
| ss_chunk: "commands m i = Some st \<Longrightarrow> phase st = Collecting \<Longrightarrow> eofs st < 2 \<Longrightarrow>
    chunk \<noteq> [] \<Longrightarrow> length chunk \<le> max_event_bytes \<Longrightarrow> stream \<in> {''stdout'', ''stderr''} \<Longrightarrow>
    next_seq (rcd st) + 1 < 2 ^ 64 \<Longrightarrow> sup_step env m (collect_chunk env io out i stream chunk m)"
| ss_eof: "commands m i = Some st \<Longrightarrow> phase st = Collecting \<Longrightarrow> eofs st < 2 \<Longrightarrow>
    sup_step env m (collect_eof i m)"
| ss_finish: "commands m i = Some st \<Longrightarrow> phase st = Collecting \<Longrightarrow> eofs st = 2 \<Longrightarrow>
    sup_step env m (collect_finish env out i ws now m)"
| ss_connect: "connect io i after m = (r, m') \<Longrightarrow> sup_step env m m'"
| ss_close_stdin: "close_stdin ok i m = (r, m') \<Longrightarrow> sup_step env m m'"
| ss_signal: "signal ok i name m = (r, m') \<Longrightarrow> sup_step env m m'"

section \<open>The invariant\<close>

text \<open>
  The retained events are those with the numbers from some first one up to the last counted;
  once there was output, some is retained.
\<close>

definition contiguous :: "spool_dir option \<Rightarrow> nat \<Rightarrow> bool" where
  "contiguous dir n \<longleftrightarrow> (\<exists>segs a. (dir = Some (spool_of segs) \<or> dir = None \<and> segs = []) \<and> segs_ok segs
     \<and> map se_seq (concat segs) = [a ..< n] \<and> 1 \<le> a \<and> a \<le> n \<and> (a = n \<longrightarrow> n = 1))"

definition phase_ok :: "process_state \<Rightarrow> bool" where
  "phase_ok st \<longleftrightarrow> (phase st = Launching \<longrightarrow> state (rcd st) = Starting \<and> \<not> spool_failed st)
     \<and> (phase st = Collecting \<longrightarrow> state (rcd st) \<in> {Starting, Running})
     \<and> state (rcd st) \<in> {Starting, Running, Exited, Signaled, Lost}"

definition cmd_ok :: "manager \<Rightarrow> string \<Rightarrow> process_state \<Rightarrow> bool" where
  "cmd_ok m i st \<longleftrightarrow> cm_id (rcd st) = i \<and> random_id i \<and> request_id (rcd st) \<noteq> []
     \<and> requests m (request_id (rcd st)) = Some i
     \<and> 1 \<le> next_seq (rcd st) \<and> next_seq (rcd st) < 2 ^ 64 \<and> phase_ok st
     \<and> (\<not> unhealthy m \<longrightarrow> metadata (disk_state m) i = Some (stored (rcd st)) \<and> \<not> spool_failed st)
     \<and> (\<not> spool_failed st \<longrightarrow> contiguous (spools (disk_state m) i) (next_seq (rcd st)))"

definition sup_inv :: "manager \<Rightarrow> bool" where
  "sup_inv m \<longleftrightarrow> finite (dom (commands m)) \<and> card (dom (commands m)) \<le> max_commands
     \<and> (\<forall>i st. commands m i = Some st \<longrightarrow> cmd_ok m i st)
     \<and> (\<forall>r i. requests m r = Some i \<longrightarrow> (\<exists>st. commands m i = Some st \<and> request_id (rcd st) = r))
     \<and> (\<not> unhealthy m \<longrightarrow> dom (metadata (disk_state m)) \<subseteq> dom (commands m))"

lemma contiguous_new: "contiguous None 1"
  unfolding contiguous_def by (intro exI [of _ "[]"] exI [of _ 1]) simp

lemma sup_invD: "sup_inv m \<Longrightarrow> commands m i = Some st \<Longrightarrow> cmd_ok m i st"
  by (simp add: sup_inv_def)

lemma sup_inv_request:
  "sup_inv m \<Longrightarrow> requests m r = Some i \<Longrightarrow> \<exists>st. commands m i = Some st \<and> request_id (rcd st) = r"
  by (simp add: sup_inv_def)

lemma sup_inv_disk:
  "sup_inv m \<Longrightarrow> \<not> unhealthy m \<Longrightarrow> dom (metadata (disk_state m)) \<subseteq> dom (commands m)"
  by (simp add: sup_inv_def)

section \<open>Durable writes\<close>

lemma persist_transition_frame:
  assumes "persist_transition env out c m = (b, m')"
  shows "commands m' = commands m" "requests m' = requests m" "spools (disk_state m') = spools (disk_state m)"
    "unhealthy m' = (unhealthy m \<or> \<not> b)"
    "b \<Longrightarrow> metadata (disk_state m') = (metadata (disk_state m))(cm_id c \<mapsto> stored c)"
    "j \<noteq> cm_id c \<Longrightarrow> metadata (disk_state m') j = metadata (disk_state m) j"
    "b \<Longrightarrow> length (json_metadata env c) + 1 \<le> metadata_max"
  using assms
  by (auto simp: persist_transition_def persist_command_def mark_unhealthy_def
      split: if_splits persist_outcome.splits)

text \<open>Replacing the state of one command, with the durable state of the others untouched.\<close>

lemma sup_inv_update:
  assumes inv: "sup_inv m" and st: "commands m i = Some st"
    and m': "commands m' = (commands m)(i \<mapsto> st')" "requests m' = requests m" "unhealthy m \<longrightarrow> unhealthy m'"
    and same: "request_id (rcd st') = request_id (rcd st)"
    and frame: "\<And>j. j \<noteq> i \<Longrightarrow> metadata (disk_state m') j = metadata (disk_state m) j"
      "\<And>j. j \<noteq> i \<Longrightarrow> spools (disk_state m') j = spools (disk_state m) j"
    and ok: "cmd_ok m' i st'"
  shows "sup_inv m'"
  unfolding sup_inv_def
proof (intro conjI allI impI)
  have d: "dom (commands m') = dom (commands m)" using st m'(1) by auto
  show "finite (dom (commands m'))" "card (dom (commands m')) \<le> max_commands"
    using inv by (simp_all add: d sup_inv_def)
  show "cmd_ok m' j s" if "commands m' j = Some s" for j s
  proof (cases "j = i")
    case True
    with that m'(1) ok show ?thesis by simp
  next
    case False
    with that m'(1) have "cmd_ok m j s" using sup_invD [OF inv] by simp
    then show ?thesis using m'(2,3) frame [OF False] by (auto simp: cmd_ok_def)
  qed
  show "\<exists>s. commands m' j = Some s \<and> request_id (rcd s) = r" if "requests m' r = Some j" for r j
    using sup_inv_request [OF inv] that m' st same by fastforce
  show "dom (metadata (disk_state m')) \<subseteq> dom (commands m')" if h: "\<not> unhealthy m'"
  proof
    fix j assume "j \<in> dom (metadata (disk_state m'))"
    then show "j \<in> dom (commands m')"
      using sup_inv_disk [OF inv] h m'(3) frame(1) [of j] st unfolding d by (cases "j = i") (auto simp: dom_def)
  qed
qed

lemma cmd_okD:
  assumes "cmd_ok m i st"
  shows "cm_id (rcd st) = i" "requests m (request_id (rcd st)) = Some i" "phase_ok st" "random_id i"
    "1 \<le> next_seq (rcd st)" "next_seq (rcd st) < 2 ^ 64" "request_id (rcd st) \<noteq> []"
    "\<not> unhealthy m \<Longrightarrow> metadata (disk_state m) i = Some (stored (rcd st))"
    "\<not> unhealthy m \<Longrightarrow> \<not> spool_failed st"
    "\<not> spool_failed st \<Longrightarrow> contiguous (spools (disk_state m) i) (next_seq (rcd st))"
  using assms by (auto simp: cmd_ok_def)

text \<open>A transition of the record: persisted, then installed; or not persisted, and not installed.\<close>

lemma sup_inv_transition:
  assumes inv: "sup_inv m" and st: "commands m i = Some st"
    and p: "persist_transition env out c m = (b, m1)"
    and c: "cm_id c = i" "request_id c = request_id (rcd st)" "next_seq c = next_seq (rcd st)"
    and st': "rcd st' = (if b then c else rcd st)" "spool_failed st' = spool_failed st" "phase_ok st'"
  shows "sup_inv (m1\<lparr>commands := (commands m1)(i \<mapsto> st')\<rparr>)"
proof (rule sup_inv_update [OF inv st])
  note f = persist_transition_frame [OF p]
  note ok = cmd_okD [OF sup_invD [OF inv st]]
  show "cmd_ok (m1\<lparr>commands := (commands m1)(i \<mapsto> st')\<rparr>) i st'"
    using ok c st' f(2-5) by (cases b) (simp_all add: cmd_ok_def)
qed (use persist_transition_frame [OF p] c st' in \<open>auto split: if_splits\<close>)

lemma sup_inv_start_failed:
  assumes inv: "sup_inv m" and st: "commands m i = Some st" "phase st = Launching"
  shows "sup_inv (snd (start_failed env i now out m))"
proof -
  let ?c = "(rcd st)\<lparr>state := Lost, finished_at := now\<rparr>"
  obtain b m1 where p: "persist_transition env out ?c m = (b, m1)" by fastforce
  note ok = cmd_okD [OF sup_invD [OF inv st(1)]]
  have "sup_inv (m1\<lparr>commands := (commands m1)(i \<mapsto> st\<lparr>rcd := if b then ?c else rcd st, phase := Settled\<rparr>)\<rparr>)"
    by (rule sup_inv_transition [OF inv st(1) p]) (use ok in \<open>auto simp: phase_ok_def\<close>)
  then show ?thesis using st p by (cases b) (simp_all add: start_failed_def Let_def)
qed

lemma sup_inv_start_running:
  assumes inv: "sup_inv m" and st: "commands m i = Some st" "phase st = Launching"
  shows "sup_inv (snd (start_running env i now out m))"
proof -
  let ?c = "(rcd st)\<lparr>state := Running, started_at := now\<rparr>"
  obtain b m1 where p: "persist_transition env out ?c m = (b, m1)" by fastforce
  note ok = cmd_okD [OF sup_invD [OF inv st(1)]]
  have "sup_inv (m1\<lparr>commands := (commands m1)(i \<mapsto>
      st\<lparr>stdin_open := True, phase := Collecting, rcd := if b then ?c else rcd st\<rparr>)\<rparr>)"
    by (rule sup_inv_transition [OF inv st(1) p]) (use ok st(2) in \<open>auto simp: phase_ok_def\<close>)
  then show ?thesis using st p by (cases b) (simp_all add: start_running_def Let_def)
qed

lemma sup_inv_finish:
  assumes inv: "sup_inv m" and st: "commands m i = Some st"
  shows "sup_inv (collect_finish env out i ws now m)"
proof -
  let ?c = "terminal_record st ws now"
  obtain b m1 where p: "persist_transition env out ?c m = (b, m1)" by fastforce
  note ok = cmd_okD [OF sup_invD [OF inv st(1)]]
  have "sup_inv (m1\<lparr>commands := (commands m1)(i \<mapsto>
      st\<lparr>stdin_open := False, phase := Settled, rcd := if b then ?c else rcd st\<rparr>)\<rparr>)"
    by (rule sup_inv_transition [OF inv st(1) p])
      (use ok in \<open>auto simp: phase_ok_def terminal_record_def Let_def split: wait_status.splits\<close>)
  then show ?thesis using st p by (cases b) (simp_all add: collect_finish_def Let_def)
qed

text \<open>Changes of a command that touch neither its record nor its spool.\<close>

lemma sup_inv_local:
  assumes inv: "sup_inv m" and st: "commands m i = Some st"
    and st': "rcd st' = rcd st" "spool_failed st' = spool_failed st" "phase st' = phase st"
  shows "sup_inv (m\<lparr>commands := (commands m)(i \<mapsto> st')\<rparr>)"
  by (rule sup_inv_update [OF inv st, where st' = st'])
    (use cmd_okD [OF sup_invD [OF inv st]] st' in \<open>auto simp: cmd_ok_def phase_ok_def\<close>)

lemma sup_inv_eof: "sup_inv m \<Longrightarrow> sup_inv (collect_eof i m)"
  by (auto simp: collect_eof_def intro: sup_inv_local split: option.split)

lemma sup_inv_close_stdin: "sup_inv m \<Longrightarrow> sup_inv (snd (close_stdin ok i m))"
  by (auto simp: close_stdin_def intro: sup_inv_local split: option.split)

lemma sup_inv_signal: "sup_inv m \<Longrightarrow> sup_inv (snd (signal ok i name m))"
  by (auto simp: signal_def intro: sup_inv_local split: option.split)


section \<open>Output\<close>

text \<open>A successful append on a well-formed spool, with any outcomes of the system calls.\<close>

lemma append_success:
  assumes c: "can_append segs ev budget"
    and dir: "dir = Some (spool_of segs) \<or> dir = None \<and> segs = []"
    and app: "append_bounded_event io dir ev budget = (None, dir')"
  shows "\<exists>segs' k. dir' = Some (spool_of segs') \<and> segs_ok segs' \<and> concat segs' = drop k (concat segs) @ [ev]"
proof -
  have io: "mkdir_ok io"
    using app by (rule contrapos_pp) (simp add: append_bounded_event_def Let_def)
  have some: "append_bounded_event io (Some (spool_of segs)) ev budget = (None, dir')"
    using dir
  proof (elim disjE conjE)
    assume "dir = None" "segs = []"
    with app append_absent [OF io, of ev budget] c show ?thesis by (auto simp: can_append_def event_ok_def)
  qed (use app in simp)
  show ?thesis
  proof (cases "rotates segs ev budget")
    case True
    obtain j b where j: "append_bounded_event io (Some (spool_of segs)) ev budget =
       (if \<not> b \<or> \<not> open_ok io then (Some SpoolIO, Some (spool_of (drop j segs)))
        else case written io of
          None \<Rightarrow> (if sync_ok io \<and> dirsync_ok io then None else Some SpoolIO, Some (spool_of (drop j segs @ [[ev]])))
        | Some k \<Rightarrow> (Some SpoolIO, Some (spool_of (drop j segs)
            @ [(segment_name (se_seq ev), File (take k (encode_events [ev])))])))"
      using append_rotate [OF c True io] by (elim exE conjE) (rule that)
    then have d: "dir' = Some (spool_of (drop j segs @ [[ev]]))"
      using some by (cases "\<not> b \<or> \<not> open_ok io"; cases "written io") (auto split: if_splits)
    obtain k where "concat (drop j segs) = drop k (concat segs)" using concat_drop_log by blast
    with d segs_ok_rotated [OF c, of j] show ?thesis
      by (intro exI [of _ "drop j segs @ [[ev]]"] exI [of _ k]) simp
  next
    case False
    have op: "open_ok io"
    proof (rule ccontr)
      assume op: "\<not> open_ok io"
      have ok: "segs_ok segs" using c by (simp add: can_append_def)
      have R: "(map seg_part segs = [] \<or> spool_segment_bytes < seg_size (last (map seg_part segs)) + length (encode_event ev)
        \<or> budget < spool_bytes segs + length (encode_event ev)) = False"
        using False by (simp add: rotates_def last_map)
      show False
        using some op
        unfolding append_bounded_event_def Let_def option.case segments_spool [OF ok] sum.case used_bytes R if_False
        by (auto split: option.splits spool_entry.splits if_splits)
    qed
    have ne: "segs \<noteq> []" using False by (simp add: rotates_def)
    note ext = segs_ok_extended [OF c ne]
    have "dir' = Some (spool_of (butlast segs @ [last segs @ [ev]]))"
      using some append_in_place [OF c False io op] by (cases "written io") (auto split: if_splits)
    with ext show ?thesis by (intro exI [of _ "butlast segs @ [last segs @ [ev]]"] exI [of _ 0]) (simp only: drop_0)
  qed
qed

lemma contiguous_append:
  assumes d: "contiguous dir n" and n: "n + 1 < 2 ^ 64" and ev: "se_seq ev = n" "event_ok ev"
    and bud: "max_event_bytes + 21 \<le> budget"
    and app: "append_bounded_event io dir ev budget = (None, dir')"
  shows "contiguous dir' (n + 1)"
proof -
  from d obtain segs a where dir: "dir = Some (spool_of segs) \<or> dir = None \<and> segs = []" and ok: "segs_ok segs"
    and seqs: "map se_seq (concat segs) = [a ..< n]" and a: "1 \<le> a" "a \<le> n" unfolding contiguous_def by blast
  have "set (map se_seq (concat segs)) = {a ..< n}" by (simp add: seqs del: set_map)
  then have less: "\<forall>x \<in> set (concat segs). se_seq x < n"
    by (metis atLeastLessThan_iff image_eqI list.set_map)
  have "can_append segs ev budget"
    using ok ev a less bud
    by (auto simp: can_append_def encode_events_def length_encode_event spool_record_header_def
        spool_version_header_def event_ok_def)
  from append_success [OF this dir app] obtain segs' k where s': "dir' = Some (spool_of segs')" "segs_ok segs'"
    "concat segs' = drop k (concat segs) @ [ev]" by blast
  have "map se_seq (concat segs') = drop k (map se_seq (concat segs)) @ [n]"
    by (simp add: s'(3) drop_map ev)
  also have "\<dots> = [min (a + k) n ..< n + 1]"
    by (simp add: seqs min_def)
  finally have m: "map se_seq (concat segs') = [min (a + k) n ..< n + 1]" .
  show ?thesis
    unfolding contiguous_def
    by (rule exI [of _ segs'], rule exI [of _ "min (a + k) n"]) (use s' m a in auto)
qed

lemma sup_inv_chunk:
  assumes inv: "sup_inv m" and st: "commands m i = Some st" "phase st = Collecting"
    and ch: "length chunk \<le> max_event_bytes" "stream \<in> {''stdout'', ''stderr''}" "next_seq (rcd st) + 1 < 2 ^ 64"
  shows "sup_inv (collect_chunk env io out i stream chunk m)"
proof (cases "spool_failed st")
  case True
  then show ?thesis using st inv by (simp add: collect_chunk_def)
next
  case nf: False
  let ?n = "next_seq (rcd st)" and ?dir = "spools (disk_state m) i" and ?budget = "max_spool_bytes - disk_overhead_reserve"
  define ev where "ev = \<lparr>se_seq = ?n, se_stream = stream, se_data = chunk\<rparr>"
  obtain err dir where app: "append_bounded_event io ?dir ev ?budget = (err, dir)" by fastforce
  define d where "d = (disk_state m)\<lparr>spools := (spools (disk_state m))(i := dir)\<rparr>"
  have ap: "append_event io i ev ?budget (disk_state m) = (err = None, d)"
    by (simp add: append_event_def app d_def)
  note ok = cmd_okD [OF sup_invD [OF inv st(1)]]
  show ?thesis
  proof (cases err)
    case (Some e)
    have eq: "collect_chunk env io out i stream chunk m =
        mark_unhealthy (m\<lparr>disk_state := d, commands := (commands m)(i \<mapsto> st\<lparr>spool_failed := True\<rparr>)\<rparr>)"
      using st nf ap Some by (simp add: collect_chunk_def Let_def ev_def [symmetric])
    show ?thesis
      unfolding eq
      by (rule sup_inv_update [OF inv st(1), where st' = "st\<lparr>spool_failed := True\<rparr>"])
        (use ok st(2) in \<open>auto simp: mark_unhealthy_def d_def cmd_ok_def phase_ok_def\<close>)
  next
    case None
    have cont: "contiguous dir (?n + 1)"
      by (rule contiguous_append [OF ok(10) [OF nf] ch(3) _ _ _ app [unfolded None]])
        (use ch ok(6) in \<open>auto simp: ev_def event_ok_def max_spool_bytes_def disk_overhead_reserve_def max_event_bytes_def\<close>)
    define adv where "adv = (rcd st)\<lparr>next_seq := ?n + 1\<rparr>"
    obtain b m2 where p: "persist_transition env out adv (m\<lparr>disk_state := d\<rparr>) = (b, m2)" by fastforce
    note f = persist_transition_frame [OF p]
    have n64: "(?n + 1) mod 18446744073709551616 = ?n + 1" using ch(3) by simp
    have adv: "(rcd st)\<lparr>next_seq := Suc ?n\<rparr> = adv" by (simp add: adv_def)
    have eq: "collect_chunk env io out i stream chunk m = m2\<lparr>commands := (commands m2)(i \<mapsto>
        (if b then st\<lparr>rcd := adv\<rparr> else st\<lparr>spool_failed := True\<rparr>))\<rparr>"
      using st nf ap None p n64 by (cases b) (simp_all add: collect_chunk_def Let_def ev_def [symmetric] adv)
    let ?st = "if b then st\<lparr>rcd := adv\<rparr> else st\<lparr>spool_failed := True\<rparr>"
    show ?thesis
      unfolding eq
    proof (rule sup_inv_update [OF inv st(1), where st' = ?st])
      show "cmd_ok (m2\<lparr>commands := (commands m2)(i \<mapsto> ?st)\<rparr>) i ?st"
        using ok f(2-5) st(2) cont ch(3) f(3) by (cases b) (auto simp: cmd_ok_def phase_ok_def adv_def d_def)
    qed (use f ok in \<open>auto simp: adv_def d_def\<close>)
  qed
qed


section \<open>Reading output\<close>

lemma read_parts_dir:
  assumes "\<forall>es \<in> set segs. \<forall>ev \<in> set es. event_ok ev" and "sorted_wrt (<) (p # map se_seq (concat segs))"
    and "\<forall>es \<in> set segs. map_of d (segment_name (se_seq (hd es))) = Some (File (encode_events es))"
  shows "snd (read_parts io d p acc (map seg_part segs)) = d"
  using assms
proof (induction segs arbitrary: p acc)
  case (Cons es segs)
  show ?case
  proof (cases "can_read io (segment_name (se_seq (hd es)))")
    case True
    have srt: "sorted_wrt (<) (p # map se_seq (es @ concat segs))" using Cons.prems(2) by simp
    then have s: "sorted_wrt (<) (p # map se_seq es)" by (auto simp: sorted_wrt_append)
    have "read_parts io d p acc (seg_part es # map seg_part segs)
        = read_parts io d (last (p # map se_seq es)) (acc @ es) (map seg_part segs)"
      using read_parts_step [of es p "[]" d "seg_part es" io "map seg_part segs" acc] Cons.prems s True by simp
    then show ?thesis using Cons.IH [OF _ last_seq_less [OF srt], of "acc @ es"] Cons.prems by simp
  next
    case False
    then show ?thesis using Cons.prems by simp
  qed
qed simp

lemma read_contiguous:
  assumes "contiguous dir n"
  shows "snd (read_events io dir) = dir"
proof -
  from assms obtain segs where dir: "dir = Some (spool_of segs) \<or> dir = None" and ok: "segs_ok segs"
    unfolding contiguous_def by blast
  have a: "\<forall>es \<in> set segs. \<forall>ev \<in> set es. event_ok ev" "sorted_wrt (<) (0 # map se_seq (concat segs))"
    using ok by (auto simp: segs_ok_def log_ok_def)
  have f: "\<forall>es \<in> set segs. map_of (spool_of segs) (segment_name (se_seq (hd es))) = Some (File (encode_events es))"
    using map_of_spool [OF ok, of _ _ "[]"] by simp
  from dir show ?thesis
  proof
    assume "dir = Some (spool_of segs)"
    then show ?thesis
      using read_parts_dir [OF a f, of io "[]"]
      by (cases "read_parts io (spool_of segs) 0 [] (map seg_part segs)")
        (simp add: read_events_def segments_spool [OF ok])
  qed (simp add: read_events_def segments_def)
qed

lemma sup_inv_connect:
  assumes inv: "sup_inv m" shows "sup_inv (snd (connect io i after m))"
proof (cases "commands m i")
  case (Some st)
  note ok = cmd_okD [OF sup_invD [OF inv Some]]
  obtain res dir where rd: "read_events io (spools (disk_state m) i) = (res, dir)" by fastforce
  let ?m = "m\<lparr>disk_state := (disk_state m)\<lparr>spools := (spools (disk_state m))(i := dir)\<rparr>\<rparr>"
  have "sup_inv ?m"
  proof (rule sup_inv_update [OF inv Some, where st' = st])
    show "cmd_ok ?m i st"
      using sup_invD [OF inv Some] read_contiguous [of "spools (disk_state m) i" "next_seq (rcd st)" io] rd
      by (auto simp: cmd_ok_def)
  qed (use Some in auto)
  then show ?thesis
    using Some inv rd ok(1)
    by (auto simp: connect_def Let_def split: sum.split list.split)
qed (simp add: connect_def inv)

section \<open>Reservation\<close>

lemma start_reserve_cases:
  assumes "start_reserve env req rnd now out m = (res, m')"
  obtains (unchanged) r where "res = Respond r" "m' = m"
  | (reserved) i c where "rnd = Some i" "normalize_req env req = Some c" "\<not> unhealthy m"
      "requests m (request_id c) = None" "card (dom (commands m)) < max_commands"
      "command_cwd env (cwd c) \<noteq> None" "reserve_command env c i now out m = (res, m')"
proof (cases "(\<exists>r. res = Respond r) \<and> m' = m")
  case True
  then show thesis using unchanged by blast
next
  case False
  show thesis
  proof (cases "normalize_req env req"; cases rnd)
    fix c i assume c: "normalize_req env req = Some c" "rnd = Some i"
    have "\<not> unhealthy m" "command_cwd env (cwd c) \<noteq> None" "requests m (request_id c) = None"
      "card (dom (commands m)) < max_commands"
      using False assms c by (auto simp: start_reserve_def split: option.splits if_split_asm)
    moreover from this assms c have "reserve_command env c i now out m = (res, m')"
      by (auto simp: start_reserve_def)
    ultimately show thesis using reserved [OF c(2,1)] by blast
  qed (use False assms in \<open>auto simp: start_reserve_def split: option.splits if_split_asm\<close>)
qed

lemma reserve_command_result:
  assumes r: "reserve_command env c i now out m = (res, m')" and fresh: "commands m i = None" "requests m (request_id c) = None"
  defines "cmd \<equiv> c\<lparr>cm_id := i, state := Starting, created_at := now, next_seq := 1\<rparr>"
  defines "st \<equiv> \<lparr>rcd = cmd, stdin_open = False, contained = True, phase = Launching, spool_failed = False, eofs = 0\<rparr>"
  shows "spools (disk_state m') = spools (disk_state m)"
    "\<And>j. j \<noteq> i \<Longrightarrow> metadata (disk_state m') j = metadata (disk_state m) j"
    "res = Launch i \<and> commands m' = (commands m)(i \<mapsto> st) \<and> requests m' = (requests m)(request_id c \<mapsto> i)
       \<and> unhealthy m' = unhealthy m \<and> metadata (disk_state m') i = Some (stored cmd)
     \<or> res = Respond unhealthy_response \<and> commands m' = commands m \<and> requests m' = requests m \<and> unhealthy m'"
proof -
  let ?m1 = "m\<lparr>commands := (commands m)(i \<mapsto> st), requests := (requests m)(request_id c \<mapsto> i)\<rparr>"
  obtain b m2 where p: "persist_transition env out cmd ?m1 = (b, m2)" by fastforce
  note f = persist_transition_frame [OF p]
  have rid: "request_id cmd = request_id c" by (simp add: cmd_def)
  have e: "(res, m') = (if b then (Launch i, m2) else (Respond unhealthy_response,
      m2\<lparr>commands := (commands m2)(i := None), requests := (requests m2)(request_id c := None)\<rparr>))"
    using r p
    unfolding reserve_command_def Let_def
    unfolding cmd_def [symmetric]
    unfolding st_def [symmetric] rid
    by (cases b) auto
  have id: "cm_id cmd = i" by (simp add: cmd_def)
  have undo: "(commands m)(i := None) = commands m" "(requests m)(request_id c := None) = requests m"
    using fresh by (auto simp: fun_eq_iff)
  show "spools (disk_state m') = spools (disk_state m)" using e f(3) by (cases b) auto
  show "metadata (disk_state m') j = metadata (disk_state m) j" if "j \<noteq> i" for j
    using e f(6) [of j] that id by (cases b) auto
  show "res = Launch i \<and> commands m' = (commands m)(i \<mapsto> st) \<and> requests m' = (requests m)(request_id c \<mapsto> i)
       \<and> unhealthy m' = unhealthy m \<and> metadata (disk_state m') i = Some (stored cmd)
     \<or> res = Respond unhealthy_response \<and> commands m' = commands m \<and> requests m' = requests m \<and> unhealthy m'"
    using e f(1,2,4,5) id by (cases b) (auto simp: undo)
qed

lemma normalize_request:
  "normalize_req env req = Some c \<Longrightarrow> request_id c = rq_request_id req \<and> request_id c \<noteq> []"
  by (auto simp: normalize_req_def Let_def split: if_split_asm)

lemma sup_inv_reserve:
  assumes inv: "sup_inv m" and r: "start_reserve env req rnd now out m = (res, m')" and fresh: "fresh_id rnd m"
  shows "sup_inv m'"
  using r
proof (cases rule: start_reserve_cases)
  case unchanged
  then show ?thesis using inv by simp
next
  case (reserved i c)
  from fresh reserved(1) have i: "random_id i" "commands m i = None" "metadata (disk_state m) i = None"
    "spools (disk_state m) i = None" by (auto simp: fresh_id_def)
  note f = reserve_command_result [OF reserved(7) i(2) reserved(4)]
  have fin: "finite (dom (commands m))" using inv by (simp add: sup_inv_def)
  let ?c = "c\<lparr>cm_id := i, state := Starting, created_at := now, next_seq := 1\<rparr>"
  let ?st = "\<lparr>rcd = ?c, stdin_open = False, contained = True, phase = Launching, spool_failed = False, eofs = 0\<rparr>"
  from f(3) show ?thesis
  proof (elim disjE conjE)
    assume n: "commands m' = (commands m)(i \<mapsto> ?st)" "requests m' = (requests m)(request_id c \<mapsto> i)"
      "unhealthy m' = unhealthy m" "metadata (disk_state m') i = Some (stored ?c)"
    show ?thesis
      unfolding sup_inv_def
    proof (intro conjI allI impI)
      show "finite (dom (commands m'))" "card (dom (commands m')) \<le> max_commands"
        using fin reserved(5) i(2) by (simp_all add: n card_insert_if)
      show "cmd_ok m' j s" if s: "commands m' j = Some s" for j s
      proof (cases "j = i")
        case True
        then show ?thesis
          using s i n f(1) contiguous_new normalize_request [OF reserved(2)]
          by (auto simp: cmd_ok_def phase_ok_def)
      next
        case False
        with s n have o: "cmd_ok m j s" using sup_invD [OF inv] by simp
        have "request_id (rcd s) \<noteq> request_id c"
          using cmd_okD(2) [OF o] reserved(4) by auto
        then show ?thesis
          using o n f(1,2) False by (auto simp: cmd_ok_def)
      qed
      show "\<exists>s. commands m' j = Some s \<and> request_id (rcd s) = r" if q: "requests m' r = Some j" for r j
      proof (cases "r = request_id c")
        case False
        with q n obtain s where "commands m j = Some s" "request_id (rcd s) = r"
          using sup_inv_request [OF inv] by auto
        with i(2) n show ?thesis by (cases "j = i") auto
      qed (use q n in auto)
      show "dom (metadata (disk_state m')) \<subseteq> dom (commands m')" if h: "\<not> unhealthy m'"
      proof
        fix j assume "j \<in> dom (metadata (disk_state m'))"
        then show "j \<in> dom (commands m')"
          using sup_inv_disk [OF inv] h n f(2) [of j] by (cases "j = i") (auto simp: dom_def)
      qed
    qed
  next
    assume same: "commands m' = commands m" "requests m' = requests m" "unhealthy m'"
    have "cmd_ok m' j s" if "commands m j = Some s" for j s
    proof -
      have "j \<noteq> i" using that i(2) by auto
      then show ?thesis
        using sup_invD [OF inv that] same f(1,2) by (auto simp: cmd_ok_def)
    qed
    then show ?thesis using inv same by (simp add: sup_inv_def)
  qed
qed

lemma sup_inv_step: "sup_step env m m' \<Longrightarrow> sup_inv m \<Longrightarrow> sup_inv m'"
proof (induction rule: sup_step.induct)
  case (ss_reserve req rnd now out m res m')
  then show ?case by (blast intro: sup_inv_reserve)
next
  case (ss_start_failed m i st now out r m')
  then show ?case using sup_inv_start_failed [of m i st env now out] by simp
next
  case (ss_start_running m i st now out r m')
  then show ?case using sup_inv_start_running [of m i st env now out] by simp
next
  case (ss_connect io i after m r m')
  then show ?case using sup_inv_connect [of m io i after] by simp
next
  case (ss_close_stdin ok i m r m')
  then show ?case using sup_inv_close_stdin [of m ok i] by simp
next
  case (ss_signal ok i name m r m')
  then show ?case using sup_inv_signal [of m ok i name] by simp
qed (auto intro: sup_inv_chunk sup_inv_eof sup_inv_finish)

definition empty_disk :: disk where
  "empty_disk = \<lparr>metadata = Map.empty, spools = Map.empty\<rparr>"

definition sup_init :: "manager \<Rightarrow> bool" where
  "sup_init m \<longleftrightarrow> m = fresh_manager empty_disk"

lemma sup_inv_init: "sup_init m \<Longrightarrow> sup_inv m"
  by (simp add: sup_init_def fresh_manager_def sup_inv_def empty_disk_def)

interpretation sup: transition_system sup_init "sup_step env" sup_inv for env
  by unfold_locales (auto intro: sup_inv_init sup_inv_step)

end
