(* ===== verification/Supervisor_Props.thy ===== *)
theory Supervisor_Props
  imports Supervisor_Inv
begin

text \<open>
  The properties of the command supervisor: idempotent starts, the life cycle of commands,
  durability, cursors.
\<close>

section \<open>Evolution of commands\<close>

definition state_le :: "command_state \<Rightarrow> command_state \<Rightarrow> bool" where
  "state_le a b \<longleftrightarrow> a = b \<or> a = Starting \<or> (a = Running \<and> terminal b)"

lemma state_le_trans: "state_le a b \<Longrightarrow> state_le b c \<Longrightarrow> state_le a c"
  by (auto simp: state_le_def terminal_def)

definition same_identity :: "command \<Rightarrow> command \<Rightarrow> bool" where
  "same_identity c d \<longleftrightarrow> cm_id c = cm_id d \<and> request_id c = request_id d \<and> argv c = argv d \<and> cwd c = cwd d
     \<and> cmd_env c = cmd_env d \<and> spec_hash c = spec_hash d \<and> created_at c = created_at d"

lemma same_identity_refl [simp]: "same_identity c c"
  by (simp add: same_identity_def)

definition evolves :: "process_state \<Rightarrow> process_state \<Rightarrow> bool" where
  "evolves st st' \<longleftrightarrow> same_identity (rcd st) (rcd st') \<and> next_seq (rcd st) \<le> next_seq (rcd st')
     \<and> state_le (state (rcd st)) (state (rcd st'))
     \<and> (phase st = Settled \<longrightarrow> rcd st' = rcd st \<and> phase st' = Settled)"

lemma evolves_refl [simp]: "evolves st st"
  by (simp add: evolves_def state_le_def)

lemma evolves_trans: "evolves a b \<Longrightarrow> evolves b c \<Longrightarrow> evolves a c"
  by (auto simp: evolves_def same_identity_def intro: state_le_trans)

definition grows :: "manager \<Rightarrow> manager \<Rightarrow> bool" where
  "grows m m' \<longleftrightarrow> requests m \<subseteq>\<^sub>m requests m' \<and> (unhealthy m \<longrightarrow> unhealthy m')
     \<and> (\<forall>i st. commands m i = Some st \<longrightarrow> (\<exists>st'. commands m' i = Some st' \<and> evolves st st'))"

lemma grows_refl [simp]: "grows m m"
  by (simp add: grows_def)

lemma grows_trans: "grows a b \<Longrightarrow> grows b c \<Longrightarrow> grows a c"
  unfolding grows_def by (meson evolves_trans map_le_trans)

lemma grows_update:
  assumes "commands m i = Some st" "commands m' = (commands m)(i \<mapsto> st')" "requests m' = requests m"
    "unhealthy m \<longrightarrow> unhealthy m'" "evolves st st'"
  shows "grows m m'"
  using assms by (auto simp: grows_def)

lemma grows_transition:
  assumes "commands m i = Some st" and p: "persist_transition env out c m = (b, m1)"
    and "evolves st st'"
  shows "grows m (m1\<lparr>commands := (commands m1)(i \<mapsto> st')\<rparr>)"
  by (rule grows_update [OF assms(1)]) (use persist_transition_frame [OF p] assms(3) in auto)

lemma grows_start_failed:
  assumes "commands m i = Some st" "phase st = Launching" "state (rcd st) = Starting"
  shows "grows m (snd (start_failed env i now out m))"
proof -
  let ?c = "(rcd st)\<lparr>state := Lost, finished_at := now\<rparr>"
  obtain b m1 where p: "persist_transition env out ?c m = (b, m1)" by fastforce
  have "grows m (m1\<lparr>commands := (commands m1)(i \<mapsto> st\<lparr>rcd := if b then ?c else rcd st, phase := Settled\<rparr>)\<rparr>)"
    by (rule grows_transition [OF assms(1) p])
      (use assms in \<open>auto simp: evolves_def same_identity_def state_le_def\<close>)
  then show ?thesis using assms p by (cases b) (simp_all add: start_failed_def Let_def)
qed

lemma grows_start_running:
  assumes "commands m i = Some st" "phase st = Launching" "state (rcd st) = Starting"
  shows "grows m (snd (start_running env i now out m))"
proof -
  let ?c = "(rcd st)\<lparr>state := Running, started_at := now\<rparr>"
  obtain b m1 where p: "persist_transition env out ?c m = (b, m1)" by fastforce
  have "grows m (m1\<lparr>commands := (commands m1)(i \<mapsto>
      st\<lparr>stdin_open := True, phase := Collecting, rcd := if b then ?c else rcd st\<rparr>)\<rparr>)"
    by (rule grows_transition [OF assms(1) p])
      (use assms in \<open>auto simp: evolves_def same_identity_def state_le_def\<close>)
  then show ?thesis using assms p by (cases b) (simp_all add: start_running_def Let_def)
qed

lemma grows_finish:
  assumes "commands m i = Some st" "phase st = Collecting" "state (rcd st) \<in> {Starting, Running}"
  shows "grows m (collect_finish env out i ws now m)"
proof -
  let ?c = "terminal_record st ws now"
  obtain b m1 where p: "persist_transition env out ?c m = (b, m1)" by fastforce
  have "grows m (m1\<lparr>commands := (commands m1)(i \<mapsto>
      st\<lparr>stdin_open := False, phase := Settled, rcd := if b then ?c else rcd st\<rparr>)\<rparr>)"
    by (rule grows_transition [OF assms(1) p])
      (use assms in \<open>auto simp: evolves_def same_identity_def state_le_def terminal_def terminal_record_def Let_def
        split: wait_status.splits\<close>)
  then show ?thesis using assms p by (cases b) (simp_all add: collect_finish_def Let_def)
qed

lemma grows_chunk:
  assumes "commands m i = Some st" "phase st = Collecting" "next_seq (rcd st) + 1 < 2 ^ 64"
  shows "grows m (collect_chunk env io out i stream chunk m)"
proof (cases "spool_failed st")
  case True
  then show ?thesis using assms by (simp add: collect_chunk_def)
next
  case nf: False
  define ev where "ev = \<lparr>se_seq = next_seq (rcd st), se_stream = stream, se_data = chunk\<rparr>"
  obtain ok d where ap: "append_event io i ev (max_spool_bytes - disk_overhead_reserve) (disk_state m) = (ok, d)"
    by fastforce
  define adv where "adv = (rcd st)\<lparr>next_seq := (next_seq (rcd st) + 1) mod 2 ^ 64\<rparr>"
  obtain b m2 where p: "persist_transition env out adv (m\<lparr>disk_state := d\<rparr>) = (b, m2)" by fastforce
  have ev: "evolves st (if b then st\<lparr>rcd := adv\<rparr> else st\<lparr>spool_failed := True\<rparr>)"
    using assms by (auto simp: evolves_def same_identity_def state_le_def adv_def)
  show ?thesis
  proof (cases ok)
    case True
    have "grows m (m2\<lparr>commands := (commands m2)(i \<mapsto> if b then st\<lparr>rcd := adv\<rparr> else st\<lparr>spool_failed := True\<rparr>)\<rparr>)"
      by (rule grows_update [OF assms(1)]) (use persist_transition_frame [OF p] ev in auto)
    then show ?thesis
      using assms nf ap True p unfolding collect_chunk_def Let_def
      by (cases b) (simp_all add: ev_def [symmetric], simp_all add: adv_def)
  next
    case False
    then show ?thesis
      using assms nf ap
      by (auto simp: collect_chunk_def Let_def ev_def [symmetric] mark_unhealthy_def evolves_def state_le_def
          intro!: grows_update [OF assms(1), of _ "st\<lparr>spool_failed := True\<rparr>"])
  qed
qed

lemma grows_local:
  "commands m i = Some st \<Longrightarrow> rcd st' = rcd st \<Longrightarrow> phase st' = phase st \<Longrightarrow>
   grows m (m\<lparr>commands := (commands m)(i \<mapsto> st')\<rparr>)"
  by (rule grows_update) (auto simp: evolves_def state_le_def)

lemma grows_reserve:
  assumes inv: "sup_inv m" and r: "start_reserve env req rnd now out m = (res, m')" and fresh: "fresh_id rnd m"
  shows "grows m m'"
  using r
proof (cases rule: start_reserve_cases)
  case (reserved i c)
  from fresh reserved(1) have i: "commands m i = None" by (auto simp: fresh_id_def)
  show ?thesis
    using reserve_command_result(3) [OF reserved(7) i reserved(4)] i reserved(3,4)
    by (auto simp: grows_def map_le_def)
qed simp

lemma grows_step: "sup_step env m m' \<Longrightarrow> sup_inv m \<Longrightarrow> grows m m'"
proof (induction rule: sup_step.induct)
  case (ss_reserve req rnd now out m res m')
  then show ?case by (blast intro: grows_reserve)
next
  case (ss_start_failed m i st now out r m')
  have "state (rcd st) = Starting" using cmd_okD(3) [OF sup_invD [OF ss_start_failed(4,1)]] ss_start_failed(2) by (simp add: phase_ok_def)
  then show ?case using grows_start_failed [OF ss_start_failed(1,2), of env now out] ss_start_failed(3) by simp
next
  case (ss_start_running m i st now out r m')
  have "state (rcd st) = Starting" using cmd_okD(3) [OF sup_invD [OF ss_start_running(4,1)]] ss_start_running(2) by (simp add: phase_ok_def)
  then show ?case using grows_start_running [OF ss_start_running(1,2), of env now out] ss_start_running(3) by simp
next
  case (ss_finish m i st out ws now)
  have "state (rcd st) \<in> {Starting, Running}" using cmd_okD(3) [OF sup_invD [OF ss_finish(4,1)]] ss_finish(2) by (simp add: phase_ok_def)
  then show ?case by (rule grows_finish [OF ss_finish(1,2)])
next
  case (ss_chunk m i st chunk stream io out)
  then show ?case by (blast intro: grows_chunk)
next
  case (ss_eof m i st)
  then show ?case by (simp add: collect_eof_def grows_local)
next
  case (ss_connect io i after m r m')
  have "commands m' = commands m \<and> requests m' = requests m \<and> unhealthy m' = unhealthy m"
    using ss_connect(1) by (auto simp: connect_def Let_def split: option.splits prod.splits sum.splits list.splits if_split_asm)
  then show ?case by (simp add: grows_def)
next
  case (ss_close_stdin ok i m r m')
  then show ?case by (auto simp: close_stdin_def intro: grows_local split: option.splits if_split_asm)
next
  case (ss_signal ok i name m r m')
  then show ?case by (auto simp: signal_def intro: grows_local split: option.splits if_split_asm)
qed

lemma grows_run: "(sup_step env)\<^sup>*\<^sup>* m m' \<Longrightarrow> sup_inv m \<Longrightarrow> grows m m'"
proof (induction rule: rtranclp_induct)
  case (step y z)
  then have "sup_inv y" using sup.run_inv by blast
  with step grows_step grows_trans show ?case by blast
qed simp

section \<open>A sample run\<close>

definition sup_env :: supervisor_env where
  "sup_env = \<lparr>json_spec = (\<lambda>a c e. concat (a @ [c] @ e)), json_metadata = (\<lambda>c. concat (argv c)), hash256 = take 32,
     eval_symlinks = Some, stat_dir = (\<lambda>_. Some True), workspace_dir = ''/workspace''\<rparr>"

definition sample_request :: request where
  "sample_request = \<lparr>rq_version = 1, rq_operation = ''start'', rq_request_id = ''r1'', rq_command_id = [],
     rq_argv = [''echo'', ''hi''], rq_cwd = [], rq_env = [], rq_after = 0, rq_data = [], rq_signal = [],
     rq_timeout_ms = 0\<rparr>"

definition sample_id :: string where "sample_id = replicate 48 CHR ''0''"

definition sup_m0 :: manager where "sup_m0 = fresh_manager empty_disk"

definition sup_m1 :: manager where
  "sup_m1 = snd (start_reserve sup_env sample_request (Some sample_id) 5 Synced sup_m0)"

definition sup_m2 :: manager where "sup_m2 = snd (start_running sup_env sample_id 6 Synced sup_m1)"

definition sup_m3 :: manager where
  "sup_m3 = collect_chunk sup_env no_faults Synced sample_id ''stdout'' ''hi'' sup_m2"

definition sup_m4 :: manager where
  "sup_m4 = collect_finish sup_env Synced sample_id (ExitStatus 0) 9 (collect_eof sample_id (collect_eof sample_id sup_m3))"

definition sample_command :: command where
  "sample_command = blank_command\<lparr>cm_id := sample_id, request_id := ''r1'', argv := [''echo'', ''hi''],
     cwd := ''/workspace'', spec_hash := hex_encode (hash256 sup_env ''echohi/workspace''),
     state := Starting, created_at := 5, next_seq := 1\<rparr>"

lemma sup_env_metadata [simp]: "json_metadata sup_env c = concat (argv c)"
  by (simp add: sup_env_def)

lemma sample_normalize:
  "normalize_req sup_env sample_request = Some (blank_command\<lparr>request_id := ''r1'', argv := [''echo'', ''hi''],
     cwd := ''/workspace'', spec_hash := hex_encode (hash256 sup_env ''echohi/workspace'')\<rparr>)"
proof -
  have "path_clean ''/workspace'' = ''/workspace''" by code_simp
  then show ?thesis
    by (simp add: normalize_req_def sample_request_def sup_env_def no_nul_def max_request_bytes_def blank_command_def)
qed

lemma sample_random_id: "random_id sample_id"
  by code_simp

lemma sample_cwd: "command_cwd sup_env ''/workspace'' = Some ''/workspace''"
  by code_simp

lemma sup_m1_reserve:
  "start_reserve sup_env sample_request (Some sample_id) 5 Synced sup_m0 = (Launch sample_id, sup_m1)"
proof -
  have "fst (start_reserve sup_env sample_request (Some sample_id) 5 Synced sup_m0) = Launch sample_id"
    by (simp add: start_reserve_def sample_normalize sample_cwd sup_m0_def fresh_manager_def reserve_command_def Let_def
        persist_transition_def persist_command_def blank_command_def metadata_max_def max_commands_def)
  then show ?thesis by (simp add: sup_m1_def prod_eq_iff)
qed

lemma sup_m1_state:
  "commands sup_m1 = [sample_id \<mapsto> \<lparr>rcd = sample_command, stdin_open = False, contained = True, phase = Launching,
      spool_failed = False, eofs = 0\<rparr>]" "\<not> unhealthy sup_m1" "requests sup_m1 = [''r1'' \<mapsto> sample_id]"
  "spools (disk_state sup_m1) = Map.empty"
  by (simp_all add: sup_m1_def start_reserve_def sample_normalize sample_cwd sup_m0_def fresh_manager_def reserve_command_def Let_def
        persist_transition_def persist_command_def metadata_max_def max_commands_def sample_command_def empty_disk_def blank_command_def)

lemma sup_m1_cmd: "commands sup_m1 sample_id = Some \<lparr>rcd = sample_command, stdin_open = False, contained = True,
    phase = Launching, spool_failed = False, eofs = 0\<rparr>"
  by (simp add: sup_m1_state)

lemma sup_fresh: "fresh_id (Some sample_id) sup_m0"
  by (simp add: fresh_id_def sample_random_id sup_m0_def fresh_manager_def empty_disk_def)

lemma sup_step1: "sup_step sup_env sup_m0 sup_m1"
  by (rule ss_reserve [OF sup_m1_reserve sup_fresh])

lemma sup_m0_init: "sup_init sup_m0"
  by (simp add: sup_init_def sup_m0_def)

lemma sup_step2: "sup_step sup_env sup_m1 sup_m2"
  unfolding sup_m2_def
  by (rule ss_start_running [OF sup_m1_cmd _ surjective_pairing]) simp

lemma sup_m2_state:
  "commands sup_m2 sample_id = Some \<lparr>rcd = sample_command\<lparr>state := Running, started_at := 6\<rparr>, stdin_open = True, contained = True,
      phase = Collecting, spool_failed = False, eofs = 0\<rparr>" "\<not> unhealthy sup_m2"
  by (simp_all add: sup_m2_def start_running_def sup_m1_state Let_def persist_transition_def persist_command_def metadata_max_def
      sample_command_def blank_command_def)

lemma sup_step3: "sup_step sup_env sup_m2 sup_m3"
  unfolding sup_m3_def
  by (rule ss_chunk [OF sup_m2_state(1)]) (simp_all add: max_event_bytes_def sample_command_def)

lemma sup_run2: "(sup_step sup_env)\<^sup>*\<^sup>* sup_m0 sup_m2"
  using sup_step1 sup_step2 by (meson rtranclp.rtrancl_refl rtranclp.rtrancl_into_rtrancl)

lemma sup_run1: "(sup_step sup_env)\<^sup>*\<^sup>* sup_m0 sup_m1"
  using sup_step1 by blast

lemma sup_run12: "(sup_step sup_env)\<^sup>*\<^sup>* sup_m1 sup_m2"
  using sup_step2 by blast

section \<open>Properties\<close>



text \<open>
  C28. The life cycle of a command only moves forward, under any interleaving and any
  failures: it keeps its identity, specification and creation time, its sequence number
  never decreases, its state goes from starting to running to a terminal one, and a terminal
  record never changes again.
\<close>

theorem command_life_cycle:
  assumes "sup_init m0" and "(sup_step env)\<^sup>*\<^sup>* m0 m" and "(sup_step env)\<^sup>*\<^sup>* m m'"
    and st: "commands m i = Some st"
  shows "\<exists>st'. commands m' i = Some st' \<and> same_identity (rcd st) (rcd st')
    \<and> next_seq (rcd st) \<le> next_seq (rcd st') \<and> state_le (state (rcd st)) (state (rcd st'))
    \<and> (terminal (state (rcd st)) \<longrightarrow> rcd st' = rcd st)"
proof -
  have inv: "sup_inv m" by (rule sup.reachable_inv [OF assms(1,2)])
  have "terminal (state (rcd st)) \<Longrightarrow> phase st = Settled"
    using cmd_okD(3) [OF sup_invD [OF inv st]] by (cases "phase st") (auto simp: phase_ok_def terminal_def)
  moreover obtain st' where "commands m' i = Some st'" "evolves st st'"
    using grows_run [OF assms(3) inv] st unfolding grows_def by blast
  ultimately show ?thesis by (auto simp: evolves_def)
qed

lemma command_life_cycle_witness:
  "\<exists>st'. commands sup_m2 sample_id = Some st' \<and> same_identity sample_command (rcd st')"
  using command_life_cycle [OF sup_m0_init sup_run1 sup_run12, of sample_id] by (fastforce simp: sup_m1_state)

text \<open>
  C29. What the supervisor reports is durable: while it is healthy, the metadata file of every
  command holds exactly its current record and its spool exactly the counted events that are
  still retained, one request identifier owns each command, and there are at most
  \<open>MaxCommands\<close>; once a durable write has failed, it stays unhealthy and refuses every start.
\<close>

theorem durable_state:
  assumes "sup_init m0" and run: "(sup_step env)\<^sup>*\<^sup>* m0 m"
  shows "(\<not> unhealthy m \<longrightarrow> (\<forall>i st. commands m i = Some st \<longrightarrow>
       metadata (disk_state m) i = Some (stored (rcd st))
       \<and> contiguous (spools (disk_state m) i) (next_seq (rcd st))
       \<and> requests m (request_id (rcd st)) = Some i))
    \<and> card (dom (commands m)) \<le> max_commands
    \<and> (unhealthy m \<longrightarrow> (\<forall>m'. (sup_step env)\<^sup>*\<^sup>* m m' \<longrightarrow> unhealthy m'
         \<and> (\<forall>req rnd now out. start_reserve env req rnd now out m' = (Respond unhealthy_response, m'))))"
proof -
  have inv: "sup_inv m" by (rule sup.reachable_inv [OF assms])
  have "metadata (disk_state m) i = Some (stored (rcd st))
       \<and> contiguous (spools (disk_state m) i) (next_seq (rcd st))
       \<and> requests m (request_id (rcd st)) = Some i" if "\<not> unhealthy m" "commands m i = Some st" for i st
    using cmd_okD(2,8-10) [OF sup_invD [OF inv that(2)]] that(1) by blast
  moreover have "card (dom (commands m)) \<le> max_commands" using inv by (simp add: sup_inv_def)
  moreover have "unhealthy m' \<and> start_reserve env req rnd now out m' = (Respond unhealthy_response, m')"
    if "unhealthy m" "(sup_step env)\<^sup>*\<^sup>* m m'" for m' req rnd now out
    using grows_run [OF that(2) inv] that(1) by (simp add: grows_def start_reserve_def)
  ultimately show ?thesis by blast
qed

lemma durable_state_witness:
  "metadata (disk_state sup_m2) sample_id = Some (stored (sample_command\<lparr>state := Running, started_at := 6\<rparr>))"
  using durable_state [OF sup_m0_init sup_run2] sup_m2_state by fastforce

text \<open>
  Cursors neither lose nor repeat output: on a healthy supervisor, connecting with the
  cursor \<open>after\<close> either returns exactly the events numbered from \<open>after + 1\<close> to the last one
  generated, with the last number as next cursor, or says that the cursor is ahead of the
  output, or that the next event is no longer retained; the manager is not changed.
\<close>

theorem connect_cursor:
  assumes "sup_init m0" and "(sup_step env)\<^sup>*\<^sup>* m0 m" and h: "\<not> unhealthy m"
    and st: "commands m i = Some st" and io: "\<forall>x. can_read io x"
  shows "snd (connect io i after m) = m
    \<and> (if next_seq (rcd st) \<le> after then fst (connect io i after m) = failure ''INVALID_CURSOR''
       else fst (connect io i after m) = failure ''CURSOR_EXPIRED''
          \<and> (\<exists>evs. fst (read_events io (spools (disk_state m) i)) = Inr evs \<and> after + 1 \<notin> se_seq ` set evs \<and> after + 1 < next_seq (rcd st))
        \<or> (let r = fst (connect io i after m) in
             rs_ok r \<and> rs_command r = Some (rcd st)
             \<and> map se_seq (rs_events r) = [after + 1 ..< next_seq (rcd st)]
             \<and> rs_next_cursor r = next_seq (rcd st) - 1))"
proof -
  have inv: "sup_inv m" by (rule sup.reachable_inv [OF assms(1,2)])
  note ok = cmd_okD [OF sup_invD [OF inv st]]
  let ?n = "next_seq (rcd st)" and ?dir = "spools (disk_state m) i"
  from ok(10) [OF ok(9) [OF h]] obtain segs a where dir: "?dir = Some (spool_of segs) \<or> ?dir = None \<and> segs = []"
    and sg: "segs_ok segs" and seqs: "map se_seq (concat segs) = [a ..< ?n]" and a: "1 \<le> a" "a \<le> ?n" "a = ?n \<longrightarrow> ?n = 1"
    unfolding contiguous_def by blast
  have rd: "read_events io ?dir = (Inr (concat segs), ?dir)"
    using dir
  proof
    assume d: "?dir = Some (spool_of segs)"
    show ?thesis unfolding d by (rule read_clean [OF sg io])
  qed (auto simp: read_events_def segments_def)
  have same: "(disk_state m)\<lparr>spools := (spools (disk_state m))(i := ?dir)\<rparr> = disk_state m" by simp
  have sel: "map se_seq (filter (\<lambda>ev. after < se_seq ev) (concat segs)) = filter (\<lambda>k. after < k) [a ..< ?n]"
    by (simp add: seqs [symmetric] filter_map o_def)
  have fil: "filter (\<lambda>k. after < k) [a ..< n] = [max a (after + 1) ..< n]" for n
    by (induction n) (auto simp: max_def)
  define retained where "retained = (case concat segs of [] \<Rightarrow> ?n | ev # _ \<Rightarrow> se_seq ev)"
  have ret: "retained = a"
  proof (cases "concat segs")
    case Nil
    have "length [a ..< ?n] = 0" unfolding seqs [symmetric] Nil by simp
    then have "?n = a" using a by simp
    then show ?thesis unfolding retained_def Nil by simp
  next
    case (Cons ev evs)
    have "[a ..< ?n] = se_seq ev # map se_seq evs" unfolding seqs [symmetric] Cons by simp
    then have "se_seq ev = a" by (cases "a < ?n") (auto simp: upt_conv_Cons)
    then show ?thesis unfolding retained_def Cons by simp
  qed
  have c: "connect io i after m = (if ?n - 1 < after then (failure ''INVALID_CURSOR'', m)
      else if after + 1 < a then (failure ''CURSOR_EXPIRED'', m)
      else ((with_command (rcd st))\<lparr>rs_events := filter (\<lambda>ev. after < se_seq ev) (concat segs), rs_next_cursor := ?n - 1\<rparr>, m))"
    using st ok(1) rd by (simp add: connect_def Let_def retained_def [symmetric] ret)
  show ?thesis
  proof (cases "?n \<le> after")
    case True
    then show ?thesis using ok(5) by (auto simp: c)
  next
    case False
    show ?thesis
    proof (cases "after + 1 < a")
      case True
      have "after + 1 \<notin> se_seq ` set (concat segs)"
        using True unfolding set_map [symmetric] seqs by simp
      then show ?thesis using True False a rd ok(5) by (auto simp: c)
    next
      case le: False
      then show ?thesis using False ok(5) by (auto simp: c Let_def with_command_def success_def sel fil max_def)
    qed
  qed
qed

lemma connect_cursor_witness:
  "rs_next_cursor (fst (connect \<lparr>can_read = (\<lambda>_. True), can_truncate = True\<rparr> sample_id 0 sup_m2)) = 0"
  using connect_cursor [OF sup_m0_init sup_run2 sup_m2_state(2,1), of "\<lparr>can_read = (\<lambda>_. True), can_truncate = True\<rparr>" 0]
  by (auto simp: Let_def sample_command_def failure_def success_def)

text \<open>
  A valid start can disable the supervisor: the limit of \<open>metadataMax\<close> bytes on a record is
  checked only when the record is written, and the failure counts as a failure of the disk.
  A request that \<open>normalize\<close> accepts, but whose record is longer, is refused and leaves the
  supervisor unhealthy, so that every later start of any command is refused too.
\<close>

theorem oversized_start_disables:
  assumes h: "\<not> unhealthy m" and c: "normalize_req env req = Some c" "command_cwd env (cwd c) \<noteq> None"
    and new: "requests m (request_id c) = None" "card (dom (commands m)) < max_commands"
    and big: "metadata_max \<le> length (json_metadata env (c\<lparr>cm_id := i, state := Starting, created_at := now, next_seq := 1\<rparr>))"
    and run: "(sup_step env)\<^sup>*\<^sup>* (snd (start_reserve env req (Some i) now out m)) m'"
    and inv: "sup_inv m" and fresh: "fresh_id (Some i) m"
  shows "fst (start_reserve env req (Some i) now out m) = Respond unhealthy_response
    \<and> unhealthy m' \<and> (\<forall>req' rnd now' out'. start_reserve env req' rnd now' out' m' = (Respond unhealthy_response, m'))"
proof -
  obtain res m1 where r: "start_reserve env req (Some i) now out m = (res, m1)" by fastforce
  have eq: "start_reserve env req (Some i) now out m = reserve_command env c i now out m"
    using h c new by (auto simp: start_reserve_def)
  have f: "res = Respond unhealthy_response \<and> unhealthy m1"
    using r big unfolding eq by (auto simp: reserve_command_def Let_def persist_transition_def persist_command_def mark_unhealthy_def)
  have "sup_inv m1" by (rule sup_inv_reserve [OF inv r fresh])
  with run f r have "unhealthy m'" using grows_run [of env m1 m'] by (simp add: grows_def)
  with f r show ?thesis by (simp add: start_reserve_def)
qed

definition long_request :: request where
  "long_request = sample_request\<lparr>rq_argv := [''echo'', replicate 9000 CHR ''x'']\<rparr>"

lemma long_normalize:
  "\<exists>h. normalize_req sup_env long_request = Some (blank_command\<lparr>request_id := ''r1'', argv := [''echo'', replicate 9000 CHR ''x''],
     cwd := ''/workspace'', spec_hash := h\<rparr>)"
proof -
  have "path_clean ''/workspace'' = ''/workspace''" by code_simp
  then show ?thesis
    by (simp add: normalize_req_def long_request_def sample_request_def sup_env_def no_nul_def max_request_bytes_def blank_command_def)
qed

lemma oversized_start_disables_witness:
  "fst (start_reserve sup_env long_request (Some sample_id) 5 Synced sup_m0) = Respond unhealthy_response
   \<and> (let m' = snd (start_reserve sup_env long_request (Some sample_id) 5 Synced sup_m0)
      in start_reserve sup_env sample_request None 6 Synced m' = (Respond unhealthy_response, m'))"
proof -
  obtain h where n: "normalize_req sup_env long_request = Some (blank_command\<lparr>request_id := ''r1'',
      argv := [''echo'', replicate 9000 CHR ''x''], cwd := ''/workspace'', spec_hash := h\<rparr>)" using long_normalize ..
  show ?thesis
    using oversized_start_disables [where m = sup_m0 and env = sup_env and req = long_request and i = sample_id
        and now = 5 and out = Synced, OF _ n _ _ _ _ rtranclp.rtrancl_refl
        sup_inv_init [OF sup_m0_init] sup_fresh]
    by (simp add: sup_m0_def fresh_manager_def sample_cwd max_commands_def metadata_max_def blank_command_def Let_def)
qed

end
