(* ===== verification/Recovery.thy ===== *)
theory Recovery
  imports Supervisor_Props
begin

text \<open>
  Recovery of a state directory after a crash of the supervisor: \<open>load\<close> on the disk that a
  healthy supervisor leaves behind, at any moment, rebuilds every command.
\<close>

text \<open>
  What the crash may have done to a spool: it still reads back, as the events counted by the
  record or one more (the event was synced and the record not yet replaced).
\<close>

definition spool_survives :: "read_io \<Rightarrow> spool_dir option \<Rightarrow> nat \<Rightarrow> nat \<Rightarrow> bool" where
  "spool_survives rio dir counted n \<longleftrightarrow> (\<exists>evs a. fst (read_events rio dir) = Inr evs \<and> map se_seq evs = [a ..< n]
     \<and> 1 \<le> a \<and> (evs = [] \<longrightarrow> n = 1) \<and> counted \<le> n \<and> n \<le> counted + 1 \<and> n < 2 ^ 64)"

definition recovered :: "command \<Rightarrow> nat \<Rightarrow> time \<Rightarrow> command" where
  "recovered c n now = (let c1 = (stored c)\<lparr>next_seq := n\<rparr> in
     if terminal (state c) then c1 else c1\<lparr>state := Lost, finished_at := now\<rparr>)"

definition loaded_state :: "command \<Rightarrow> process_state" where
  "loaded_state c = \<lparr>rcd = c, stdin_open = False, contained = False, phase = Settled, spool_failed = False, eofs = 0\<rparr>"

lemma recovered_sel [simp]:
  "cm_id (recovered c n now) = cm_id c" "request_id (recovered c n now) = request_id c"
  "next_seq (recovered c n now) = n" "spec_hash (recovered c n now) = spec_hash c"
  by (simp_all add: recovered_def stored_def Let_def)

lemma stored_sel [simp]:
  "cm_id (stored c) = cm_id c" "request_id (stored c) = request_id c" "state (stored c) = state c"
  "next_seq (stored c) = next_seq c" "stored (stored c) = stored c"
  by (simp_all add: stored_def)

lemma stored_recovered [simp]: "stored (recovered c n now) = recovered c n now"
  by (simp add: recovered_def stored_def Let_def)

lemma recover_record_ok:
  assumes seqs: "map se_seq evs = [a ..< n]" "1 \<le> a" "evs = [] \<longrightarrow> n = 1"
    and n: "next_seq c \<le> n" "n < 2 ^ 64" "1 \<le> next_seq c"
    and st: "state c \<in> {Starting, Running, Exited, Signaled, Lost}"
  shows "\<exists>dirty. recover_record i (stored c) evs now = Inr (recovered c n now, dirty)
    \<and> (\<not> dirty \<longrightarrow> recovered c n now = stored c)"
proof -
  have nx: "(if evs = [] then next_seq (stored c) else (se_seq (last evs) + 1) mod 2 ^ 64) = n"
  proof (cases "evs = []")
    case True
    with seqs n show ?thesis by simp
  next
    case False
    then have "se_seq (last evs) = last [a ..< n]" using seqs(1) by (metis last_map)
    moreover have "[a ..< n] \<noteq> []" using False seqs(1) by (metis map_is_Nil_conv)
    ultimately have "se_seq (last evs) + 1 = n" by (cases "a < n") auto
    then show ?thesis using False n by simp
  qed
  have e: "evs = [] \<Longrightarrow> next_seq (stored c) = 1" using seqs(3) n by simp
  show ?thesis
    unfolding recover_record_def nx Let_def
    using st n e by (auto simp: recovered_def terminal_def Let_def)
qed

lemma load_command_ok:
  assumes meta: "metadata (disk_state m) i = Some (stored c)" and c: "cm_id c = i" "random_id i" "request_id c \<noteq> []"
    "1 \<le> next_seq c" "state c \<in> {Starting, Running, Exited, Signaled, Lost}"
    and sp: "spool_survives rio (spools (disk_state m) i) (next_seq c) n"
    and fits: "length (json_metadata env (recovered c n now)) + 1 \<le> metadata_max"
    and fresh: "requests m (request_id c) = None"
  shows "\<exists>m'. load_command env rio Synced now i m = (Inr (), m')
    \<and> commands m' = (commands m)(i \<mapsto> loaded_state (recovered c n now))
    \<and> requests m' = (requests m)(request_id c \<mapsto> i) \<and> unhealthy m' = unhealthy m
    \<and> metadata (disk_state m') = (metadata (disk_state m))(i \<mapsto> recovered c n now)
    \<and> (\<forall>j. j \<noteq> i \<longrightarrow> spools (disk_state m') j = spools (disk_state m) j)"
proof -
  from sp obtain evs a where evs: "fst (read_events rio (spools (disk_state m) i)) = Inr evs" "map se_seq evs = [a ..< n]"
    "1 \<le> a" "evs = [] \<longrightarrow> n = 1" "next_seq c \<le> n" "n < 2 ^ 64" unfolding spool_survives_def by blast
  then obtain dir where rd: "read_events rio (spools (disk_state m) i) = (Inr evs, dir)" by (metis prod.collapse)
  obtain dirty where rec: "recover_record i (stored c) evs now = Inr (recovered c n now, dirty)"
    "\<not> dirty \<longrightarrow> recovered c n now = stored c"
    using recover_record_ok [OF evs(2-6) c(4,5)] by blast
  have ident: "valid_identity i (stored c)" "hex_decode i \<noteq> None"
    using c(1,2) by (auto simp: valid_identity_def random_id_def)
  have st: "\<not> (\<not> terminal (state (stored c)) \<and> state (stored c) \<noteq> Starting \<and> state (stored c) \<noteq> Running)"
    using c(5) by (auto simp: terminal_def)
  let ?m1 = "m\<lparr>disk_state := (disk_state m)\<lparr>spools := (spools (disk_state m))(i := dir)\<rparr>\<rparr>"
  let ?d = "(disk_state ?m1)\<lparr>metadata := (metadata (disk_state m))(i \<mapsto> recovered c n now)\<rparr>"
  have p: "(if dirty then persist_command env Synced (recovered c n now) (disk_state ?m1) else (True, disk_state ?m1)) = (True, ?d)"
  proof (cases dirty)
    case True
    then show ?thesis using fits c(1) by (simp add: persist_command_def)
  next
    case False
    then have "recovered c n now = stored c" using rec(2) by blast
    then have "(metadata (disk_state m))(i \<mapsto> recovered c n now) = metadata (disk_state m)"
      using meta by (simp add: fun_upd_idem_iff)
    then show ?thesis using False by simp
  qed
  have "load_command env rio Synced now i m = (Inr (), ?m1\<lparr>disk_state := ?d,
      commands := (commands m)(i \<mapsto> loaded_state (recovered c n now)), requests := (requests m)(request_id c \<mapsto> i)\<rparr>)"
    unfolding load_command_def meta option.case rd prod.case sum.case rec(1) Let_def p bool.case
    using ident st c fresh by (simp add: loaded_state_def)
  then show ?thesis by simp
qed

text \<open>The commands of \<open>m\<close>, with the counts \<open>N\<close> their spools have on the disk.\<close>

definition restorable :: "supervisor_env \<Rightarrow> read_io \<Rightarrow> time \<Rightarrow> manager \<Rightarrow> (string \<Rightarrow> nat) \<Rightarrow> disk \<Rightarrow> bool" where
  "restorable env rio now m N d \<longleftrightarrow> metadata d = metadata (disk_state m)
     \<and> (\<forall>i st. commands m i = Some st \<longrightarrow> spool_survives rio (spools d i) (next_seq (rcd st)) (N i)
          \<and> length (json_metadata env (recovered (rcd st) (N i) now)) + 1 \<le> metadata_max)"

lemma load_loop_ok:
  assumes inv: "sup_inv m" and h: "\<not> unhealthy m"
    and "distinct (map fst es)" and "\<forall>i. (i, True) \<in> set es \<longrightarrow> i \<in> dom (commands m)"
    and "\<forall>i st. (i, True) \<in> set es \<and> commands m i = Some st \<longrightarrow>
        metadata (disk_state mm) i = Some (stored (rcd st))
        \<and> spool_survives rio (spools (disk_state mm) i) (next_seq (rcd st)) (N i)
        \<and> length (json_metadata env (recovered (rcd st) (N i) now)) + 1 \<le> metadata_max
        \<and> requests mm (request_id (rcd st)) = None"
  shows "\<exists>m'. load_loop env rio Synced now es mm = (Inr (), m') \<and> unhealthy m' = unhealthy mm
    \<and> (\<forall>i. commands m' i = (if (i, True) \<in> set es
          then map_option (\<lambda>st. loaded_state (recovered (rcd st) (N i) now)) (commands m i) else commands mm i))
    \<and> (\<forall>r. requests m' r = (if \<exists>i st. (i, True) \<in> set es \<and> commands m i = Some st \<and> request_id (rcd st) = r
          then requests m r else requests mm r))
    \<and> (\<forall>i st. (i, True) \<in> set es \<and> commands m i = Some st \<longrightarrow>
          metadata (disk_state m') i = Some (recovered (rcd st) (N i) now))
    \<and> (\<forall>i. (i, True) \<notin> set es \<longrightarrow> metadata (disk_state m') i = metadata (disk_state mm) i)"
  using assms(3-5)
proof (induction es arbitrary: mm)
  case Nil
  then show ?case by simp
next
  case (Cons e es)
  obtain name b where e: "e = (name, b)" by fastforce
  show ?case
  proof (cases b)
    case False
    have "(i, True) \<in> set (e # es) \<longleftrightarrow> (i, True) \<in> set es" for i using False e by auto
    moreover have "load_loop env rio Synced now (e # es) mm = load_loop env rio Synced now es mm" using False e by simp
    ultimately show ?thesis using Cons.IH [of mm] Cons.prems by simp
  next
    case True
    with e Cons.prems(2) obtain st where st: "commands m name = Some st" by auto
    note ok = cmd_okD [OF sup_invD [OF inv st]]
    have pre: "metadata (disk_state mm) name = Some (stored (rcd st))"
        "spool_survives rio (spools (disk_state mm) name) (next_seq (rcd st)) (N name)"
        "length (json_metadata env (recovered (rcd st) (N name) now)) + 1 \<le> metadata_max"
        "requests mm (request_id (rcd st)) = None"
      using Cons.prems(3) st True e by auto
    have state: "state (rcd st) \<in> {Starting, Running, Exited, Signaled, Lost}" using ok(3) by (simp add: phase_ok_def)
    obtain m1 where m1: "load_command env rio Synced now name mm = (Inr (), m1)"
      "commands m1 = (commands mm)(name \<mapsto> loaded_state (recovered (rcd st) (N name) now))"
      "requests m1 = (requests mm)(request_id (rcd st) \<mapsto> name)" "unhealthy m1 = unhealthy mm"
      "metadata (disk_state m1) = (metadata (disk_state mm))(name \<mapsto> recovered (rcd st) (N name) now)"
      "\<forall>j. j \<noteq> name \<longrightarrow> spools (disk_state m1) j = spools (disk_state mm) j"
      using load_command_ok [OF pre(1) ok(1,4,7,5) state pre(2,3,4)] by blast
    have name: "(name, b') \<notin> set es" for b' using Cons.prems(1) e by (auto simp: image_iff)
    have other: "j \<noteq> name \<and> request_id (rcd s) \<noteq> request_id (rcd st)" if "(j, True) \<in> set es" "commands m j = Some s" for j s
      using that name ok(2) cmd_okD(2) [OF sup_invD [OF inv that(2)]] by (metis option.inject)
    have "\<exists>m'. load_loop env rio Synced now es m1 = (Inr (), m') \<and> unhealthy m' = unhealthy m1
      \<and> (\<forall>i. commands m' i = (if (i, True) \<in> set es
          then map_option (\<lambda>st. loaded_state (recovered (rcd st) (N i) now)) (commands m i) else commands m1 i))
      \<and> (\<forall>r. requests m' r = (if \<exists>i st. (i, True) \<in> set es \<and> commands m i = Some st \<and> request_id (rcd st) = r
          then requests m r else requests m1 r))
      \<and> (\<forall>i st. (i, True) \<in> set es \<and> commands m i = Some st \<longrightarrow>
          metadata (disk_state m') i = Some (recovered (rcd st) (N i) now))
      \<and> (\<forall>i. (i, True) \<notin> set es \<longrightarrow> metadata (disk_state m') i = metadata (disk_state m1) i)"
    proof (rule Cons.IH)
      show "distinct (map fst es)" "\<forall>i. (i, True) \<in> set es \<longrightarrow> i \<in> dom (commands m)" using Cons.prems by auto
      show "\<forall>i st. (i, True) \<in> set es \<and> commands m i = Some st \<longrightarrow>
        metadata (disk_state m1) i = Some (stored (rcd st))
        \<and> spool_survives rio (spools (disk_state m1) i) (next_seq (rcd st)) (N i)
        \<and> length (json_metadata env (recovered (rcd st) (N i) now)) + 1 \<le> metadata_max
        \<and> requests m1 (request_id (rcd st)) = None"
        using Cons.prems(3) other m1 by fastforce
    qed
    then obtain m' where m': "load_loop env rio Synced now es m1 = (Inr (), m')" "unhealthy m' = unhealthy m1"
      "\<And>i. commands m' i = (if (i, True) \<in> set es
          then map_option (\<lambda>st. loaded_state (recovered (rcd st) (N i) now)) (commands m i) else commands m1 i)"
      "\<And>r. requests m' r = (if \<exists>i st. (i, True) \<in> set es \<and> commands m i = Some st \<and> request_id (rcd st) = r
          then requests m r else requests m1 r)"
      "\<And>i st. (i, True) \<in> set es \<Longrightarrow> commands m i = Some st \<Longrightarrow>
          metadata (disk_state m') i = Some (recovered (rcd st) (N i) now)"
      "\<And>i. (i, True) \<notin> set es \<Longrightarrow> metadata (disk_state m') i = metadata (disk_state m1) i"
      by blast
    have mem: "(i, True) \<in> set (e # es) \<longleftrightarrow> i = name \<or> (i, True) \<in> set es" for i using e True by auto
    show ?thesis
    proof (intro exI [of _ m'] conjI allI impI)
      show "load_loop env rio Synced now (e # es) mm = (Inr (), m')" using e True m1(1) m'(1) by simp
      show "unhealthy m' = unhealthy mm" using m'(2) m1(4) by simp
      show "commands m' i = (if (i, True) \<in> set (e # es)
          then map_option (\<lambda>st. loaded_state (recovered (rcd st) (N i) now)) (commands m i) else commands mm i)" for i
        unfolding m'(3) mem using st m1(2) name by auto
      show "requests m' r = (if \<exists>i st. (i, True) \<in> set (e # es) \<and> commands m i = Some st \<and> request_id (rcd st) = r
          then requests m r else requests mm r)" for r
        unfolding m'(4) mem using st m1(3) ok(2) other by auto
      show "metadata (disk_state m') i = Some (recovered (rcd s) (N i) now)"
        if "(i, True) \<in> set (e # es) \<and> commands m i = Some s" for i s
        using that m'(5) [of i s] m'(6) [of i] m1(5) st name unfolding mem by auto
      show "metadata (disk_state m') i = metadata (disk_state mm) i" if "(i, True) \<notin> set (e # es)" for i
        using that m'(6) [of i] m1(5) unfolding mem by auto
    qed
  qed
qed


lemma sup_m2_spools: "spools (disk_state sup_m2) = Map.empty"
  by (simp add: sup_m2_def start_running_def sup_m1_state Let_def persist_transition_def persist_command_def metadata_max_def
      sample_command_def blank_command_def)

lemma sup_m2_dom: "commands sup_m2 = [sample_id \<mapsto> \<lparr>rcd = sample_command\<lparr>state := Running, started_at := 6\<rparr>, stdin_open = True, contained = True,
      phase = Collecting, spool_failed = False, eofs = 0\<rparr>]"
  by (simp add: sup_m2_def start_running_def sup_m1_state Let_def persist_transition_def persist_command_def metadata_max_def
      sample_command_def blank_command_def)


end
