(* ===== verification/Lease_Types.thy ===== *)
theory Lease_Types
  imports Base64 "HOL-Library.List_Lexorder" "HOL-Library.Char_ord"
begin

text \<open>
  The data of the lease API (\<open>apps/control-plane-go/internal/lease/lease.go\<close>). An error of the
  package carries an HTTP status and a code; \<open>Internal\<close> stands for any other Go error, which
  \<open>ErrorDetails\<close> reports as an internal error. Messages are not modelled.
\<close>

datatype lease_error = LeaseError int string | Internal

definition error_details :: "lease_error \<Rightarrow> int \<times> string" where
  "error_details e = (case e of LeaseError st code \<Rightarrow> (st, code) | Internal \<Rightarrow> (500, ''INTERNAL_ERROR''))"

definition not_found :: lease_error where
  "not_found = LeaseError 404 ''LEASE_NOT_FOUND''"

definition invalid_request :: lease_error where
  "invalid_request = LeaseError 400 ''INVALID_REQUEST''"

definition aborted :: lease_error where
  "aborted = LeaseError 408 ''ABORTED''"

definition workspace_path :: string where "workspace_path = ''/workspace''"
definition default_list_limit :: int where "default_list_limit = 50"
definition max_list_limit :: int where "max_list_limit = 100"
definition max_list_cursor_bytes :: nat where "max_list_cursor_bytes = 8192"
definition max_file_transfer_bytes :: int where "max_file_transfer_bytes = 67108864"

datatype lease_status = Active | Released | Expired

record lease_scope =
  consumer_id :: string
  subject_id :: string

record lease_record =
  lease_id :: string
  lease_pool :: string
  lease_status :: lease_status
  lease_created_at :: time
  lease_expires_at :: time
  last_used_at :: time

record acquire_request =
  aq_pool :: string
  aq_ttl_seconds :: "int option"
  aq_idempotency_key :: string

record list_request =
  lq_pool :: string
  lq_limit :: int
  lq_cursor :: string

record lease_page =
  page_leases :: "lease_record list"
  page_next_cursor :: "string option"

record exec_request =
  xq_command :: string
  xq_cwd :: string
  xq_env :: "(string \<times> string) list"
  xq_timeout_seconds :: "int option"

record exec_result =
  xr_stdout :: bytes
  xr_stderr :: bytes
  xr_code :: int

record stream_write_request =
  sw_path :: string
  sw_size :: int
  sw_sha256 :: bytes

lemma error_details_simps [simp]:
  "error_details (LeaseError st code) = (st, code)" "error_details Internal = (500, ''INTERNAL_ERROR'')"
  by (simp_all add: error_details_def)

end
