(* ===== verification/Pod_Exec.thy ===== *)
theory Pod_Exec
  imports Lease_Types
begin

text \<open>
  Commands in a sandbox Pod (\<open>apps/control-plane-go/internal/backend/kubernetes/exec.go\<close>):
  confinement of paths to the workspace, construction of the shell command, bounded output
  and the classification of the outcome. The lexing of one word by a POSIX shell is stated
  here too, as the specification that quoting is measured against.
\<close>

section \<open>Paths\<close>

definition normalize_workspace_path :: "string \<Rightarrow> lease_error + string" where
  "normalize_workspace_path value =
     (let v1 = (if blank value then workspace_path else value);
          v2 = (if \<not> has_prefix v1 ''/'' then path_join [workspace_path, v1] else v1);
          v3 = path_clean v2
      in if v3 \<noteq> workspace_path \<and> \<not> has_prefix v3 (workspace_path @ ''/'')
         then Inl (LeaseError 400 ''INVALID_PATH'') else Inr v3)"

section \<open>The shell command\<close>

definition name_start :: "char \<Rightarrow> bool" where
  "name_start c = (let n = byte_val c in 65 \<le> n \<and> n \<le> 90 \<or> 97 \<le> n \<and> n \<le> 122 \<or> c = CHR ''_'')"

definition name_char :: "char \<Rightarrow> bool" where
  "name_char c = (name_start c \<or> (let n = byte_val c in 48 \<le> n \<and> n \<le> 57))"

text \<open>The regular expression \<open>^[A-Za-z_][A-Za-z0-9_]*$\<close>.\<close>

definition environment_name :: "string \<Rightarrow> bool" where
  "environment_name s = (case s of [] \<Rightarrow> False | c # cs \<Rightarrow> name_start c \<and> list_all name_char cs)"

fun quote_body :: "string \<Rightarrow> string" where
  "quote_body [] = []"
| "quote_body (c # cs) =
     (if c = CHR 0x27 then [CHR 0x27, CHR 0x5C, CHR 0x27, CHR 0x27] else [c]) @ quote_body cs"

definition shell_quote :: "string \<Rightarrow> string" where
  "shell_quote s = [CHR 0x27] @ quote_body s @ [CHR 0x27]"

definition shell_command :: "string \<Rightarrow> (string \<times> string) list \<Rightarrow> string \<Rightarrow> lease_error + string" where
  "shell_command cwd env command =
     (if \<not> list_all (\<lambda>kv. environment_name (fst kv)) env then Inl invalid_request
      else Inr (join_with '' && '' ((''cd '' @ shell_quote cwd)
             # map (\<lambda>(k, v). ''export '' @ k @ ''='' @ shell_quote v) (sort_key fst env) @ [command])))"

section \<open>Bounded output\<close>

definition max_command_output_bytes :: nat where "max_command_output_bytes = 10485760"

record limited_buffer =
  buf :: bytes
  exceeded :: bool

definition empty_buffer :: limited_buffer where
  "empty_buffer = \<lparr>buf = [], exceeded = False\<rparr>"

text \<open>
  \<open>limitedBuffer.Write\<close> and \<open>boundedBuffer.Write\<close>: the first keeps \<open>maxCommandOutputBytes\<close>,
  the second its own limit. The write always claims to have taken every byte.
\<close>

definition buffer_write :: "nat \<Rightarrow> bytes \<Rightarrow> limited_buffer \<Rightarrow> nat \<times> limited_buffer" where
  "buffer_write limit chunk b =
     (let remaining = int limit - int (length (buf b)) in
      (length chunk,
       \<lparr>buf = (if remaining > 0 then buf b @ take (nat (min remaining (int (length chunk)))) chunk else buf b),
        exceeded = (exceeded b \<or> int (length chunk) > remaining)\<rparr>))"

definition limited_write :: "bytes \<Rightarrow> limited_buffer \<Rightarrow> nat \<times> limited_buffer" where
  "limited_write = buffer_write max_command_output_bytes"

definition write_all :: "nat \<Rightarrow> bytes list \<Rightarrow> limited_buffer \<Rightarrow> limited_buffer" where
  "write_all limit chunks b = foldl (\<lambda>b c. snd (buffer_write limit c b)) b chunks"

section \<open>Running a command\<close>

record pod_target =
  target_pod :: string
  target_container :: string

text \<open>
  What the remote executor delivers: the chunks it writes, and how it ends. \<open>RunContext\<close> is
  an error of the context (cancelled or past its deadline), \<open>RunExit\<close> an exit status, and
  \<open>ctx_done\<close> says whether the context is done when the run returns. The executor itself is
  a function of the target, the command, its input and the time it may take; what else it
  depends on (the cluster, the caller's context) is in the choice of the function.
\<close>

datatype run_end = RunOk | RunExit int | RunContext | RunOther

record run_outcome =
  out_chunks :: "bytes list"
  err_chunks :: "bytes list"
  run_end :: run_end
  ctx_done :: bool

type_synonym runner = "pod_target \<Rightarrow> string list \<Rightarrow> bytes option \<Rightarrow> int option \<Rightarrow> run_outcome"

definition command_timeout :: "int \<Rightarrow> int" where
  "command_timeout seconds = wrap64 (seconds * second)"

definition run_command :: "runner \<Rightarrow> pod_target \<Rightarrow> string list \<Rightarrow> bytes \<Rightarrow> int option \<Rightarrow> lease_error + exec_result" where
  "run_command exec target cmd stdin timeout =
     (if (case timeout of None \<Rightarrow> False | Some t \<Rightarrow> t \<le> 0) then Inl invalid_request
      else let run = exec target cmd (if stdin \<noteq> [] then Some stdin else None) (map_option command_timeout timeout);
               out = write_all max_command_output_bytes (out_chunks run) empty_buffer;
               err = write_all max_command_output_bytes (err_chunks run) empty_buffer;
               result = \<lambda>code. \<lparr>xr_stdout = buf out, xr_stderr = buf err, xr_code = code\<rparr>
        in if exceeded out \<or> exceeded err then Inl (LeaseError 413 ''OUTPUT_TOO_LARGE'')
           else if run_end run = RunOk then Inr (result 0)
           else if ctx_done run \<or> run_end run = RunContext then Inl aborted
           else case run_end run of RunExit code \<Rightarrow> Inr (result code) | _ \<Rightarrow> Inl Internal)"

section \<open>How a shell reads a word\<close>

text \<open>
  The characters that end an unquoted word or have a meaning of their own outside quotes.
\<close>

definition sh_special :: "char \<Rightarrow> bool" where
  "sh_special c = (c \<in> set ('' ;&|<>()$`'' @ [CHR 0x22, CHR 0x09, CHR 0x0A]))"

text \<open>
  \<open>sh_word q s\<close> reads the rest of a word, inside single quotes if \<open>q\<close>: its value and what
  follows; \<open>None\<close> if a quote is not closed.
\<close>

fun sh_word :: "bool \<Rightarrow> string \<Rightarrow> (string \<times> string) option" where
  "sh_word q [] = (if q then None else Some ([], []))"
| "sh_word True (c # s) =
     (if c = CHR 0x27 then sh_word False s else map_option (\<lambda>(w, r). (c # w, r)) (sh_word True s))"
| "sh_word False (c # s) =
     (if c = CHR 0x27 then sh_word True s
      else if c = CHR 0x5C then (case s of [] \<Rightarrow> None
        | d # s' \<Rightarrow> map_option (\<lambda>(w, r). (d # w, r)) (sh_word False s'))
      else if sh_special c then Some ([], c # s)
      else map_option (\<lambda>(w, r). (c # w, r)) (sh_word False s))"

text \<open>The export commands at the head of a list joined by \<open>&&\<close>: \<open>n\<close> of them.\<close>

fun sh_exports :: "nat \<Rightarrow> string \<Rightarrow> ((string \<times> string) list \<times> string) option" where
  "sh_exports 0 s = (if has_prefix s '' && '' then Some ([], drop 4 s) else None)"
| "sh_exports (Suc n) s =
     (if \<not> has_prefix s '' && export '' then None
      else let body = drop 11 s; name = takeWhile name_char body; rest = dropWhile name_char body in
        if \<not> has_prefix rest ''='' then None
        else case sh_word False (drop 1 rest) of None \<Rightarrow> None
          | Some (v, r) \<Rightarrow> map_option (\<lambda>(kvs, cmd). ((name, v) # kvs, cmd)) (sh_exports n r))"

definition sh_read :: "nat \<Rightarrow> string \<Rightarrow> (string \<times> (string \<times> string) list \<times> string) option" where
  "sh_read n s =
     (if \<not> has_prefix s ''cd '' then None
      else case sh_word False (drop 3 s) of None \<Rightarrow> None
        | Some (dir, r) \<Rightarrow> map_option (\<lambda>(kvs, cmd). (dir, kvs, cmd)) (sh_exports n r))"

section \<open>Quoting is exact\<close>

lemma sh_word_quote_body: "sh_word True (quote_body s @ CHR 0x27 # r) = map_option (\<lambda>(w, r). (s @ w, r)) (sh_word False r)"
  by (induction s) (simp_all add: option.map_comp o_def split_def option.map_ident)

definition ends_word :: "string \<Rightarrow> bool" where
  "ends_word r = (case r of [] \<Rightarrow> True | c # _ \<Rightarrow> sh_special c)"

lemma sh_word_ends: "ends_word r \<Longrightarrow> sh_word False r = Some ([], r)"
  by (cases r) (auto simp: ends_word_def sh_special_def)

lemma sh_word_shell_quote: "ends_word r \<Longrightarrow> sh_word False (shell_quote s @ r) = Some (s, r)"
  using sh_word_quote_body [of s r] by (simp add: shell_quote_def sh_word_ends)

lemma environment_name_chars:
  "environment_name k \<Longrightarrow> takeWhile name_char (k @ CHR ''='' # r) = k \<and> dropWhile name_char (k @ CHR ''='' # r) = CHR ''='' # r"
proof -
  assume "environment_name k"
  then have "list_all name_char k" by (cases k) (auto simp: environment_name_def name_char_def)
  moreover have "\<not> name_char CHR ''=''" by (simp add: name_char_def name_start_def)
  ultimately show ?thesis by (induction k) auto
qed

definition exports_text :: "(string \<times> string) list \<Rightarrow> string \<Rightarrow> string" where
  "exports_text env command = concat (map (\<lambda>(k, v). '' && export '' @ k @ ''='' @ shell_quote v) env) @ '' && '' @ command"

lemma sh_exports_text:
  "\<forall>kv \<in> set env. environment_name (fst kv) \<Longrightarrow> sh_exports (length env) (exports_text env command) = Some (env, command)"
proof (induction env)
  case Nil
  then show ?case by (simp add: exports_text_def)
next
  case (Cons kv env)
  obtain k v where kv [simp]: "kv = (k, v)" by fastforce
  let ?t = "exports_text env command"
  define x where "x = exports_text ((k, v) # env) command"
  have ew: "ends_word ?t" by (cases env) (auto simp: exports_text_def ends_word_def sh_special_def)
  have tx: "x = '' && export '' @ k @ CHR ''='' # shell_quote v @ ?t"
    by (simp add: exports_text_def x_def)
  have pre: "has_prefix x '' && export ''"
    unfolding tx by (rule has_prefix_append)
  have body: "drop 11 x = k @ CHR ''='' # shell_quote v @ ?t"
    unfolding tx by simp
  have name: "environment_name k" using Cons.prems by simp
  note tw = environment_name_chars [OF name, of "shell_quote v @ ?t"]
  have IH: "sh_exports (length env) ?t = Some (env, command)" using Cons by simp
  have "sh_exports (Suc (length env)) x = Some ((k, v) # env, command)"
    using pre tw sh_word_shell_quote [OF ew, of v] IH
    by (simp add: body Let_def)
  then show ?case by (simp add: x_def)
qed

lemma join_exports:
  "join_with '' && '' (p # map (\<lambda>(k, v). ''export '' @ k @ ''='' @ shell_quote v) env @ [command])
   = p @ exports_text env command"
  by (induction env arbitrary: p) (auto simp: exports_text_def split: prod.splits)

end
