(* ===== verification/File_Transfer.thy ===== *)
theory File_Transfer
  imports Pod_Exec Transition
begin

text \<open>
  File transfers (\<open>apps/control-plane-go/internal/backend/kubernetes/transfer.go\<close>): the manager
  that admits, cancels and accounts for them, the marker line of the ASP1 protocol, and the
  control plane's side of a download and of an upload. A transfer lives in a heap; its
  identity is its index there. The steps of \<open>finish\<close> are separate, because the code takes
  the lock only for the second.
\<close>

section \<open>State of the manager\<close>

text \<open>
  \<open>Registered\<close>: in the table of active transfers. \<open>Finishing\<close>: \<open>finish\<close> entered and the context
  cancelled, the lock not yet taken. \<open>Removed\<close>: taken out of the table. \<open>Uncounted\<close>: the wait
  group has been told. \<open>Closed\<close>: the \<open>done\<close> channel is closed.
\<close>

datatype op_phase = Registered | Finishing | Removed | Uncounted | Closed

record transfer_op =
  op_lease :: string
  op_deadline :: time
  op_cancelled :: bool
  op_phase :: op_phase

record transfer_manager =
  tm_closed :: bool
  tm_blocked :: "string \<Rightarrow> bool"
  tm_active :: "string \<rightharpoonup> nat set"
  tm_global :: int
  tm_per_lease :: "string \<rightharpoonup> int"
  tm_max_global :: int
  tm_max_per_lease :: int
  tm_timeout :: int
  tm_wg :: int
  tm_ops :: "nat \<rightharpoonup> transfer_op"
  tm_next :: nat

definition new_transfer_manager :: "int \<Rightarrow> int \<Rightarrow> int \<Rightarrow> transfer_manager" where
  "new_transfer_manager max_global max_per_lease timeout =
     \<lparr>tm_closed = False, tm_blocked = (\<lambda>_. False), tm_active = Map.empty, tm_global = 0,
      tm_per_lease = Map.empty, tm_max_global = max_global, tm_max_per_lease = max_per_lease,
      tm_timeout = timeout, tm_wg = 0, tm_ops = Map.empty, tm_next = 0\<rparr>"

text \<open>Reading a Go map of integers, and of sets: a missing key reads as zero, as empty.\<close>

definition count_of :: "(string \<rightharpoonup> int) \<Rightarrow> string \<Rightarrow> int" where
  "count_of m l = (case m l of None \<Rightarrow> 0 | Some n \<Rightarrow> n)"

definition active_of :: "transfer_manager \<Rightarrow> string \<Rightarrow> nat set" where
  "active_of m l = (case tm_active m l of None \<Rightarrow> {} | Some S \<Rightarrow> S)"

definition update_op :: "nat \<Rightarrow> (transfer_op \<Rightarrow> transfer_op) \<Rightarrow> transfer_manager \<Rightarrow> transfer_manager" where
  "update_op i f m = m\<lparr>tm_ops := (\<lambda>j. if j = i then map_option f (tm_ops m j) else tm_ops m j)\<rparr>"

section \<open>Operations of the manager\<close>

definition begin_transfer ::
  "transfer_manager \<Rightarrow> time \<Rightarrow> string \<Rightarrow> time \<Rightarrow> (lease_error + nat) \<times> transfer_manager" where
  "begin_transfer m now l expires =
     (if tm_closed m \<or> tm_blocked m l then (Inl aborted, m)
      else if tm_global m \<ge> tm_max_global m \<or> count_of (tm_per_lease m) l \<ge> tm_max_per_lease m
      then (Inl (LeaseError 429 ''TRANSFER_LIMIT_REACHED''), m)
      else let d = now + tm_timeout m; deadline = (if expires < d then expires else d); i = tm_next m
        in (Inr i, m\<lparr>tm_ops := (tm_ops m)(i \<mapsto> \<lparr>op_lease = l, op_deadline = deadline, op_cancelled = False, op_phase = Registered\<rparr>),
              tm_next := Suc i,
              tm_active := (tm_active m)(l \<mapsto> insert i (active_of m l)),
              tm_global := tm_global m + 1,
              tm_per_lease := (tm_per_lease m)(l \<mapsto> count_of (tm_per_lease m) l + 1),
              tm_wg := tm_wg m + 1\<rparr>))"

definition cancel_op :: "nat \<Rightarrow> transfer_manager \<Rightarrow> transfer_manager" where
  "cancel_op i = update_op i (op_cancelled_update (\<lambda>_. True))"

text \<open>The context of a transfer is done when it is cancelled or its deadline has passed.\<close>

definition ctx_err :: "transfer_manager \<Rightarrow> nat \<Rightarrow> time \<Rightarrow> bool" where
  "ctx_err m i now = (case tm_ops m i of None \<Rightarrow> True | Some t \<Rightarrow> op_cancelled t \<or> op_deadline t \<le> now)"

definition in_phase :: "transfer_manager \<Rightarrow> nat \<Rightarrow> op_phase \<Rightarrow> bool" where
  "in_phase m i p = (case tm_ops m i of None \<Rightarrow> False | Some t \<Rightarrow> op_phase t = p)"

text \<open>The steps of \<open>finish\<close>; \<open>sync.Once\<close> lets only one caller through the first.\<close>

definition finish_enter :: "nat \<Rightarrow> transfer_manager \<Rightarrow> transfer_manager" where
  "finish_enter i m = (if in_phase m i Registered
     then update_op i (op_phase_update (\<lambda>_. Finishing)) (cancel_op i m) else m)"

definition finish_remove :: "nat \<Rightarrow> transfer_manager \<Rightarrow> transfer_manager" where
  "finish_remove i m = (if \<not> in_phase m i Finishing then m
     else let l = (case tm_ops m i of None \<Rightarrow> [] | Some t \<Rightarrow> op_lease t);
              S = active_of m l - {i}; n = count_of (tm_per_lease m) l - 1
          in (update_op i (op_phase_update (\<lambda>_. Removed)) m)
             \<lparr>tm_active := (tm_active m)(l := if S = {} then None else Some S),
              tm_global := tm_global m - 1,
              tm_per_lease := (tm_per_lease m)(l := if n = 0 then None else Some n)\<rparr>)"

definition finish_uncount :: "nat \<Rightarrow> transfer_manager \<Rightarrow> transfer_manager" where
  "finish_uncount i m = (if in_phase m i Removed
     then (update_op i (op_phase_update (\<lambda>_. Uncounted)) m)\<lparr>tm_wg := tm_wg m - 1\<rparr> else m)"

definition finish_close :: "nat \<Rightarrow> transfer_manager \<Rightarrow> transfer_manager" where
  "finish_close i m = (if in_phase m i Uncounted
     then update_op i (op_phase_update (\<lambda>_. Closed)) m else m)"

definition finish :: "nat \<Rightarrow> transfer_manager \<Rightarrow> transfer_manager" where
  "finish i m = finish_close i (finish_uncount i (finish_remove i (finish_enter i m)))"

definition cancel_all :: "nat set \<Rightarrow> transfer_manager \<Rightarrow> transfer_manager" where
  "cancel_all S m = m\<lparr>tm_ops := (\<lambda>i. if i \<in> S then map_option (op_cancelled_update (\<lambda>_. True)) (tm_ops m i) else tm_ops m i)\<rparr>"

text \<open>The locked part of \<open>stopLease\<close>, with the transfers it then waits for, and the wait.\<close>

definition stop_lease :: "string \<Rightarrow> transfer_manager \<Rightarrow> nat set \<times> transfer_manager" where
  "stop_lease l m =
     (let ops = active_of m l in (ops, cancel_all ops (m\<lparr>tm_blocked := (tm_blocked m)(l := True)\<rparr>)))"

definition wait_transfers :: "transfer_manager \<Rightarrow> nat set \<Rightarrow> bool" where
  "wait_transfers m ops = (\<forall>i \<in> ops. in_phase m i Closed)"

definition close_transfers :: "transfer_manager \<Rightarrow> transfer_manager" where
  "close_transfers m = cancel_all (\<Union> (ran (tm_active m))) (m\<lparr>tm_closed := True\<rparr>)"

text \<open>The wait of \<open>close\<close> returns without an error when the wait group is at zero.\<close>

definition close_waited :: "transfer_manager \<Rightarrow> bool" where
  "close_waited m = (tm_wg m = 0)"

section \<open>The manager as a state machine\<close>

inductive tm_step :: "transfer_manager \<Rightarrow> transfer_manager \<Rightarrow> bool" where
  tm_begin: "tm_step m (snd (begin_transfer m now l expires))"
| tm_cancel: "tm_step m (cancel_op i m)"
| tm_enter: "tm_step m (finish_enter i m)"
| tm_remove: "tm_step m (finish_remove i m)"
| tm_uncount: "tm_step m (finish_uncount i m)"
| tm_shut: "tm_step m (finish_close i m)"
| tm_stop: "tm_step m (snd (stop_lease l m))"
| tm_close: "tm_step m (close_transfers m)"

inductive_cases tm_stepE: "tm_step m m'"

definition tm_init :: "transfer_manager \<Rightarrow> bool" where
  "tm_init m = (\<exists>g p t. 1 \<le> p \<and> p \<le> g \<and> 0 < t \<and> m = new_transfer_manager g p t)"

section \<open>Markers\<close>

text \<open>
  An error of a reader: the end of the stream, a context error, an error of the lease
  package, or any other.
\<close>

datatype io_error = Io_eof | Io_ctx | Io_lease lease_error | Io_other

record transfer_marker =
  mk_size :: int
  mk_digest :: bytes
  mk_code :: string

definition empty_marker :: transfer_marker where
  "empty_marker = \<lparr>mk_size = 0, mk_digest = replicate 32 CHR 0x00, mk_code = []\<rparr>"

definition parse_transfer_marker :: "string \<Rightarrow> io_error + transfer_marker" where
  "parse_transfer_marker value =
     (let parts = split_on CHR '' '' value in
      if length parts = 3 \<and> parts ! 0 = ''ASP1'' \<and> parts ! 1 = ''ERR'' \<and> parts ! 2 \<noteq> []
      then Inr (empty_marker\<lparr>mk_code := parts ! 2\<rparr>)
      else if length parts = 2 \<and> parts ! 0 = ''ASP1'' \<and> parts ! 1 = ''OK'' then Inr empty_marker
      else if length parts = 4 \<and> parts ! 0 = ''ASP1'' \<and> parts ! 1 = ''OK''
      then (case (parse_int64 (parts ! 2), hex_decode (parts ! 3)) of
          (Some sz, Some digest) \<Rightarrow>
            if length digest = 32 then Inr \<lparr>mk_size = sz, mk_digest = digest, mk_code = []\<rparr> else Inl Io_other
        | _ \<Rightarrow> Inl Io_other)
      else Inl Io_other)"

definition max_transfer_marker_bytes :: nat where "max_transfer_marker_bytes = 256"
definition max_transfer_stderr_bytes :: nat where "max_transfer_stderr_bytes = 4096"

text \<open>
  \<open>readTransferMarker\<close> on a stream of bytes that ends with an error: one byte at a time, at
  most \<open>room\<close> before a line feed. The second component is what is left of the stream.
\<close>

fun read_transfer_marker :: "nat \<Rightarrow> string \<Rightarrow> bytes \<Rightarrow> io_error \<Rightarrow> (io_error + transfer_marker) \<times> bytes" where
  "read_transfer_marker 0 line s e = (Inl Io_other, s)"
| "read_transfer_marker (Suc room) line [] e = (Inl e, [])"
| "read_transfer_marker (Suc room) line (c # s) e =
     (if c = CHR 0x0A then (parse_transfer_marker line, s)
      else read_transfer_marker room (line @ [c]) s e)"

section \<open>Errors\<close>

definition transfer_too_large :: lease_error where
  "transfer_too_large = LeaseError 413 ''TRANSFER_TOO_LARGE''"

definition file_transfer_failed :: lease_error where
  "file_transfer_failed = LeaseError 502 ''FILE_TRANSFER_FAILED''"

definition remote_transfer_error :: "string \<Rightarrow> lease_error" where
  "remote_transfer_error code =
     (if code = ''FILE_NOT_FOUND'' then LeaseError 404 code
      else if code = ''INVALID_PATH'' then LeaseError 400 code
      else if code = ''TRANSFER_TOO_LARGE'' then LeaseError 413 code
      else if code = ''CONTENT_LENGTH_MISMATCH'' then LeaseError 400 code
      else if code = ''CONTENT_DIGEST_MISMATCH'' then LeaseError 422 code
      else file_transfer_failed)"

definition normalize_transfer_error :: "io_error \<Rightarrow> lease_error" where
  "normalize_transfer_error e = (case e of Io_lease le \<Rightarrow> le | Io_ctx \<Rightarrow> aborted | _ \<Rightarrow> file_transfer_failed)"

text \<open>The error that ends a run, \<open>None\<close> when there is none.\<close>

definition map_transfer_run_error :: "bool \<Rightarrow> io_error option \<Rightarrow> lease_error option" where
  "map_transfer_run_error ctx_is_done e =
     (if ctx_is_done \<or> e = Some Io_ctx then Some aborted
      else if e \<noteq> None then Some file_transfer_failed else None)"

text \<open>What the reader of a download pipe sees at its end (\<open>CloseWithError\<close>; nil means EOF).\<close>

definition pipe_end :: "bool \<Rightarrow> io_error option \<Rightarrow> io_error" where
  "pipe_end ctx_is_done e = (case map_transfer_run_error ctx_is_done e of None \<Rightarrow> Io_eof | Some le \<Rightarrow> Io_lease le)"

section \<open>Downloads and uploads\<close>

record download =
  dl_op :: nat
  dl_size :: int
  dl_digest :: bytes
  dl_content :: bytes

text \<open>
  The part of \<open>OpenFile\<close> after its preparation. The helper's output and the way its run ends
  are given as the stream \<open>out\<close> and its end; \<open>late\<close> says that the context is done after the
  marker has been read. On every error the transfer is cancelled and its \<open>finish\<close> awaited.
\<close>

definition open_download ::
  "transfer_manager \<Rightarrow> time \<Rightarrow> string \<Rightarrow> time \<Rightarrow> bytes \<Rightarrow> io_error \<Rightarrow> bool \<Rightarrow> (lease_error + download) \<times> transfer_manager" where
  "open_download m now lid expires out ending late =
     (case begin_transfer m now lid expires of (Inl e, m1) \<Rightarrow> (Inl e, m1)
      | (Inr i, m1) \<Rightarrow>
        (let (marker, rest) = read_transfer_marker max_transfer_marker_bytes [] out ending;
             fail = (\<lambda>e. (Inl e, finish i (cancel_op i m1)))
         in case marker of
              Inr mk \<Rightarrow>
                if mk_code mk \<noteq> [] then fail (remote_transfer_error (mk_code mk))
                else if late then fail aborted
                else if mk_size mk < 0 \<or> mk_size mk > max_file_transfer_bytes then fail transfer_too_large
                else (Inr \<lparr>dl_op = i, dl_size = mk_size mk, dl_digest = mk_digest mk, dl_content = rest\<rparr>, m1)
            | Inl e \<Rightarrow> if late then fail aborted else fail (normalize_transfer_error e)))"

text \<open>\<open>Close\<close> of the reader of a download: cancel and wait for \<open>finish\<close>.\<close>

definition download_close :: "download \<Rightarrow> transfer_manager \<Rightarrow> transfer_manager" where
  "download_close d m = finish (dl_op d) (cancel_op (dl_op d) m)"

text \<open>What an upload's run leaves behind.\<close>

record upload_run =
  ur_stdout :: "bytes list"
  ur_error :: "io_error option"
  ur_ctx_done :: bool
  ur_input_error :: "io_error option"
  ur_input_count :: int

definition upload_command :: "string \<Rightarrow> stream_write_request \<Rightarrow> string list" where
  "upload_command path rq =
     [''/usr/local/bin/agent-sandbox-transfer'', ''upload'', path, itoa (sw_size rq), hex_encode (sw_sha256 rq)]"

definition upload_outcome :: "stream_write_request \<Rightarrow> upload_run \<Rightarrow> lease_error + unit" where
  "upload_outcome rq run =
     (if ur_ctx_done run then Inl aborted
      else if ur_input_error run \<noteq> None \<and> ur_input_error run \<noteq> Some Io_eof \<and> ur_input_count run \<ge> sw_size rq
      then Inl (LeaseError 400 ''CONTENT_LENGTH_MISMATCH'')
      else let stdout = write_all max_transfer_marker_bytes (ur_stdout run) empty_buffer;
               fallback = (case map_transfer_run_error (ur_ctx_done run) (ur_error run) of
                 Some e \<Rightarrow> Inl e | None \<Rightarrow> Inl file_transfer_failed)
        in if exceeded stdout then fallback
           else case parse_transfer_marker (trim_suffix (buf stdout) [CHR 0x0A]) of
               Inl _ \<Rightarrow> fallback
             | Inr mk \<Rightarrow> if mk_code mk \<noteq> [] then Inl (remote_transfer_error (mk_code mk))
                 else if ur_error run = None then Inr () else fallback)"

definition write_stream ::
  "transfer_manager \<Rightarrow> time \<Rightarrow> string \<Rightarrow> time \<Rightarrow> stream_write_request \<Rightarrow> upload_run \<Rightarrow> (lease_error + unit) \<times> transfer_manager" where
  "write_stream m now lid expires rq run =
     (case begin_transfer m now lid expires of (Inl e, m1) \<Rightarrow> (Inl e, m1)
      | (Inr i, m1) \<Rightarrow> (upload_outcome rq run, finish i m1))"

end
