(* ===== verification/File_Helper.thy ===== *)
theory File_Helper
  imports File_Transfer
begin

text \<open>
  The sandbox side of a file transfer (\<open>images/runtime/file-transfer/main.go\<close>). The kernel is
  an argument: \<open>openat\<close> gives the result of opening a name relative to a directory without
  following a symbolic link, and the outcome of every later system call is an input of the
  operation. The directory that holds the destination of an upload is a map from names to
  entries.
\<close>

section \<open>Errors and output\<close>

text \<open>A \<open>protocolError\<close> with its code, or a \<open>postflightError\<close> after the marker was due.\<close>

datatype helper_error = Protocol string | Postflight

definition invalid_path :: helper_error where "invalid_path = Protocol ''INVALID_PATH''"
definition transfer_failed :: helper_error where "transfer_failed = Protocol ''TRANSFER_FAILED''"

definition newline :: string where "newline = [CHR 0x0A]"

text \<open>\<open>main\<close>: what is printed after the output of \<open>run\<close>, and the exit status.\<close>

definition helper_main :: "bytes \<times> helper_error option \<Rightarrow> bytes \<times> int" where
  "helper_main r = (case snd r of
       None \<Rightarrow> (fst r, 0)
     | Some Postflight \<Rightarrow> (fst r, 1)
     | Some (Protocol code) \<Rightarrow> (fst r @ ''ASP1 ERR '' @ code @ newline, 1))"

section \<open>Opening the parent directory\<close>

datatype 'd opened = Opened 'd | Enoent | Open_failed

definition helper_root :: string where "helper_root = ''/workspace''"
definition helper_max_bytes :: int where "helper_max_bytes = 67108864"

fun walk :: "('d \<Rightarrow> string \<Rightarrow> 'd opened) \<Rightarrow> bool \<Rightarrow> 'd \<Rightarrow> string list \<Rightarrow> helper_error + 'd" where
  "walk openat up d [] = Inr d"
| "walk openat up d (p # ps) = (case openat d p of
      Enoent \<Rightarrow> Inl (if up then invalid_path else Protocol ''FILE_NOT_FOUND'')
    | Open_failed \<Rightarrow> Inl invalid_path
    | Opened d' \<Rightarrow> walk openat up d' ps)"

definition path_parts :: "string \<Rightarrow> helper_error + string list" where
  "path_parts path =
     (if \<not> has_prefix path (helper_root @ ''/'') then Inl invalid_path
      else let parts = split_on CHR ''/'' (drop (length (helper_root @ ''/'')) path) in
        if parts = [] \<or> last parts = [] then Inl invalid_path
        else if list_ex (\<lambda>p. p = [] \<or> p = ''.'' \<or> p = ''..'') parts then Inl invalid_path
        else Inr parts)"

definition open_parent ::
  "'d opened \<Rightarrow> ('d \<Rightarrow> string \<Rightarrow> 'd opened) \<Rightarrow> string \<Rightarrow> bool \<Rightarrow> helper_error + ('d \<times> string)" where
  "open_parent root openat path up = (case path_parts path of Inl e \<Rightarrow> Inl e
     | Inr parts \<Rightarrow> (case root of
         Opened d \<Rightarrow> (case walk openat up d (butlast parts) of Inl e \<Rightarrow> Inl e | Inr d' \<Rightarrow> Inr (d', last parts))
       | _ \<Rightarrow> Inl invalid_path))"

section \<open>Temporary files\<close>

datatype create_outcome = Created | Exists | Create_failed

text \<open>
  At most sixteen attempts, each with its random bytes (\<open>None\<close> if there are none) and the
  outcome of creating the file exclusively.
\<close>

fun create_attempts :: "nat \<Rightarrow> string \<Rightarrow> (bytes option \<times> create_outcome) list \<Rightarrow> string option" where
  "create_attempts 0 prefix tries = None"
| "create_attempts (Suc n) prefix [] = None"
| "create_attempts (Suc n) prefix ((random, outcome) # tries) =
     (case random of None \<Rightarrow> None
      | Some r \<Rightarrow> (case outcome of
          Exists \<Rightarrow> create_attempts n prefix tries
        | Created \<Rightarrow> Some (prefix @ hex_encode r)
        | Create_failed \<Rightarrow> None))"

definition create_temporary :: "string \<Rightarrow> (bytes option \<times> create_outcome) list \<Rightarrow> string option" where
  "create_temporary = create_attempts 16"

section \<open>Download\<close>

text \<open>The source as it was opened: what \<open>fstat\<close> says of it and what reading it yields.\<close>

record source_file =
  sf_regular :: bool
  sf_size :: int
  sf_content :: bytes

text \<open>
  The outcomes of the calls after that. A write that fails has delivered a prefix of the
  data; \<open>None\<close> is a write that succeeds.
\<close>

record download_io =
  di_temporary :: "(bytes option \<times> create_outcome) list"
  di_copied :: bool
  di_seek :: bool
  di_unlink :: bool
  di_marker :: "nat option"
  di_body :: "nat option"

definition ok_marker :: "int \<Rightarrow> bytes \<Rightarrow> string" where
  "ok_marker sz digest = ''ASP1 OK '' @ itoa sz @ '' '' @ hex_encode digest @ newline"

definition helper_download :: "(bytes \<Rightarrow> bytes) \<Rightarrow> source_file opened \<Rightarrow> download_io \<Rightarrow> bytes \<times> helper_error option" where
  "helper_download sha256 source io = (case source of
       Enoent \<Rightarrow> ([], Some (Protocol ''FILE_NOT_FOUND''))
     | Open_failed \<Rightarrow> ([], Some invalid_path)
     | Opened f \<Rightarrow>
        (if \<not> sf_regular f then ([], Some invalid_path)
         else if sf_size f > helper_max_bytes then ([], Some (Protocol ''TRANSFER_TOO_LARGE''))
         else if create_temporary ''.asp-download-'' (di_temporary io) = None then ([], Some transfer_failed)
         else let content = take (nat (helper_max_bytes + 1)) (sf_content f) in
           if \<not> di_copied io then ([], Some transfer_failed)
           else if int (length content) > helper_max_bytes then ([], Some (Protocol ''TRANSFER_TOO_LARGE''))
           else if \<not> di_seek io \<or> \<not> di_unlink io then ([], Some transfer_failed)
           else let marker = ok_marker (int (length content)) (sha256 content) in
             (case di_marker io of Some n \<Rightarrow> (take n marker, Some Postflight)
              | None \<Rightarrow> (case di_body io of Some n \<Rightarrow> (marker @ take n content, Some Postflight)
                  | None \<Rightarrow> (marker @ content, None)))))"

section \<open>Upload\<close>

datatype entry = Regular bytes | Not_regular

type_synonym directory = "string \<rightharpoonup> entry"

text \<open>
  The outcomes of an upload's calls: whether an existing destination could be opened, the
  attempts to create the temporary file, after how many bytes writing to it failed, how standard input
  ends after the given bytes, and the results of \<open>fsync\<close>, \<open>close\<close>, \<open>renameat\<close>, the unlinking of
  the temporary file and the writing of the response.
\<close>

record upload_io =
  ui_opens :: bool
  ui_temporary :: "(bytes option \<times> create_outcome) list"
  ui_write_failed :: "nat option"
  ui_ending :: io_error
  ui_sync :: bool
  ui_close :: bool
  ui_rename :: bool
  ui_unlink :: bool
  ui_response :: bool

definition byte_word :: "char \<Rightarrow> 8 word" where
  "byte_word c = of_nat (byte_val c)"

unbundle bit_operations_syntax

definition equal_digest :: "bytes \<Rightarrow> bytes \<Rightarrow> bool" where
  "equal_digest left right =
     (length left = length right
      \<and> foldl (\<lambda>different (a, b). different OR (byte_word a XOR byte_word b)) 0 (zip left right) = 0)"

definition destination_ok :: "directory \<Rightarrow> string \<Rightarrow> upload_io \<Rightarrow> bool" where
  "destination_ok dir base io = (case dir base of
       None \<Rightarrow> True | Some (Regular _) \<Rightarrow> ui_opens io | Some Not_regular \<Rightarrow> False)"

text \<open>\<open>io.CopyN\<close>, the read of one more byte and the digest.\<close>

definition upload_checked :: "(bytes \<Rightarrow> bytes) \<Rightarrow> int \<Rightarrow> bytes \<Rightarrow> bytes \<Rightarrow> upload_io \<Rightarrow> helper_error option" where
  "upload_checked sha256 sz expected input io =
     (if ui_write_failed io \<noteq> None \<or> int (length input) < sz then Some (Protocol ''CONTENT_LENGTH_MISMATCH'')
      else if int (length input) > sz \<or> ui_ending io \<noteq> Io_eof then Some (Protocol ''CONTENT_LENGTH_MISMATCH'')
      else if \<not> equal_digest (sha256 (take (nat sz) input)) expected then Some (Protocol ''CONTENT_DIGEST_MISMATCH'')
      else if \<not> ui_sync io \<or> \<not> ui_close io \<or> \<not> ui_rename io then Some transfer_failed
      else None)"

definition helper_upload ::
  "(bytes \<Rightarrow> bytes) \<Rightarrow> directory \<Rightarrow> string \<Rightarrow> int \<Rightarrow> bytes \<Rightarrow> bytes \<Rightarrow> upload_io \<Rightarrow> (bytes \<times> helper_error option) \<times> directory" where
  "helper_upload sha256 dir base sz expected input io =
     (if \<not> destination_ok dir base io then (([], Some invalid_path), dir)
      else case create_temporary ''.asp-upload-'' (ui_temporary io) of
        None \<Rightarrow> (([], Some transfer_failed), dir)
      | Some name \<Rightarrow>
         (let content = take (case ui_write_failed io of None \<Rightarrow> nat sz | Some n \<Rightarrow> n) (take (nat sz) input) in
          case upload_checked sha256 sz expected input io of
            Some e \<Rightarrow> (([], Some e), if ui_unlink io then dir(name := None) else dir(name \<mapsto> Regular content))
          | None \<Rightarrow>
             ((if ui_response io then ''ASP1 OK'' @ newline else [], if ui_response io then None else Some Postflight),
              (dir(name := None))(base \<mapsto> Regular content))))"

section \<open>The command line\<close>

datatype helper_call = Call_download string | Call_upload string int bytes

definition parse_call :: "string list \<Rightarrow> helper_error + helper_call" where
  "parse_call args =
     (if length args < 2 then Inl invalid_path
      else if args ! 0 = ''download'' then
        (if length args \<noteq> 2 then Inl invalid_path else Inr (Call_download (args ! 1)))
      else if args ! 0 = ''upload'' then
        (if length args \<noteq> 4 then Inl invalid_path
         else case parse_int64 (args ! 2) of
             None \<Rightarrow> Inl (Protocol ''TRANSFER_TOO_LARGE'')
           | Some sz \<Rightarrow> if sz < 0 \<or> sz > helper_max_bytes then Inl (Protocol ''TRANSFER_TOO_LARGE'')
               else (case hex_decode (args ! 3) of
                   None \<Rightarrow> Inl (Protocol ''CONTENT_DIGEST_MISMATCH'')
                 | Some digest \<Rightarrow> if length digest \<noteq> 32 then Inl (Protocol ''CONTENT_DIGEST_MISMATCH'')
                     else Inr (Call_upload (args ! 1) sz digest)))
      else Inl invalid_path)"

end
