(* ===== verification/File_Transfer_Props.thy ===== *)
theory File_Transfer_Props
  imports File_Transfer
begin

text \<open>
  The properties of file transfers: the counters of the manager are the numbers of transfers
  they count and respect their limits, stopping a lease or the manager is final, and a
  download or an upload reports success only when the helper did.
\<close>

section \<open>Transfers in a phase\<close>

definition registered :: "transfer_manager \<Rightarrow> nat set" where
  "registered m = {i. \<exists>t. tm_ops m i = Some t \<and> op_phase t \<in> {Registered, Finishing}}"

definition registered_of :: "transfer_manager \<Rightarrow> string \<Rightarrow> nat set" where
  "registered_of m l = {i. \<exists>t. tm_ops m i = Some t \<and> op_phase t \<in> {Registered, Finishing} \<and> op_lease t = l}"

definition counted :: "transfer_manager \<Rightarrow> nat set" where
  "counted m = {i. \<exists>t. tm_ops m i = Some t \<and> op_phase t \<in> {Registered, Finishing, Removed}}"

definition heap_inv :: "transfer_manager \<Rightarrow> bool" where
  "heap_inv m \<longleftrightarrow> (\<forall>i. tm_next m \<le> i \<longrightarrow> tm_ops m i = None)"

definition active_inv :: "transfer_manager \<Rightarrow> bool" where
  "active_inv m \<longleftrightarrow> (\<forall>l. active_of m l = registered_of m l)"

definition count_inv :: "transfer_manager \<Rightarrow> bool" where
  "count_inv m \<longleftrightarrow> tm_global m = int (card (registered m)) \<and> tm_wg m = int (card (counted m))
     \<and> (\<forall>l. count_of (tm_per_lease m) l = int (card (registered_of m l)))"

definition limit_inv :: "transfer_manager \<Rightarrow> bool" where
  "limit_inv m \<longleftrightarrow> tm_global m \<le> tm_max_global m \<and> (\<forall>l. count_of (tm_per_lease m) l \<le> tm_max_per_lease m)"

definition stop_inv :: "transfer_manager \<Rightarrow> bool" where
  "stop_inv m \<longleftrightarrow> (\<forall>i t. tm_ops m i = Some t \<and> op_phase t \<in> {Registered, Finishing}
     \<and> (tm_closed m \<or> tm_blocked m (op_lease t)) \<longrightarrow> op_cancelled t)"

definition tm_inv :: "transfer_manager \<Rightarrow> bool" where
  "tm_inv m \<longleftrightarrow> heap_inv m \<and> active_inv m \<and> count_inv m \<and> limit_inv m \<and> stop_inv m"

lemmas tm_inv_defs = heap_inv_def active_inv_def count_inv_def limit_inv_def stop_inv_def

lemma heap_finite: "heap_inv m \<Longrightarrow> finite {i. \<exists>t. tm_ops m i = Some t \<and> P t}"
  by (rule finite_subset [of _ "{..< tm_next m}"]) (auto simp: heap_inv_def not_le [symmetric])

lemma registered_finite:
  assumes "heap_inv m" shows "finite (registered m)" "finite (registered_of m l)" "finite (counted m)"
  using heap_finite [OF assms] by (simp_all add: registered_def registered_of_def counted_def)

section \<open>Field updates\<close>

lemma update_op_sel [simp]:
  "tm_closed (update_op i f m) = tm_closed m" "tm_blocked (update_op i f m) = tm_blocked m"
  "tm_active (update_op i f m) = tm_active m" "tm_global (update_op i f m) = tm_global m"
  "tm_per_lease (update_op i f m) = tm_per_lease m" "tm_max_global (update_op i f m) = tm_max_global m"
  "tm_max_per_lease (update_op i f m) = tm_max_per_lease m" "tm_timeout (update_op i f m) = tm_timeout m"
  "tm_wg (update_op i f m) = tm_wg m" "tm_next (update_op i f m) = tm_next m"
  "tm_ops (update_op i f m) j = (if j = i then map_option f (tm_ops m j) else tm_ops m j)"
  by (simp_all add: update_op_def)

lemma active_of_cong: "tm_active m' = tm_active m \<Longrightarrow> active_of m' = active_of m"
  by (rule ext) (simp add: active_of_def)

text \<open>
  A step that changes neither the table nor the counters, and no transfer's lease or phase,
  keeps the invariant as long as what must be cancelled is.
\<close>

definition phase_class :: "op_phase \<Rightarrow> op_phase" where
  "phase_class p = (case p of Finishing \<Rightarrow> Registered | Closed \<Rightarrow> Uncounted | _ \<Rightarrow> p)"

lemma phase_class_sets:
  "p \<in> {Registered, Finishing} \<longleftrightarrow> phase_class p = Registered"
  "p \<in> {Registered, Finishing, Removed} \<longleftrightarrow> phase_class p \<in> {Registered, Removed}"
  by (cases p; simp add: phase_class_def)+

definition same_phase :: "transfer_op option \<Rightarrow> transfer_op option \<Rightarrow> bool" where
  "same_phase a b \<longleftrightarrow> map_option (\<lambda>t. (op_lease t, phase_class (op_phase t))) a
     = map_option (\<lambda>t. (op_lease t, phase_class (op_phase t))) b"

lemma same_phase_Some:
  "same_phase a b \<Longrightarrow> (\<exists>t. a = Some t \<and> P (op_lease t) (phase_class (op_phase t)))
     = (\<exists>t. b = Some t \<and> P (op_lease t) (phase_class (op_phase t)))"
  by (cases a; cases b) (auto simp: same_phase_def)

lemma phase_sets_cong:
  assumes "\<And>i. same_phase (tm_ops m' i) (tm_ops m i)"
  shows "registered m' = registered m" "registered_of m' l = registered_of m l" "counted m' = counted m"
  using same_phase_Some [OF assms, where P = "\<lambda>_ p. p = Registered"]
    same_phase_Some [OF assms, where P = "\<lambda>k p. p = Registered \<and> k = l"]
    same_phase_Some [OF assms, where P = "\<lambda>_ p. p \<in> {Registered, Removed}"]
  unfolding registered_def registered_of_def counted_def phase_class_sets by blast+

lemma tm_inv_same_phase:
  assumes inv: "tm_inv m"
    and ph: "\<And>i. same_phase (tm_ops m' i) (tm_ops m i)"
    and eq: "tm_active m' = tm_active m" "tm_global m' = tm_global m" "tm_per_lease m' = tm_per_lease m"
      "tm_max_global m' = tm_max_global m" "tm_max_per_lease m' = tm_max_per_lease m" "tm_wg m' = tm_wg m"
      "tm_next m' = tm_next m"
    and st: "stop_inv m'"
  shows "tm_inv m'"
proof -
  have "heap_inv m'" unfolding heap_inv_def
  proof (intro allI impI)
    fix i assume "tm_next m' \<le> i"
    then have "tm_ops m i = None" using inv eq by (simp add: tm_inv_def heap_inv_def)
    then show "tm_ops m' i = None" using ph [of i] by (simp add: same_phase_def)
  qed
  moreover have "active_inv m'" "count_inv m'"
    using inv eq active_of_cong [OF eq(1)] phase_sets_cong [OF ph]
    by (simp_all add: tm_inv_def active_inv_def count_inv_def)
  moreover have "limit_inv m'" using inv eq by (simp add: tm_inv_def limit_inv_def)
  ultimately show ?thesis using st by (simp add: tm_inv_def)
qed

section \<open>The steps keep the invariant\<close>

lemma begin_inv [inv_intro]:
  assumes inv: "tm_inv m" shows "tm_inv (snd (begin_transfer m now l expires))"
proof (cases "tm_closed m \<or> tm_blocked m l \<or> tm_global m \<ge> tm_max_global m \<or> count_of (tm_per_lease m) l \<ge> tm_max_per_lease m")
  case True
  then have "snd (begin_transfer m now l expires) = m" by (auto simp: begin_transfer_def)
  with inv show ?thesis by simp
next
  case False
  let ?i = "tm_next m" and ?m = "snd (begin_transfer m now l expires)"
  have hi: "heap_inv m" and fresh: "tm_ops m ?i = None" using inv by (auto simp: tm_inv_def heap_inv_def)
  obtain t where ops: "tm_ops ?m = (tm_ops m)(?i \<mapsto> t)" and t: "op_lease t = l" "op_phase t = Registered"
    using False by (auto simp: begin_transfer_def Let_def)
  have rest: "tm_closed ?m = tm_closed m" "tm_blocked ?m = tm_blocked m" "tm_next ?m = Suc ?i"
    "tm_active ?m = (tm_active m)(l \<mapsto> insert ?i (active_of m l))" "tm_global ?m = tm_global m + 1"
    "tm_per_lease ?m = (tm_per_lease m)(l \<mapsto> count_of (tm_per_lease m) l + 1)" "tm_wg ?m = tm_wg m + 1"
    "tm_max_global ?m = tm_max_global m" "tm_max_per_lease ?m = tm_max_per_lease m"
    using False by (auto simp: begin_transfer_def Let_def)
  have sets: "registered ?m = insert ?i (registered m)" "counted ?m = insert ?i (counted m)"
    "registered_of ?m k = (if k = l then insert ?i (registered_of m k) else registered_of m k)" for k
    using fresh t by (auto simp: registered_def counted_def registered_of_def ops)
  have new: "?i \<notin> registered m" "?i \<notin> counted m" "?i \<notin> registered_of m k" for k
    using fresh by (auto simp: registered_def counted_def registered_of_def)
  have "heap_inv ?m" using hi by (auto simp: heap_inv_def ops rest)
  moreover have "active_inv ?m"
    using inv by (auto simp: tm_inv_def active_inv_def sets active_of_def rest)
  moreover have "count_inv ?m"
    using inv new registered_finite [OF hi]
    by (auto simp: tm_inv_def count_inv_def sets rest count_of_def split: option.splits)
  moreover have "limit_inv ?m"
    using inv False by (auto simp: tm_inv_def limit_inv_def rest count_of_def)
  moreover have "stop_inv ?m"
    using inv False t by (auto simp: tm_inv_def stop_inv_def ops rest)
  ultimately show ?thesis by (simp add: tm_inv_def)
qed

lemma cancel_op_inv [inv_intro]: "tm_inv m \<Longrightarrow> tm_inv (cancel_op i m)"
  by (rule tm_inv_same_phase [of m])
    (auto simp: cancel_op_def same_phase_def option.map_comp o_def tm_inv_def stop_inv_def split: if_split_asm)

lemma same_phase_refl [simp]: "same_phase a a"
  by (simp add: same_phase_def)

lemma finish_enter_inv [inv_intro]: "tm_inv m \<Longrightarrow> tm_inv (finish_enter i m)"
  by (rule tm_inv_same_phase [of m])
    (auto simp: finish_enter_def cancel_op_def same_phase_def option.map_comp o_def tm_inv_def stop_inv_def
      in_phase_def phase_class_def split: if_split_asm option.splits)

lemma finish_close_inv [inv_intro]: "tm_inv m \<Longrightarrow> tm_inv (finish_close i m)"
  by (rule tm_inv_same_phase [of m])
    (auto simp: finish_close_def same_phase_def option.map_comp o_def tm_inv_def stop_inv_def
      in_phase_def phase_class_def split: if_split_asm option.splits)

lemma finish_remove_inv [inv_intro]:
  assumes inv: "tm_inv m" shows "tm_inv (finish_remove i m)"
proof (cases "in_phase m i Finishing")
  case True
  then obtain t where t: "tm_ops m i = Some t" "op_phase t = Finishing"
    by (auto simp: in_phase_def split: option.splits)
  let ?l = "op_lease t" and ?m = "finish_remove i m"
  have hi: "heap_inv m" using inv by (simp add: tm_inv_def)
  have ops: "tm_ops ?m = (tm_ops m)(i \<mapsto> t\<lparr>op_phase := Removed\<rparr>)"
    using True t by (auto simp: finish_remove_def Let_def)
  have rest: "tm_closed ?m = tm_closed m" "tm_blocked ?m = tm_blocked m" "tm_next ?m = tm_next m"
    "tm_global ?m = tm_global m - 1" "tm_wg ?m = tm_wg m"
    "tm_max_global ?m = tm_max_global m" "tm_max_per_lease ?m = tm_max_per_lease m"
    using True by (auto simp: finish_remove_def Let_def)
  have act: "active_of ?m k = (if k = ?l then active_of m k - {i} else active_of m k)" for k
    using True t by (auto simp: finish_remove_def Let_def active_of_def)
  have cnt: "count_of (tm_per_lease ?m) k = (if k = ?l then count_of (tm_per_lease m) k - 1 else count_of (tm_per_lease m) k)" for k
    using True t by (auto simp: finish_remove_def Let_def count_of_def)
  have sets: "registered ?m = registered m - {i}" "counted ?m = counted m"
    "registered_of ?m k = (if k = ?l then registered_of m k - {i} else registered_of m k)" for k
    using t by (auto simp: registered_def counted_def registered_of_def ops)
  have mem: "i \<in> registered m" "i \<in> registered_of m ?l"
    using t by (auto simp: registered_def registered_of_def)
  have card: "card (registered m - {i}) = card (registered m) - 1" "card (registered m) \<ge> 1"
    "card (registered_of m ?l - {i}) = card (registered_of m ?l) - 1" "card (registered_of m ?l) \<ge> 1"
    using mem registered_finite [OF hi] by (auto simp: Suc_le_eq card_gt_0_iff)
  have "heap_inv ?m" using hi t by (auto simp: heap_inv_def ops rest)
  moreover have "active_inv ?m" using inv by (simp add: tm_inv_def active_inv_def sets act)
  moreover have "count_inv ?m"
    using inv card by (auto simp: tm_inv_def count_inv_def sets rest cnt)
  moreover have "limit_inv ?m"
  proof -
    have "count_of (tm_per_lease ?m) k \<le> count_of (tm_per_lease m) k" for k by (simp add: cnt)
    moreover have "count_of (tm_per_lease m) k \<le> tm_max_per_lease m" "tm_global m \<le> tm_max_global m" for k
      using inv by (auto simp: tm_inv_def limit_inv_def)
    ultimately show ?thesis unfolding limit_inv_def rest by (meson diff_le_eq order_trans zle_add1_eq_le less_le_trans order_less_imp_le zless_add1_eq)
  qed
  moreover have "stop_inv ?m" using inv t by (auto simp: tm_inv_def stop_inv_def ops rest)
  ultimately show ?thesis by (simp add: tm_inv_def)
qed (simp add: finish_remove_def inv)

lemma finish_uncount_inv [inv_intro]:
  assumes inv: "tm_inv m" shows "tm_inv (finish_uncount i m)"
proof (cases "in_phase m i Removed")
  case True
  then obtain t where t: "tm_ops m i = Some t" "op_phase t = Removed"
    by (auto simp: in_phase_def split: option.splits)
  let ?m = "finish_uncount i m"
  have hi: "heap_inv m" using inv by (simp add: tm_inv_def)
  have ops: "tm_ops ?m = (tm_ops m)(i \<mapsto> t\<lparr>op_phase := Uncounted\<rparr>)"
    using True t by (auto simp: finish_uncount_def)
  have rest: "tm_closed ?m = tm_closed m" "tm_blocked ?m = tm_blocked m" "tm_next ?m = tm_next m"
    "tm_active ?m = tm_active m" "tm_per_lease ?m = tm_per_lease m"
    "tm_global ?m = tm_global m" "tm_wg ?m = tm_wg m - 1"
    "tm_max_global ?m = tm_max_global m" "tm_max_per_lease ?m = tm_max_per_lease m"
    using True by (auto simp: finish_uncount_def)
  have sets: "registered ?m = registered m" "counted ?m = counted m - {i}"
    "registered_of ?m k = registered_of m k" for k
    using t by (auto simp: registered_def counted_def registered_of_def ops)
  have "i \<in> counted m" using t by (auto simp: counted_def)
  then have "card (counted m - {i}) = card (counted m) - 1" "card (counted m) \<ge> 1"
    using registered_finite [OF hi] by (auto simp: Suc_le_eq card_gt_0_iff)
  then have "count_inv ?m" using inv by (auto simp: tm_inv_def count_inv_def sets rest)
  moreover have "heap_inv ?m" using hi t by (auto simp: heap_inv_def ops rest)
  moreover have "active_inv ?m"
    using inv by (simp add: tm_inv_def active_inv_def sets active_of_cong [OF rest(4)])
  moreover have "limit_inv ?m" using inv by (simp add: tm_inv_def limit_inv_def rest)
  moreover have "stop_inv ?m" using inv t by (auto simp: tm_inv_def stop_inv_def ops rest)
  ultimately show ?thesis by (simp add: tm_inv_def)
qed (simp add: finish_uncount_def inv)

lemma cancel_all_sel [simp]:
  "tm_closed (cancel_all S m) = tm_closed m" "tm_blocked (cancel_all S m) = tm_blocked m"
  "tm_active (cancel_all S m) = tm_active m" "tm_global (cancel_all S m) = tm_global m"
  "tm_per_lease (cancel_all S m) = tm_per_lease m" "tm_max_global (cancel_all S m) = tm_max_global m"
  "tm_max_per_lease (cancel_all S m) = tm_max_per_lease m" "tm_wg (cancel_all S m) = tm_wg m"
  "tm_next (cancel_all S m) = tm_next m"
  "tm_ops (cancel_all S m) i = (if i \<in> S then map_option (op_cancelled_update (\<lambda>_. True)) (tm_ops m i) else tm_ops m i)"
  by (simp_all add: cancel_all_def)

lemma same_phase_cancel [simp]: "same_phase (map_option (op_cancelled_update (\<lambda>_. True)) a) a"
  by (simp add: same_phase_def option.map_comp o_def)

lemma stop_lease_inv [inv_intro]:
  assumes inv: "tm_inv m" shows "tm_inv (snd (stop_lease l m))"
proof (rule tm_inv_same_phase [OF inv])
  have "i \<in> active_of m l" if "tm_ops m i = Some t" "op_phase t \<in> {Registered, Finishing}" "op_lease t = l" for i t
    using inv that by (auto simp: tm_inv_def active_inv_def registered_of_def)
  then show "stop_inv (snd (stop_lease l m))"
    using inv by (fastforce simp: tm_inv_def stop_inv_def stop_lease_def Let_def split: if_split_asm)
qed (simp_all add: stop_lease_def Let_def)

lemma close_transfers_inv [inv_intro]:
  assumes inv: "tm_inv m" shows "tm_inv (close_transfers m)"
proof (rule tm_inv_same_phase [OF inv])
  have "i \<in> \<Union> (ran (tm_active m))" if "tm_ops m i = Some t" "op_phase t \<in> {Registered, Finishing}" for i t
  proof -
    have "i \<in> active_of m (op_lease t)"
      using inv that by (auto simp: tm_inv_def active_inv_def registered_of_def)
    then show ?thesis by (auto simp: active_of_def ran_def split: option.splits)
  qed
  then show "stop_inv (close_transfers m)"
    by (fastforce simp: stop_inv_def close_transfers_def split: if_split_asm)
qed (simp_all add: close_transfers_def)

lemma tm_init_inv: "tm_init m \<Longrightarrow> tm_inv m"
  by (auto simp: tm_init_def new_transfer_manager_def tm_inv_def tm_inv_defs active_of_def registered_of_def
      registered_def counted_def count_of_def)

interpretation tm: transition_system tm_init tm_step tm_inv
  by unfold_locales (auto intro: tm_init_inv inv_intro elim: tm_stepE)

section \<open>Stopping is final\<close>

definition stopped :: "string \<Rightarrow> nat set \<Rightarrow> transfer_manager \<Rightarrow> bool" where
  "stopped l S m \<longleftrightarrow> tm_blocked m l \<and> registered_of m l \<subseteq> S"

definition drained :: "transfer_manager \<Rightarrow> bool" where
  "drained m \<longleftrightarrow> tm_closed m \<and> counted m = {}"

definition closed_op :: "nat \<Rightarrow> transfer_manager \<Rightarrow> bool" where
  "closed_op i m \<longleftrightarrow> in_phase m i Closed"

definition limits_are :: "int \<Rightarrow> int \<Rightarrow> transfer_manager \<Rightarrow> bool" where
  "limits_are g p m \<longleftrightarrow> tm_max_global m = g \<and> tm_max_per_lease m = p"

lemmas tm_op_defs = begin_transfer_def cancel_op_def finish_enter_def finish_remove_def finish_uncount_def
  finish_close_def stop_lease_def close_transfers_def

text \<open>
  A step either adds one registered transfer, of a lease that is not blocked in a manager
  that is not closed, or adds none; flags are only ever set; a closed transfer stays closed.
\<close>

lemma tm_step_registered:
  assumes "tm_inv m" and "tm_step m m'"
  shows "(\<forall>l. registered_of m' l \<subseteq> registered_of m l \<or> \<not> tm_blocked m l) \<and> (counted m' \<subseteq> counted m \<or> \<not> tm_closed m)
    \<and> (\<forall>l. tm_blocked m l \<longrightarrow> tm_blocked m' l) \<and> (tm_closed m \<longrightarrow> tm_closed m')"
  using assms(2)
  by (cases rule: tm_step.cases)
    (auto simp: tm_op_defs registered_of_def counted_def in_phase_def Let_def
      split: if_split_asm option.splits)

text \<open>
  The phases of a transfer are ordered as \<open>finish\<close> goes through them, and no step moves a
  transfer back.
\<close>

primrec phase_rank :: "op_phase \<Rightarrow> nat" where
  "phase_rank Registered = 0" | "phase_rank Finishing = 1" | "phase_rank Removed = 2"
| "phase_rank Uncounted = 3" | "phase_rank Closed = 4"

instantiation op_phase :: linorder
begin

definition "p \<le> q \<longleftrightarrow> phase_rank p \<le> phase_rank q" for p q :: op_phase
definition "p < q \<longleftrightarrow> phase_rank p < phase_rank q" for p q :: op_phase

instance
proof
  fix p q :: op_phase
  show "p \<le> q \<Longrightarrow> q \<le> p \<Longrightarrow> p = q" by (cases p; cases q) (simp_all add: less_eq_op_phase_def)
qed (auto simp: less_eq_op_phase_def less_op_phase_def)

end

definition reached :: "nat \<Rightarrow> op_phase \<Rightarrow> transfer_manager \<Rightarrow> bool" where
  "reached i p m \<longleftrightarrow> (\<exists>t. tm_ops m i = Some t \<and> p \<le> op_phase t)"

lemma closed_reached: "closed_op i m \<longleftrightarrow> reached i Closed m"
proof -
  have "Closed \<le> p \<longleftrightarrow> p = Closed" for p by (cases p) (simp_all add: less_eq_op_phase_def)
  then show ?thesis by (simp add: closed_op_def in_phase_def reached_def split: option.split)
qed

lemma tm_step_reached:
  assumes "tm_inv m" and "tm_step m m'" and "reached i p m"
  shows "reached i p m'"
  using assms(2,1,3)
  by (cases rule: tm_step.cases)
    (auto simp: tm_op_defs cancel_all_def in_phase_def reached_def Let_def tm_inv_def heap_inv_def less_eq_op_phase_def
      split: if_split_asm option.splits)

lemma tm_step_limits: "tm_step m m' \<Longrightarrow> limits_are g p m \<Longrightarrow> limits_are g p m'"
  by (cases rule: tm_step.cases) (auto simp: tm_op_defs limits_are_def Let_def)

interpretation stop: stable_property tm_init tm_step tm_inv "stopped l S" for l S
proof unfold_locales
  fix m m' assume "tm_inv m" "stopped l S m" "tm_step m m'"
  then show "stopped l S m'" using tm_step_registered [of m m'] by (auto simp: stopped_def)
qed

interpretation drained: stable_property tm_init tm_step tm_inv drained
proof unfold_locales
  fix m m' assume "tm_inv m" "drained m" "tm_step m m'"
  then show "drained m'" using tm_step_registered [of m m'] by (auto simp: drained_def)
qed

interpretation phases: stable_property tm_init tm_step tm_inv "reached i p" for i p
  by unfold_locales (rule tm_step_reached)

text \<open>A transfer that \<open>finish\<close> is done with is never registered or counted again.\<close>

lemma closed_forever: "tm_inv m \<Longrightarrow> closed_op i m \<Longrightarrow> tm_step\<^sup>*\<^sup>* m m' \<Longrightarrow> closed_op i m'"
  unfolding closed_reached by (rule phases.run_stable)

interpretation lim: stable_property tm_init tm_step tm_inv "limits_are g p" for g p
  by unfold_locales (rule tm_step_limits)

lemma registered_of_subset: "registered_of m l \<subseteq> registered m" "registered m \<subseteq> counted m"
  by (auto simp: registered_of_def registered_def counted_def)

lemma closed_not_registered: "closed_op i m \<Longrightarrow> i \<notin> counted m"
  by (auto simp: closed_op_def in_phase_def counted_def split: option.splits)

section \<open>Finishing\<close>

lemma finish_registered:
  assumes "in_phase m i Registered"
  shows "registered (finish i m) = registered m - {i}" "registered_of (finish i m) l = registered_of m l - {i}"
    "counted (finish i m) = counted m - {i}" "closed_op i (finish i m)"
  using assms
  by (auto simp: finish_def finish_enter_def finish_remove_def finish_uncount_def finish_close_def cancel_op_def
      in_phase_def registered_def registered_of_def counted_def closed_op_def Let_def split: option.splits)

lemma finish_inv: "tm_inv m \<Longrightarrow> tm_inv (finish i m)"
  by (simp add: finish_def inv_intro)

lemma cancel_op_sets:
  "registered (cancel_op i m) = registered m" "registered_of (cancel_op i m) l = registered_of m l"
  "counted (cancel_op i m) = counted m" "in_phase (cancel_op i m) j p = in_phase m j p"
  by (auto simp: cancel_op_def registered_def registered_of_def counted_def in_phase_def split: option.splits)

section \<open>Properties\<close>

text \<open>
  However operations interleave, the manager's counters are exactly the numbers of
  transfers that are registered, in all and per lease, and neither number ever exceeds its
  limit; the wait group counts exactly the transfers whose \<open>finish\<close> has not got past it.
\<close>

theorem transfer_limits:
  assumes "1 \<le> p" and "p \<le> g" and "0 < timeout"
    and run: "tm_step\<^sup>*\<^sup>* (new_transfer_manager g p timeout) m"
  shows "int (card (registered m)) \<le> g \<and> (\<forall>l. int (card (registered_of m l)) \<le> p)
    \<and> tm_global m = int (card (registered m)) \<and> (\<forall>l. count_of (tm_per_lease m) l = int (card (registered_of m l)))
    \<and> tm_wg m = int (card (counted m))"
proof -
  have i: "tm_init (new_transfer_manager g p timeout)" using assms(1-3) by (auto simp: tm_init_def)
  have inv: "tm_inv m" by (rule tm.reachable_inv [OF i run])
  have "limits_are g p m"
    by (rule lim.run_stable [OF run tm_init_inv [OF i]]) (simp add: limits_are_def new_transfer_manager_def)
  with inv show ?thesis by (auto simp: tm_inv_def limit_inv_def count_inv_def limits_are_def)
qed

definition one_begun :: transfer_manager where
  "one_begun = snd (begin_transfer (new_transfer_manager 8 2 120) 0 ''l'' 100)"

lemma transfer_limits_witness: "tm_global one_begun = 1 \<and> int (card (registered_of one_begun ''l'')) = 1"
proof -
  have g: "tm_global one_begun = 1" "count_of (tm_per_lease one_begun) ''l'' = 1"
    by (simp_all add: one_begun_def begin_transfer_def new_transfer_manager_def count_of_def Let_def)
  have "tm_step\<^sup>*\<^sup>* (new_transfer_manager 8 2 120) one_begun"
    unfolding one_begun_def by (rule r_into_rtranclp) (rule tm_begin)
  from transfer_limits [OF _ _ _ this] g show ?thesis by simp
qed

text \<open>
  Stopping a lease is final: \<open>stopLease\<close> cancels every transfer that is registered for it,
  and once the wait for them is over, no transfer of that lease is registered at any later
  time, whatever else happens, and every attempt to begin one is aborted.
\<close>

theorem stop_lease_final:
  assumes "tm_init m0" and run: "tm_step\<^sup>*\<^sup>* m0 m"
    and stop: "stop_lease l m = (ops, m1)" and later: "tm_step\<^sup>*\<^sup>* m1 t"
    and waited: "wait_transfers t ops" and after: "tm_step\<^sup>*\<^sup>* t u"
  shows "(\<forall>i \<in> registered_of m l. i \<in> ops \<and> (\<exists>op. tm_ops m1 i = Some op \<and> op_cancelled op))
    \<and> registered_of u l = {} \<and> fst (begin_transfer u now l expires) = Inl aborted"
proof -
  have inv: "tm_inv m" by (rule tm.reachable_inv [OF assms(1) run])
  then have inv1: "tm_inv m1" using stop_lease_inv [of m l] stop by simp
  then have invt: "tm_inv t" using later by (rule tm.run_inv)
  have ops: "ops = registered_of m l" and bl: "tm_blocked m1 l"
    using stop inv by (auto simp: stop_lease_def Let_def tm_inv_def active_inv_def)
  have "registered_of m1 l = registered_of m l"
    by (rule phase_sets_cong(2)) (use stop in \<open>auto simp: stop_lease_def Let_def\<close>)
  then have "stopped l ops m1" using ops bl by (simp add: stopped_def)
  then have "stopped l ops t" by (rule stop.run_stable [OF later inv1])
  moreover have "i \<notin> registered_of t l" if "i \<in> ops" for i
    using closed_not_registered [of i t] registered_of_subset [of t] that waited
    by (auto simp: wait_transfers_def closed_op_def)
  ultimately have "stopped l {} t" by (auto simp: stopped_def)
  then have "stopped l {} u" by (rule stop.run_stable [OF after invt])
  then have u: "registered_of u l = {}" "tm_blocked u l" by (auto simp: stopped_def)
  have "\<forall>i \<in> registered_of m l. \<exists>op. tm_ops m1 i = Some op \<and> op_cancelled op"
    using stop ops by (auto simp: stop_lease_def Let_def registered_of_def)
  with u ops show ?thesis by (simp add: begin_transfer_def)
qed

definition stopped_sample :: transfer_manager where
  "stopped_sample = finish 0 (snd (stop_lease ''l'' one_begun))"

lemma tm_sample_init: "tm_init (new_transfer_manager 8 2 120)"
  unfolding tm_init_def by (rule exI [of _ 8], rule exI [of _ 2], rule exI [of _ 120]) simp

lemma finish_run: "tm_step\<^sup>*\<^sup>* m (finish i m)"
  unfolding finish_def
  by (meson converse_rtranclp_into_rtranclp rtranclp.rtrancl_refl tm_enter tm_remove tm_uncount tm_shut)

lemma stop_lease_final_witness:
  "stop_lease ''l'' one_begun = ({0}, snd (stop_lease ''l'' one_begun)) \<and> registered_of stopped_sample ''l'' = {}
   \<and> fst (begin_transfer stopped_sample 5 ''l'' 100) = Inl aborted"
proof -
  have i: "tm_init (new_transfer_manager 8 2 120)" by (rule tm_sample_init)
  have r: "tm_step\<^sup>*\<^sup>* (new_transfer_manager 8 2 120) one_begun"
    unfolding one_begun_def by (rule r_into_rtranclp) (rule tm_begin)
  have s: "stop_lease ''l'' one_begun = ({0}, snd (stop_lease ''l'' one_begun))"
    by (simp add: stop_lease_def one_begun_def begin_transfer_def new_transfer_manager_def active_of_def count_of_def Let_def)
  have ph: "in_phase (snd (stop_lease ''l'' one_begun)) 0 Registered"
    by (simp add: stop_lease_def in_phase_def one_begun_def begin_transfer_def new_transfer_manager_def active_of_def count_of_def Let_def)
  have w: "wait_transfers stopped_sample {0}"
    using finish_registered(4) [OF ph] by (simp add: wait_transfers_def stopped_sample_def closed_op_def)
  have l: "tm_step\<^sup>*\<^sup>* (snd (stop_lease ''l'' one_begun)) stopped_sample"
    unfolding stopped_sample_def by (rule finish_run)
  from stop_lease_final [OF i r s l w rtranclp.rtrancl_refl] s show ?thesis by blast
qed

text \<open>The same for the whole manager.\<close>

lemma close_final:
  assumes "tm_inv m" and later: "tm_step\<^sup>*\<^sup>* (close_transfers m) t" and waited: "close_waited t" and after: "tm_step\<^sup>*\<^sup>* t u"
  shows "registered u = {} \<and> fst (begin_transfer u now l expires) = Inl aborted"
proof -
  have inv1: "tm_inv (close_transfers m)" by (rule close_transfers_inv [OF assms(1)])
  have invt: "tm_inv t" by (rule tm.run_inv [OF inv1 later])
  have c: "counted t = {}"
    using invt waited registered_finite [of t] by (auto simp: tm_inv_def count_inv_def close_waited_def)
  have "tm_closed t" using later inv1
  proof (induction rule: rtranclp_induct)
    case (step y z)
    have "tm_inv y" by (rule tm.run_inv [OF inv1 step.hyps(1)])
    with step show ?case using tm_step_registered [of y z] by blast
  qed (simp add: close_transfers_def)
  with c have "drained t" by (simp add: drained_def)
  then have "drained u" by (rule drained.run_stable [OF after invt])
  then show ?thesis using registered_of_subset [of u] by (auto simp: drained_def begin_transfer_def)
qed

section \<open>Downloads and uploads\<close>

lemma begin_ok:
  assumes inv: "tm_inv m" and b: "begin_transfer m now l expires = (Inr i, m1)"
  shows "tm_inv m1" "in_phase m1 i Registered" "registered m1 = insert i (registered m)"
    "i \<notin> registered m" "registered_of m1 k = (if k = l then insert i (registered_of m k) else registered_of m k)"
    "counted m1 = insert i (counted m)" "i \<notin> counted m"
    "\<exists>t. tm_ops m1 i = Some t \<and> op_deadline t \<le> expires \<and> op_deadline t \<le> now + tm_timeout m"
proof -
  show "tm_inv m1" using begin_inv [OF inv, of now l expires] b by simp
  have fresh: "tm_ops m (tm_next m) = None" using inv by (simp add: tm_inv_def heap_inv_def)
  with b show "in_phase m1 i Registered" "registered m1 = insert i (registered m)" "i \<notin> registered m"
    "registered_of m1 k = (if k = l then insert i (registered_of m k) else registered_of m k)"
    "counted m1 = insert i (counted m)" "i \<notin> counted m"
    "\<exists>t. tm_ops m1 i = Some t \<and> op_deadline t \<le> expires \<and> op_deadline t \<le> now + tm_timeout m"
    by (auto simp: begin_transfer_def in_phase_def registered_def registered_of_def counted_def Let_def split: if_split_asm)
qed

lemma begin_fails: "begin_transfer m now l expires = (Inl e, m1) \<Longrightarrow> m1 = m"
  by (auto simp: begin_transfer_def Let_def split: if_split_asm)

definition same_load :: "transfer_manager \<Rightarrow> transfer_manager \<Rightarrow> bool" where
  "same_load m m' \<longleftrightarrow> tm_global m' = tm_global m \<and> tm_wg m' = tm_wg m
     \<and> (\<forall>l. count_of (tm_per_lease m') l = count_of (tm_per_lease m) l \<and> active_of m' l = active_of m l)"

lemma same_loadI:
  assumes "tm_inv m" "tm_inv m'" "registered m' = registered m" "counted m' = counted m"
    "\<And>l. registered_of m' l = registered_of m l"
  shows "same_load m m'"
  using assms by (simp add: same_load_def tm_inv_def count_inv_def active_inv_def)

lemma finish_begun_load:
  assumes inv: "tm_inv m" and b: "begin_transfer m now l expires = (Inr i, m1)"
  shows "same_load m (finish i m1)" "same_load m (finish i (cancel_op i m1))"
proof -
  note ok = begin_ok [OF inv b]
  have ph: "in_phase (cancel_op i m1) i Registered" using ok(2) by (simp add: cancel_op_sets)
  have own: "registered_of m1 k - {i} = registered_of m k" for k
    using ok(4,5) registered_of_subset [of m] by auto
  show "same_load m (finish i m1)"
    by (rule same_loadI [OF inv finish_inv [OF ok(1)]])
      (use ok own in \<open>auto simp: finish_registered [OF ok(2)]\<close>)
  show "same_load m (finish i (cancel_op i m1))"
    by (rule same_loadI [OF inv finish_inv [OF cancel_op_inv [OF ok(1)]]])
      (use ok own in \<open>auto simp: finish_registered [OF ph] cancel_op_sets\<close>)
qed

lemma same_load_refl [simp]: "same_load m m"
  by (simp add: same_load_def)

lemma open_download_cases:
  assumes "open_download m now l expires out ending late = (r, m')"
  obtains (refused) e where "begin_transfer m now l expires = (Inl e, m')" "r = Inl e"
  | (failed) i m1 e where "begin_transfer m now l expires = (Inr i, m1)" "m' = finish i (cancel_op i m1)" "r = Inl e"
  | (opened) i mk rest where "begin_transfer m now l expires = (Inr i, m')" "\<not> late"
      "read_transfer_marker max_transfer_marker_bytes [] out ending = (Inr mk, rest)"
      "mk_code mk = []" "0 \<le> mk_size mk" "mk_size mk \<le> max_file_transfer_bytes"
      "r = Inr \<lparr>dl_op = i, dl_size = mk_size mk, dl_digest = mk_digest mk, dl_content = rest\<rparr>"
  using assms
  by (auto simp: open_download_def Let_def split: prod.splits sum.splits if_split_asm)

text \<open>
  No transfer leaks its slot, and none outlives its lease: a download that fails at any
  point, a download that was opened and then closed, and every upload leave counters and
  table as they found them; a transfer's deadline is at most the expiry of its lease and the
  transfer timeout from now.
\<close>

theorem transfer_no_leak:
  assumes "tm_init m0" and "tm_step\<^sup>*\<^sup>* m0 m"
  shows "(case open_download m now l expires out ending late of
      (Inl e, m') \<Rightarrow> same_load m m'
    | (Inr d, m') \<Rightarrow> same_load m (download_close d m')
        \<and> (\<exists>t. tm_ops m' (dl_op d) = Some t \<and> op_deadline t \<le> expires \<and> op_deadline t \<le> now + tm_timeout m))
    \<and> same_load m (snd (write_stream m now l expires rq run))"
proof -
  have inv: "tm_inv m" by (rule tm.reachable_inv [OF assms])
  obtain r m' where d: "open_download m now l expires out ending late = (r, m')" by fastforce
  have "case (r, m') of (Inl e, m') \<Rightarrow> same_load m m'
    | (Inr d, m') \<Rightarrow> same_load m (download_close d m')
        \<and> (\<exists>t. tm_ops m' (dl_op d) = Some t \<and> op_deadline t \<le> expires \<and> op_deadline t \<le> now + tm_timeout m)"
    using d
  proof (cases rule: open_download_cases)
    case refused
    then show ?thesis by (auto dest: begin_fails)
  next
    case failed
    then show ?thesis using finish_begun_load(2) [OF inv failed(1)] by simp
  next
    case opened
    then show ?thesis
      using finish_begun_load(2) [OF inv opened(1)] begin_ok(8) [OF inv opened(1)] by (simp add: download_close_def)
  qed
  moreover have "same_load m (snd (write_stream m now l expires rq run))"
  proof (cases "begin_transfer m now l expires")
    case (Pair r m1)
    then show ?thesis
      by (cases r) (auto simp: write_stream_def finish_begun_load [OF inv] dest: begin_fails)
  qed
  ultimately show ?thesis by (simp add: d)
qed

lemma transfer_no_leak_witness:
  "\<exists>m'. open_download one_begun 1 ''l'' 100 (''ASP1 ERR FILE_NOT_FOUND'' @ [CHR 0x0A]) Io_eof False = (Inl (LeaseError 404 ''FILE_NOT_FOUND''), m')
    \<and> same_load one_begun m'"
proof -
  have r: "tm_step\<^sup>*\<^sup>* (new_transfer_manager 8 2 120) one_begun"
    unfolding one_begun_def by (rule r_into_rtranclp) (rule tm_begin)
  have "fst (open_download one_begun 1 ''l'' 100 (''ASP1 ERR FILE_NOT_FOUND'' @ [CHR 0x0A]) Io_eof False) = Inl (LeaseError 404 ''FILE_NOT_FOUND'')"
    by code_simp
  with transfer_no_leak [OF tm_sample_init r, where now = 1 and l = "''l''" and expires = 100
      and out = "''ASP1 ERR FILE_NOT_FOUND'' @ [CHR 0x0A]" and ending = Io_eof and late = False]
  show ?thesis by (cases "open_download one_begun 1 ''l'' 100 (''ASP1 ERR FILE_NOT_FOUND'' @ [CHR 0x0A]) Io_eof False") auto
qed

end
