(* ===== verification/Pod_Exec_Props.thy ===== *)
theory Pod_Exec_Props
  imports Pod_Exec
begin

text \<open>
  The properties of commands in a Pod: paths stay inside the workspace, quoted values reach
  the program unchanged, output is bounded and its truncation never silent.
\<close>

section \<open>Lemmas\<close>

lemma quote_no_operator:
  "has_prefix s p \<Longrightarrow> s = p @ drop (length p) s"
  by (auto simp: has_prefix_iff)

lemma buffer_write_inv:
  assumes "length (buf b) \<le> limit"
  shows "buf (snd (buffer_write limit c b)) = take limit (buf b @ c)"
    and "exceeded (snd (buffer_write limit c b)) \<longleftrightarrow> exceeded b \<or> limit < length (buf b) + length c"
    and "fst (buffer_write limit c b) = length c"
proof -
  have "nat (min (int limit - int (length (buf b))) (int (length c))) = min (limit - length (buf b)) (length c)"
    using assms by linarith
  then show "buf (snd (buffer_write limit c b)) = take limit (buf b @ c)"
    using assms by (auto simp: buffer_write_def Let_def min_def)
  show "exceeded (snd (buffer_write limit c b)) \<longleftrightarrow> exceeded b \<or> limit < length (buf b) + length c"
    by (auto simp: buffer_write_def Let_def)
  show "fst (buffer_write limit c b) = length c" by (simp add: buffer_write_def Let_def)
qed

lemma write_all_inv:
  assumes "length (buf b) \<le> limit" and "exceeded b \<longrightarrow> length (buf b) = limit"
  shows "buf (write_all limit cs b) = take limit (buf b @ concat cs)
    \<and> (exceeded (write_all limit cs b) \<longleftrightarrow> exceeded b \<or> limit < length (buf b) + length (concat cs))"
  using assms
proof (induction cs arbitrary: b)
  case (Cons c cs)
  let ?b = "snd (buffer_write limit c b)"
  note inv = buffer_write_inv [OF Cons.prems(1), of c]
  have "length (buf ?b) \<le> limit" "exceeded ?b \<longrightarrow> length (buf ?b) = limit"
    using inv Cons.prems by auto
  from Cons.IH [OF this] show ?case
    using inv Cons.prems by (auto simp: write_all_def)
qed (simp add: write_all_def)

lemma write_all_empty:
  "buf (write_all limit cs empty_buffer) = take limit (concat cs)"
  "exceeded (write_all limit cs empty_buffer) \<longleftrightarrow> limit < length (concat cs)"
  using write_all_inv [of empty_buffer limit cs] by (simp_all add: empty_buffer_def)

lemma workspace_path_shape:
  assumes "normalize_workspace_path value = Inr p"
  shows "(p = workspace_path \<or> (\<exists>es. es \<noteq> [] \<and> list_all normal_elem es \<and> p = workspace_path @ ''/'' @ join_with ''/'' es))
    \<and> normalize_workspace_path p = Inr p"
proof -
  obtain v where v: "is_abs v" "p = path_clean v" "p = workspace_path \<or> has_prefix p (workspace_path @ ''/'')"
  proof -
    define v1 where "v1 = (if blank value then workspace_path else value)"
    define v2 where "v2 = (if \<not> has_prefix v1 ''/'' then path_join [workspace_path, v1] else v1)"
    have p: "p = path_clean v2" "p = workspace_path \<or> has_prefix p (workspace_path @ ''/'')"
      using assms by (auto simp: normalize_workspace_path_def Let_def v1_def [symmetric] v2_def [symmetric] split: if_split_asm)
    have "is_abs v2"
    proof (cases "has_prefix v1 ''/''")
      case False
      then have "v2 = path_clean (''/workspace/'' @ v1) \<or> v2 = path_clean ''/workspace''"
        by (cases "v1 = []") (simp_all add: v2_def path_join_def workspace_path_def)
      moreover have "is_abs (path_clean (CHR ''/'' # s))" for s
        using path_clean_abs [of "CHR ''/'' # s"] by (auto simp: is_abs_def)
      ultimately show ?thesis by auto
    qed (simp add: v2_def is_abs_def)
    with p show thesis using that by blast
  qed
  obtain es where es: "p = ''/'' @ join_with ''/'' es" "list_all normal_elem es"
    using path_clean_abs [OF v(1)] v(2) by blast
  have fixd: "path_clean p = p" using path_clean_normal [OF es(2)] es(1) by simp
  have abs: "has_prefix p ''/''" by (simp add: es(1))
  have nb: "\<not> blank p"
    by (rule not_blank_char [of "CHR ''/''"]) (auto simp: es(1) space_encodings_def)
  have shape: "p = workspace_path \<or> (\<exists>es. es \<noteq> [] \<and> list_all normal_elem es \<and> p = workspace_path @ ''/'' @ join_with ''/'' es)"
  proof (cases "p = workspace_path")
    case False
    then have "has_prefix p (workspace_path @ ''/'')" using v(3) by blast
    then obtain r where r: "p = workspace_path @ ''/'' @ r" by (auto simp: has_prefix_iff)
    have sp: "split_on CHR ''/'' p = [] # es" if "es \<noteq> []"
    proof -
      have "\<forall>e \<in> set es. CHR ''/'' \<notin> set e" using es(2) by (auto simp: list_all_iff normal_elem_def)
      then have "split_on CHR ''/'' (join_with ''/'' es) = es" using that by (rule split_join [rotated])
      then show ?thesis by (simp add: es(1))
    qed
    have ne: "es \<noteq> []" using es(1) r by (auto simp: workspace_path_def)
    have "split_on CHR ''/'' p = [] # ''workspace'' # split_on CHR ''/'' r"
      by (simp add: r workspace_path_def)
    with sp [OF ne] have e: "es = ''workspace'' # split_on CHR ''/'' r" by simp
    let ?rs = "split_on CHR ''/'' r"
    have "join_with ''/'' ?rs = r" by (rule join_split)
    moreover have "list_all normal_elem ?rs" using es(2) e by simp
    ultimately show ?thesis using r by (intro disjI2 exI [of _ ?rs]) simp
  qed simp
  have "normalize_workspace_path p = Inr p"
    using nb abs fixd v(3) by (simp add: normalize_workspace_path_def Let_def)
  with shape show ?thesis by blast
qed

section \<open>Properties\<close>

text \<open>
  A path accepted by \<open>normalizeWorkspacePath\<close> cannot leave the workspace: it is the
  workspace itself or a path beneath it whose elements are all proper names, none of them
  \<open>.\<close> or \<open>..\<close>; and normalizing it again changes nothing.
\<close>

theorem workspace_path_confined:
  assumes "normalize_workspace_path value = Inr p"
  shows "(p = workspace_path \<or> (\<exists>es. es \<noteq> [] \<and> list_all normal_elem es \<and> p = workspace_path @ ''/'' @ join_with ''/'' es))
    \<and> normalize_workspace_path p = Inr p"
  using assms by (rule workspace_path_shape)

lemma workspace_path_confined_witness:
  "normalize_workspace_path ''a/../b//c'' = Inr ''/workspace/b/c''
   \<and> normalize_workspace_path ''/workspace/b/c'' = Inr ''/workspace/b/c''
   \<and> normalize_workspace_path ''../etc'' = Inl (LeaseError 400 ''INVALID_PATH'')"
proof -
  have a: "normalize_workspace_path ''a/../b//c'' = Inr ''/workspace/b/c''" by code_simp
  have b: "normalize_workspace_path ''../etc'' = Inl (LeaseError 400 ''INVALID_PATH'')" by code_simp
  from workspace_path_confined [OF a] a b show ?thesis by blast
qed

text \<open>
  C18. No value can break out of its quotes: a shell that reads the text built by
  \<open>shellCommand\<close> sees one \<open>cd\<close> to exactly the given directory, then one \<open>export\<close> for each
  variable with exactly its name and value, in order of the names, then the command.
\<close>

theorem shell_command_exact:
  assumes "shell_command cwd env command = Inr s"
  shows "sh_read (length env) s = Some (cwd, sort_key fst env, command)"
proof -
  let ?e = "sort_key fst env"
  from assms have names: "\<forall>kv \<in> set ?e. environment_name (fst kv)"
    and s: "s = (''cd '' @ shell_quote cwd) @ exports_text ?e command"
    unfolding shell_command_def join_exports by (auto simp: list_all_iff split: if_split_asm)
  have ew: "ends_word (exports_text ?e command)"
    by (cases ?e) (auto simp: exports_text_def ends_word_def sh_special_def)
  have "sh_exports (length env) (exports_text ?e command) = Some (?e, command)"
    using sh_exports_text [OF names] by simp
  moreover have "sh_word False (shell_quote cwd @ exports_text ?e command) = Some (cwd, exports_text ?e command)"
    by (rule sh_word_shell_quote [OF ew])
  ultimately show ?thesis by (simp add: sh_read_def s)
qed

definition injection :: string where
  "injection = ''x'' @ [CHR 0x27] @ ''; rm -rf /''"

lemma shell_command_exact_witness:
  "\<exists>s. shell_command ''/workspace'' [(''B'', injection), (''A'', ''1'')] ''ls'' = Inr s
    \<and> sh_read (Suc (Suc 0)) s = Some (''/workspace'', [(''A'', ''1''), (''B'', injection)], ''ls'')"
proof -
  have srt: "sort_key fst [(''B'', injection), (''A'', ''1'')] = [(''A'', ''1''), (''B'', injection)]" by code_simp
  have "is_ok (shell_command ''/workspace'' [(''B'', injection), (''A'', ''1'')] ''ls'')" by code_simp
  then obtain s where s: "shell_command ''/workspace'' [(''B'', injection), (''A'', ''1'')] ''ls'' = Inr s"
    by (auto simp: is_ok_iff)
  show ?thesis using s shell_command_exact [OF s] srt by simp
qed

text \<open>
  The output of a command is bounded, and truncation is never silent: the result holds
  exactly what the command wrote, in order, or, if either stream wrote more than 10 MiB, the
  call fails with \<open>OUTPUT_TOO_LARGE\<close> whatever else happened; a non-zero exit status is a
  result and not an error.
\<close>

theorem run_command_output:
  assumes t: "\<forall>t. timeout = Some t \<longrightarrow> 0 < t"
    and run: "run = exec target cmd (if stdin \<noteq> [] then Some stdin else None) (map_option command_timeout timeout)"
  shows "run_command exec target cmd stdin timeout =
    (if max_command_output_bytes < length (concat (out_chunks run)) \<or> max_command_output_bytes < length (concat (err_chunks run))
     then Inl (LeaseError 413 ''OUTPUT_TOO_LARGE'')
     else case run_end run of
       RunOk \<Rightarrow> Inr \<lparr>xr_stdout = concat (out_chunks run), xr_stderr = concat (err_chunks run), xr_code = 0\<rparr>
     | RunContext \<Rightarrow> Inl aborted
     | RunExit code \<Rightarrow> if ctx_done run then Inl aborted
         else Inr \<lparr>xr_stdout = concat (out_chunks run), xr_stderr = concat (err_chunks run), xr_code = code\<rparr>
     | RunOther \<Rightarrow> if ctx_done run then Inl aborted else Inl Internal)"
  unfolding run_command_def run [symmetric] Let_def
  using t by (auto simp: write_all_empty split: option.splits run_end.splits)

lemma run_command_output_witness:
  "run_command (\<lambda>_ _ _ _. \<lparr>out_chunks = [''a'', ''b''], err_chunks = [], run_end = RunExit 3, ctx_done = False\<rparr>)
     \<lparr>target_pod = ''p'', target_container = ''c''\<rparr> [''sh''] [] (Some 5)
   = Inr \<lparr>xr_stdout = ''ab'', xr_stderr = [], xr_code = 3\<rparr>"
  using run_command_output [where timeout = "Some 5" and stdin = "[]" and target = "\<lparr>target_pod = ''p'', target_container = ''c''\<rparr>"
      and cmd = "[''sh'']" and exec = "\<lambda>_ _ _ _. \<lparr>out_chunks = [''a'', ''b''], err_chunks = [], run_end = RunExit 3, ctx_done = False\<rparr>"]
  by (simp add: max_command_output_bytes_def)

text \<open>A timeout in seconds that is positive can be negative in nanoseconds: the product wraps.\<close>

lemma command_timeout_wraps: "command_timeout 9223372037 < 0"
  by code_simp

end
