(* ===== verification/File_Helper_Props.thy ===== *)
theory File_Helper_Props
  imports File_Helper File_Transfer_Props Pod_Exec_Props
begin

text \<open>
  The two halves of a file transfer together: what the helper in the sandbox accepts, what
  it prints, and what the control plane makes of it.
\<close>

section \<open>Numbers and markers\<close>

lemma nat_digits_no_sign: "\<not> has_prefix (nat_digits n) ''-''" "\<not> has_prefix (nat_digits n) ''+''"
proof -
  have "\<exists>c cs. nat_digits n = c # cs \<and> c \<in> set (nat_digits n)" by (cases "nat_digits n") auto
  then obtain c cs where c: "nat_digits n = c # cs" "48 \<le> (of_char c :: nat)" using nat_digits_digit by blast
  then have "c \<noteq> CHR ''-''" "c \<noteq> CHR ''+''" by auto
  with c show "\<not> has_prefix (nat_digits n) ''-''" "\<not> has_prefix (nat_digits n) ''+''" by simp_all
qed

lemma parse_int64_digits: "n < 2 ^ 63 \<Longrightarrow> parse_int64 (nat_digits n) = Some (int n)"
  using nat_digits_no_sign [of n]
  by (simp add: parse_int64_def parse_nat_digits Let_def)

lemma parse_itoa: "0 \<le> k \<Longrightarrow> k < 2 ^ 63 \<Longrightarrow> parse_int64 (itoa k) = Some k"
  using parse_int64_digits [of "nat k"] by (simp add: itoa_def)

lemma nat_digits_free: "CHR '' '' \<notin> set (nat_digits n)" "CHR 0x0A \<notin> set (nat_digits n)"
  using nat_digits_digit [of "CHR '' ''" n] nat_digits_digit [of "CHR 0x0A" n] by auto

lemma hex_char_free: "n < 16 \<Longrightarrow> hex_char n \<noteq> CHR '' '' \<and> hex_char n \<noteq> CHR 0x0A"
  by (auto simp: hex_char_def less_Suc_eq numeral_eq_Suc)

lemma hex_encode_free: "CHR '' '' \<notin> set (hex_encode s)" "CHR 0x0A \<notin> set (hex_encode s)"
  by (induction s) (auto dest: hex_char_free [rotated] simp: hex_char_free [THEN conjunct1, symmetric] hex_char_free [THEN conjunct2, symmetric])

lemma nat_digits_length: "0 < k \<Longrightarrow> n < 10 ^ k \<Longrightarrow> length (nat_digits n) \<le> k"
proof (induction k arbitrary: n)
  case (Suc k)
  show ?case
  proof (cases "n < 10")
    case False
    then have "n div 10 < 10 ^ k" "k \<noteq> 0" using Suc.prems by (auto intro!: Nat.gr0I)
    with Suc.IH [of "n div 10"] False show ?thesis by (simp add: nat_digits.simps [of n])
  qed (simp add: nat_digits.simps [of n])
qed simp

lemma read_marker_line:
  "CHR 0x0A \<notin> set line \<Longrightarrow> length line < room \<Longrightarrow>
   read_transfer_marker room acc (line @ CHR 0x0A # s) e = (parse_transfer_marker (acc @ line), s)"
proof (induction line arbitrary: room acc)
  case Nil
  then show ?case by (cases room) simp_all
next
  case (Cons c line)
  then show ?case by (cases room) auto
qed

definition marker_line :: "int \<Rightarrow> bytes \<Rightarrow> string" where
  "marker_line sz digest = ''ASP1 OK '' @ itoa sz @ CHR '' '' # hex_encode digest"

lemma parse_marker_line:
  assumes "0 \<le> sz" "sz < 2 ^ 63" "length digest = 32"
  shows "parse_transfer_marker (marker_line sz digest) = Inr \<lparr>mk_size = sz, mk_digest = digest, mk_code = []\<rparr>"
proof -
  have free: "CHR '' '' \<notin> set (itoa sz)" using assms(1) by (simp add: itoa_def nat_digits_free)
  have "split_on CHR '' '' (marker_line sz digest) = [''ASP1'', ''OK'', itoa sz, hex_encode digest]"
    by (simp add: marker_line_def split_on_append_sep [OF free] split_on_free hex_encode_free)
  then show ?thesis
    using parse_itoa [OF assms(1,2)] assms(3) by (simp add: parse_transfer_marker_def hex_round_trip)
qed

lemma ok_marker_line: "ok_marker sz digest = marker_line sz digest @ [CHR 0x0A]"
  by (simp add: ok_marker_def marker_line_def newline_def)

lemma marker_line_ok:
  assumes "0 \<le> sz" "sz \<le> max_file_transfer_bytes" "length digest = 32"
  shows "CHR 0x0A \<notin> set (marker_line sz digest)" "length (marker_line sz digest) < max_transfer_marker_bytes"
proof -
  show "CHR 0x0A \<notin> set (marker_line sz digest)"
    using assms(1) by (simp add: marker_line_def itoa_def nat_digits_free hex_encode_free)
  have "nat sz < 10 ^ 8" using assms(2) by (simp add: max_file_transfer_bytes_def)
  then have "length (nat_digits (nat sz)) \<le> 8" by (rule nat_digits_length [rotated]) simp
  then show "length (marker_line sz digest) < max_transfer_marker_bytes"
    using assms by (simp add: marker_line_def itoa_def max_transfer_marker_bytes_def)
qed

lemma read_ok_marker:
  assumes "0 \<le> sz" "sz \<le> max_file_transfer_bytes" "length digest = 32"
  shows "read_transfer_marker max_transfer_marker_bytes [] (ok_marker sz digest @ s) e
    = (Inr \<lparr>mk_size = sz, mk_digest = digest, mk_code = []\<rparr>, s)"
proof -
  have "sz < 2 ^ 63" using assms(2) by (simp add: max_file_transfer_bytes_def)
  then show ?thesis
    using read_marker_line [OF marker_line_ok [OF assms], of "[]" s e] parse_marker_line [OF assms(1) _ assms(3)]
    by (simp add: ok_marker_line)
qed

section \<open>Error codes\<close>

definition helper_codes :: "string list" where
  "helper_codes = [''INVALID_PATH'', ''FILE_NOT_FOUND'', ''TRANSFER_FAILED'', ''TRANSFER_TOO_LARGE'',
     ''CONTENT_LENGTH_MISMATCH'', ''CONTENT_DIGEST_MISMATCH'']"

lemma parse_error_line:
  assumes "code \<in> set helper_codes"
  shows "parse_transfer_marker (''ASP1 ERR '' @ code) = Inr (empty_marker\<lparr>mk_code := code\<rparr>)"
    "CHR 0x0A \<notin> set (''ASP1 ERR '' @ code)" "length (''ASP1 ERR '' @ code) < max_transfer_marker_bytes" "code \<noteq> []"
  using assms by (auto simp: helper_codes_def parse_transfer_marker_def max_transfer_marker_bytes_def)

lemma read_error_marker:
  assumes "code \<in> set helper_codes"
  shows "read_transfer_marker max_transfer_marker_bytes [] (''ASP1 ERR '' @ code @ newline) e
    = (Inr (empty_marker\<lparr>mk_code := code\<rparr>), [])"
  using read_marker_line [OF parse_error_line(2,3) [OF assms], of "[]" "[]" e] parse_error_line(1) [OF assms]
  by (simp add: newline_def)

lemma download_codes:
  "helper_download sha source io = (out, Some (Protocol code)) \<Longrightarrow> code \<in> set helper_codes \<and> out = []"
  by (auto simp: helper_download_def helper_codes_def invalid_path_def transfer_failed_def Let_def
      split: opened.splits if_split_asm option.splits)

lemma upload_codes:
  "helper_upload sha dir base sz ex input io = ((out, Some (Protocol code)), dir') \<Longrightarrow> code \<in> set helper_codes \<and> out = []"
  by (auto simp: helper_upload_def upload_checked_def helper_codes_def invalid_path_def transfer_failed_def Let_def
      split: opened.splits if_split_asm option.splits)

lemma byte_word_inj: "byte_word a = byte_word b \<longleftrightarrow> a = b"
proof
  assume "byte_word a = byte_word b"
  then have "unat (of_nat (byte_val a) :: 8 word) = unat (of_nat (byte_val b) :: 8 word)" by (simp add: byte_word_def)
  then have "byte_val a = byte_val b" by (simp add: unat_of_nat take_bit_nat_eq_self)
  then show "a = b" by simp
qed simp

lemma word_xor_eq_0: "(x :: 8 word) XOR y = 0 \<longleftrightarrow> x = y"
  by (auto simp: bit_eq_iff bit_xor_iff)

lemma equal_digest_fold:
  "foldl (\<lambda>different (a, b). different OR (byte_word a XOR byte_word b)) d ps = 0
    \<longleftrightarrow> d = 0 \<and> (\<forall>(a, b) \<in> set ps. a = b)"
proof (induction ps arbitrary: d)
  case (Cons p ps)
  obtain a b where p: "p = (a, b)" by fastforce
  have "byte_word a XOR byte_word b = 0 \<longleftrightarrow> a = b" by (metis byte_word_inj word_xor_eq_0)
  then show ?case using Cons by (auto simp: p or_eq_0_iff)
qed simp

lemma equal_digest_iff: "equal_digest left right \<longleftrightarrow> left = right"
proof -
  have "(\<forall>(a, b) \<in> set (zip left right). a = b) \<longleftrightarrow> left = right" if "length left = length right"
    using that by (induction left right rule: list_induct2) auto
  then show ?thesis by (auto simp: equal_digest_def equal_digest_fold)
qed

section \<open>Properties\<close>

text \<open>
  The helper never leaves the workspace: if it opens the parent of a path, the path is
  \<open>/workspace/\<close> followed by proper names only, and the parent was reached from the workspace
  root by opening exactly the names before the last, one by one, none through a symbolic
  link; and every path the control plane accepts, other than the workspace itself, is of
  that form.
\<close>

theorem helper_confined:
  "(open_parent root openat path up = Inr (d, base) \<longrightarrow>
      (\<exists>r es. root = Opened r \<and> list_all normal_elem (es @ [base]) \<and> walk openat up r es = Inr d
        \<and> path = ''/workspace/'' @ join_with ''/'' (es @ [base])))
   \<and> (normalize_workspace_path value = Inr p \<and> p \<noteq> workspace_path \<longrightarrow>
      (\<exists>es base. path_parts p = Inr (es @ [base]) \<and> list_all normal_elem (es @ [base])))"
proof (intro conjI impI)
  assume o: "open_parent root openat path up = Inr (d, base)"
  then obtain parts r where parts: "path_parts path = Inr parts" and r: "root = Opened r"
    and w: "walk openat up r (butlast parts) = Inr d" "base = last parts"
    by (auto simp: open_parent_def split: sum.splits opened.splits)
  have p: "has_prefix path (helper_root @ ''/'')" "parts = split_on CHR ''/'' (drop (length (helper_root @ ''/'')) path)"
    "\<forall>e \<in> set parts. e \<noteq> [] \<and> e \<noteq> ''.'' \<and> e \<noteq> ''..''" "parts \<noteq> []"
  proof -
    define q where "q = split_on CHR ''/'' (drop (length (helper_root @ ''/'')) path)"
    have "has_prefix path (helper_root @ ''/'') \<and> q \<noteq> [] \<and> \<not> list_ex (\<lambda>p. p = [] \<or> p = ''.'' \<or> p = ''..'') q \<and> q = parts"
      using parts unfolding path_parts_def Let_def q_def [symmetric] by (simp split: if_split_asm)
    then show "has_prefix path (helper_root @ ''/'')" "parts = split_on CHR ''/'' (drop (length (helper_root @ ''/'')) path)"
      "\<forall>e \<in> set parts. e \<noteq> [] \<and> e \<noteq> ''.'' \<and> e \<noteq> ''..''" "parts \<noteq> []"
      unfolding q_def [symmetric] by (auto simp: list_ex_iff)
  qed
  have "\<forall>e \<in> set parts. CHR ''/'' \<notin> set e" unfolding p(2) by (intro ballI) (rule split_on_no_sep)
  then have "list_all normal_elem parts" using p(3) by (simp add: list_all_iff normal_elem_def)
  moreover have "path = ''/workspace/'' @ join_with ''/'' parts"
    using quote_no_operator [OF p(1)] join_split [of "CHR ''/''"] p(2) by (simp add: helper_root_def)
  ultimately show "\<exists>r es. root = Opened r \<and> list_all normal_elem (es @ [base]) \<and> walk openat up r es = Inr d
        \<and> path = ''/workspace/'' @ join_with ''/'' (es @ [base])"
    using r w p(4) by (intro exI [of _ r] exI [of _ "butlast parts"]) simp
next
  assume n: "normalize_workspace_path value = Inr p \<and> p \<noteq> workspace_path"
  then obtain es where es: "es \<noteq> []" "list_all normal_elem es" "p = workspace_path @ ''/'' @ join_with ''/'' es"
    using workspace_path_shape [OF conjunct1 [OF n]] n by blast
  have "split_on CHR ''/'' (join_with ''/'' es) = es"
    using es(1,2) by (intro split_join) (auto simp: list_all_iff normal_elem_def)
  then have "split_on CHR ''/'' (drop (length (helper_root @ ''/'')) p) = es"
    by (simp add: es(3) workspace_path_def helper_root_def)
  moreover have "has_prefix p (helper_root @ ''/'')" by (simp add: es(3) workspace_path_def helper_root_def)
  moreover have "last es \<noteq> []" "\<not> list_ex (\<lambda>p. p = [] \<or> p = ''.'' \<or> p = ''..'') es"
    using es(1,2) last_in_set [OF es(1)] by (auto simp: list_ex_iff list_all_iff normal_elem_def)
  ultimately have "path_parts p = Inr es" using es(1) by (simp add: path_parts_def)
  then show "\<exists>es base. path_parts p = Inr (es @ [base]) \<and> list_all normal_elem (es @ [base])"
    using es(1,2) by (intro exI [of _ "butlast es"] exI [of _ "last es"]) simp
qed

definition sample_openat :: "nat \<Rightarrow> string \<Rightarrow> nat opened" where
  "sample_openat d n = (if n = ''src'' then Opened (d + 1) else Enoent)"

lemma helper_confined_witness:
  "open_parent (Opened 0) sample_openat ''/workspace/src/a'' False = Inr (1, ''a'')
   \<and> (\<exists>r es. Opened 0 = Opened r \<and> list_all normal_elem (es @ [''a'']) \<and> walk sample_openat False r es = Inr 1
       \<and> ''/workspace/src/a'' = ''/workspace/'' @ join_with ''/'' (es @ [''a'']))"
proof -
  have "open_parent (Opened 0) sample_openat ''/workspace/src/a'' False = Inr (1, ''a'')" by code_simp
  with helper_confined [of "Opened 0" sample_openat "''/workspace/src/a''" False 1 "''a''" "''a''" "''/workspace/a''"] show ?thesis by blast
qed

text \<open>
  C15. Downloads are exact from end to end: when the helper completes, the control plane
  opens a download whose content is the file's, with its size and digest, for every content
  of up to 64 MiB; when the helper gives up before the marker, the caller gets the error
  that belongs to the helper's code and no content.
\<close>

theorem download_end_to_end:
  assumes sha: "\<And>x. length (sha256 x) = 32"
    and bg: "begin_transfer m now lid expires = (Inr i, m1)"
    and run: "helper_download sha256 source io = (out, err)"
  shows "(err = None \<longrightarrow> (\<exists>f. source = Opened f \<and> sf_regular f
        \<and> open_download m now lid expires (fst (helper_main (out, err))) ending False
          = (Inr \<lparr>dl_op = i, dl_size = int (length (sf_content f)), dl_digest = sha256 (sf_content f),
                  dl_content = sf_content f\<rparr>, m1)))
    \<and> (\<forall>code. err = Some (Protocol code) \<longrightarrow>
        fst (open_download m now lid expires (fst (helper_main (out, err))) ending False) = Inl (remote_transfer_error code))"
proof (intro conjI impI allI)
  assume "err = None"
  then obtain f where f: "source = Opened f" "sf_regular f"
    and len: "int (length (take (nat (helper_max_bytes + 1)) (sf_content f))) \<le> helper_max_bytes"
    and out: "out = ok_marker (int (length (take (nat (helper_max_bytes + 1)) (sf_content f))))
        (sha256 (take (nat (helper_max_bytes + 1)) (sf_content f))) @ take (nat (helper_max_bytes + 1)) (sf_content f)"
    using run by (auto simp: helper_download_def Let_def split: opened.splits if_split_asm option.splits)
  have short: "int (length (sf_content f)) \<le> helper_max_bytes"
  proof (rule ccontr)
    assume "\<not> ?thesis"
    then have "nat (helper_max_bytes + 1) \<le> length (sf_content f)" by linarith
    with len show False by (simp add: helper_max_bytes_def)
  qed
  then have "take (nat (helper_max_bytes + 1)) (sf_content f) = sf_content f"
    by (intro take_all) linarith
  with out have o: "out = ok_marker (int (length (sf_content f))) (sha256 (sf_content f)) @ sf_content f" by simp
  have "int (length (sf_content f)) \<le> max_file_transfer_bytes"
    using short by (simp add: helper_max_bytes_def max_file_transfer_bytes_def)
  then have "read_transfer_marker max_transfer_marker_bytes [] out ending
      = (Inr \<lparr>mk_size = int (length (sf_content f)), mk_digest = sha256 (sf_content f), mk_code = []\<rparr>, sf_content f)"
    unfolding o by (intro read_ok_marker) (simp_all add: sha)
  then show "\<exists>f. source = Opened f \<and> sf_regular f
        \<and> open_download m now lid expires (fst (helper_main (out, err))) ending False
          = (Inr \<lparr>dl_op = i, dl_size = int (length (sf_content f)), dl_digest = sha256 (sf_content f),
                  dl_content = sf_content f\<rparr>, m1)"
    using f \<open>err = None\<close> \<open>int (length (sf_content f)) \<le> max_file_transfer_bytes\<close>
    by (simp add: helper_main_def open_download_def bg)
next
  fix code assume e: "err = Some (Protocol code)"
  with run have c: "code \<in> set helper_codes" "out = []" using download_codes by auto
  show "fst (open_download m now lid expires (fst (helper_main (out, err))) ending False) = Inl (remote_transfer_error code)"
    using read_error_marker [OF c(1), of ending] parse_error_line(4) [OF c(1)]
    by (simp add: e c(2) helper_main_def open_download_def bg)
qed

definition zero_digest :: "bytes \<Rightarrow> bytes" where
  "zero_digest x = replicate 32 CHR 0x00"

definition sample_download_io :: download_io where
  "sample_download_io = \<lparr>di_temporary = [(Some [], Exists), (Some [], Created)], di_copied = True, di_seek = True,
     di_unlink = True, di_marker = None, di_body = None\<rparr>"

lemma download_end_to_end_witness:
  "\<exists>m1. open_download one_begun 1 ''l'' 100
      (fst (helper_main (helper_download zero_digest (Opened \<lparr>sf_regular = True, sf_size = 2, sf_content = ''hi''\<rparr>) sample_download_io)))
      Io_eof False
    = (Inr \<lparr>dl_op = 1, dl_size = 2, dl_digest = zero_digest ''hi'', dl_content = ''hi''\<rparr>, m1)"
proof -
  let ?f = "\<lparr>sf_regular = True, sf_size = 2, sf_content = ''hi''\<rparr>"
  have b: "begin_transfer one_begun 1 ''l'' 100 = (Inr 1, snd (begin_transfer one_begun 1 ''l'' 100))"
    by (simp add: one_begun_def begin_transfer_def new_transfer_manager_def count_of_def Let_def)
  obtain out err where h: "helper_download zero_digest (Opened ?f) sample_download_io = (out, err)" by fastforce
  have t: "create_temporary ''.asp-download-'' (di_temporary sample_download_io) = Some ''.asp-download-''"
    by (simp add: create_temporary_def sample_download_io_def numeral_eq_Suc)
  have sel: "di_copied sample_download_io" "di_seek sample_download_io" "di_unlink sample_download_io"
    "di_marker sample_download_io = None" "di_body sample_download_io = None"
    by (simp_all add: sample_download_io_def)
  have "err = None"
    using h by (simp add: helper_download_def t sel helper_max_bytes_def Let_def)
  with download_end_to_end [OF _ b h, of Io_eof] h show ?thesis by (auto simp: zero_digest_def)
qed


definition sample_upload_io :: upload_io where
  "sample_upload_io = \<lparr>ui_opens = True, ui_temporary = [(Some ''x'', Created)], ui_write_failed = None, ui_ending = Io_eof,
     ui_sync = True, ui_close = True, ui_rename = True, ui_unlink = True, ui_response = True\<rparr>"

definition sample_write :: stream_write_request where
  "sample_write = \<lparr>sw_path = ''a'', sw_size = 2, sw_sha256 = zero_digest ''hi''\<rparr>"

definition sample_upload_run :: upload_run where
  "sample_upload_run = \<lparr>ur_stdout = [''ASP1'', '' OK'' @ newline], ur_error = None, ur_ctx_done = False,
     ur_input_error = Some Io_eof, ur_input_count = 2\<rparr>"


end
