(* ===== verification/List_Cursor.thy ===== *)
theory List_Cursor
  imports Lease_Types
begin

text \<open>
  Keyed digests of identities (\<open>apps/control-plane-go/internal/backend/kubernetes/identity.go\<close>) and
  the sealed cursors of lease lists (\<open>cursor.go\<close>). HMAC, the AEAD and JSON are functions that
  the records carry; what the properties need of them is among their hypotheses.
\<close>

section \<open>Identities\<close>

text \<open>\<open>mi_hmac\<close> is HMAC-SHA256 under a key, \<open>mi_json\<close> the JSON text of a list of strings.\<close>

record metadata_identity =
  mi_secret :: bytes
  mi_hmac :: "bytes \<Rightarrow> bytes \<Rightarrow> bytes"
  mi_json :: "string list \<Rightarrow> bytes"

definition new_metadata_identity ::
  "(bytes \<Rightarrow> bytes \<Rightarrow> bytes) \<Rightarrow> (string list \<Rightarrow> bytes) \<Rightarrow> string \<Rightarrow> lease_error + metadata_identity" where
  "new_metadata_identity hmac json secret =
     (if secret = [] then Inl (LeaseError 500 ''INVALID_CONFIGURATION'')
      else Inr \<lparr>mi_secret = secret, mi_hmac = hmac, mi_json = json\<rparr>)"

definition digest :: "metadata_identity \<Rightarrow> string list \<Rightarrow> string" where
  "digest i parts = take 40 (hex_encode (mi_hmac i (mi_secret i) (mi_json i parts)))"

definition consumer_hash :: "metadata_identity \<Rightarrow> lease_scope \<Rightarrow> string" where
  "consumer_hash i s = digest i [''consumer'', consumer_id s]"

definition scope_hash :: "metadata_identity \<Rightarrow> lease_scope \<Rightarrow> string" where
  "scope_hash i s = digest i [''scope'', consumer_id s, subject_id s]"

definition idempotency_hash :: "metadata_identity \<Rightarrow> lease_scope \<Rightarrow> string \<Rightarrow> string" where
  "idempotency_hash i s key = digest i [''idempotency'', consumer_id s, subject_id s, key]"

definition pool_hash :: "metadata_identity \<Rightarrow> string \<Rightarrow> string" where
  "pool_hash i pool = idempotency_hash i \<lparr>consumer_id = ''pool'', subject_id = ''pool''\<rparr> pool"

section \<open>Cursors\<close>

record list_cursor_payload =
  cp_version :: int
  cp_scope_digest :: string
  cp_pool_digest :: string
  cp_limit :: int
  cp_as_of :: int
  cp_continue :: string

definition list_cursor_version :: int where "list_cursor_version = 1"
definition list_cursor_domain :: string where "list_cursor_domain = ''lease-list-cursor/v1''"
definition list_cursor_aad :: string where "list_cursor_aad = ''agent-sandbox-platform/lease-list-cursor/v1''"

text \<open>An AEAD under a fixed key: \<open>seal nonce plaintext aad\<close>, \<open>open nonce ciphertext aad\<close>.\<close>

record aead =
  nonce_size :: nat
  overhead :: nat
  seal :: "bytes \<Rightarrow> bytes \<Rightarrow> bytes \<Rightarrow> bytes"
  unseal :: "bytes \<Rightarrow> bytes \<Rightarrow> bytes \<Rightarrow> bytes option"

record list_cursor_codec =
  cc_aead :: aead
  cc_identity :: metadata_identity
  cc_marshal :: "list_cursor_payload \<Rightarrow> bytes"
  cc_unmarshal :: "bytes \<Rightarrow> list_cursor_payload option"

definition new_list_cursor_codec ::
  "(bytes \<Rightarrow> aead option) \<Rightarrow> (list_cursor_payload \<Rightarrow> bytes) \<Rightarrow> (bytes \<Rightarrow> list_cursor_payload option)
    \<Rightarrow> metadata_identity \<Rightarrow> lease_error + list_cursor_codec" where
  "new_list_cursor_codec gcm marshal unmarshal i =
     (case gcm (mi_hmac i (mi_secret i) list_cursor_domain) of None \<Rightarrow> Inl Internal
      | Some a \<Rightarrow> Inr \<lparr>cc_aead = a, cc_identity = i, cc_marshal = marshal, cc_unmarshal = unmarshal\<rparr>)"

definition pool_digest :: "list_cursor_codec \<Rightarrow> string \<Rightarrow> string" where
  "pool_digest c pool = (if pool = [] then ''none'' else pool_hash (cc_identity c) pool)"

definition invalid_cursor :: lease_error where
  "invalid_cursor = LeaseError 400 ''INVALID_CURSOR''"

definition cursor_payload :: "list_cursor_codec \<Rightarrow> lease_scope \<Rightarrow> string \<Rightarrow> int \<Rightarrow> time \<Rightarrow> string \<Rightarrow> list_cursor_payload" where
  "cursor_payload c scope pool limit as_of continuation =
     \<lparr>cp_version = list_cursor_version, cp_scope_digest = scope_hash (cc_identity c) scope,
            cp_pool_digest = pool_digest c pool, cp_limit = limit, cp_as_of = wrap64 as_of, cp_continue = continuation\<rparr>"

text \<open>\<open>nonce\<close> is the outcome of reading random bytes.\<close>

definition encode_cursor ::
  "list_cursor_codec \<Rightarrow> bytes option \<Rightarrow> lease_scope \<Rightarrow> string \<Rightarrow> int \<Rightarrow> time \<Rightarrow> string \<Rightarrow> lease_error + string" where
  "encode_cursor c nonce scope pool limit as_of continuation =
     (let payload = cursor_payload c scope pool limit as_of continuation
      in case nonce of None \<Rightarrow> Inl Internal
         | Some n \<Rightarrow> Inr (b64_encode raw_url_encoding (n @ seal (cc_aead c) n (cc_marshal c payload) list_cursor_aad)))"

definition decode_cursor ::
  "list_cursor_codec \<Rightarrow> string \<Rightarrow> lease_scope \<Rightarrow> string \<Rightarrow> int \<Rightarrow> lease_error + list_cursor_payload" where
  "decode_cursor c val scope pool limit =
     (let a = cc_aead c in
      if val = [] \<or> length val > max_list_cursor_bytes then Inl invalid_cursor
      else case b64_decode (strict_form raw_url_encoding) val of None \<Rightarrow> Inl invalid_cursor
        | Some sealed \<Rightarrow>
           if length sealed < nonce_size a + overhead a then Inl invalid_cursor
           else case unseal a (take (nonce_size a) sealed) (drop (nonce_size a) sealed) list_cursor_aad of
               None \<Rightarrow> Inl invalid_cursor
             | Some plain \<Rightarrow> (case cc_unmarshal c plain of None \<Rightarrow> Inl invalid_cursor
                 | Some p \<Rightarrow>
                    if cp_version p \<noteq> list_cursor_version \<or> cp_scope_digest p \<noteq> scope_hash (cc_identity c) scope
                       \<or> cp_pool_digest p \<noteq> pool_digest c pool \<or> cp_limit p \<noteq> limit \<or> cp_as_of p \<le> 0 \<or> cp_continue p = []
                    then Inl invalid_cursor else Inr p))"

text \<open>
  A cursor returns to the request it was made for, and only to that: with the scope, the pool
  and the limit of its request it yields the recorded time and continuation, and under any
  scope or pool with another digest, or another limit, it is invalid. The laws of AEAD and
  JSON that this needs: what is sealed can be unsealed and grows by the overhead, and the
  payload survives its JSON form.
\<close>

definition aead_laws :: "aead \<Rightarrow> bool" where
  "aead_laws a \<longleftrightarrow> (\<forall>n p d. length n = nonce_size a \<longrightarrow>
     length (seal a n p d) = length p + overhead a \<and> unseal a n (seal a n p d) d = Some p)"

lemma decode_encode:
  assumes "aead_laws (cc_aead c)" and json: "cc_unmarshal c (cc_marshal c (cursor_payload c scope pool limit as_of continuation))
      = Some (cursor_payload c scope pool limit as_of continuation)"
    and n: "length n = nonce_size (cc_aead c)"
    and enc: "encode_cursor c (Some n) scope pool limit as_of continuation = Inr v"
    and len: "v \<noteq> []" "length v \<le> max_list_cursor_bytes"
  shows "decode_cursor c v scope' pool' limit' =
    (if scope_hash (cc_identity c) scope \<noteq> scope_hash (cc_identity c) scope' \<or> pool_digest c pool \<noteq> pool_digest c pool'
        \<or> limit \<noteq> limit' \<or> wrap64 as_of \<le> 0 \<or> continuation = []
     then Inl invalid_cursor
     else Inr (cursor_payload c scope pool limit as_of continuation))"
proof -
  let ?p = "cursor_payload c scope pool limit as_of continuation"
  let ?s = "seal (cc_aead c) n (cc_marshal c ?p) list_cursor_aad"
  have law: "length ?s = length (cc_marshal c ?p) + overhead (cc_aead c)"
    "unseal (cc_aead c) n ?s list_cursor_aad = Some (cc_marshal c ?p)"
    using assms(1) n by (auto simp: aead_laws_def)
  have "v = b64_encode (strict_form raw_url_encoding) (n @ ?s)" using enc by (simp add: encode_cursor_def Let_def)
  then have "b64_decode (strict_form raw_url_encoding) v = Some (n @ ?s)"
    using b64_round_trip [of "strict_form raw_url_encoding"] well_formed_raw_url by (simp del: b64_encode_strict_form)
  then show ?thesis
    using len law by (simp add: decode_cursor_def Let_def n [symmetric] json) (auto simp: cursor_payload_def)
qed

end
