(* ===== verification/Kube_Backend.thy ===== *)
theory Kube_Backend
  imports List_Cursor File_Transfer
begin

text \<open>
  The lease backend on Kubernetes (\<open>apps/control-plane-go/internal/backend/kubernetes/backend.go\<close>,
  and the parts of \<open>exec.go\<close> and \<open>transfer.go\<close> that belong to its operations). A lease is a
  \<open>SandboxClaim\<close> object: who it belongs to is in its labels, its times are in its annotations.
  The API server is a record of functions on a cluster state; its documented behaviour is
  stated in \<open>kube_laws\<close> of the theory on properties. An operation takes the times it reads,
  its random bytes and the outcome of every wait as arguments.
\<close>

section \<open>The API server\<close>

datatype kube_error = Kube_not_found | Kube_expired | Kube_other

record claim =
  cl_name :: string
  cl_labels :: "string \<rightharpoonup> string"
  cl_annotations :: "string \<rightharpoonup> string"
  cl_warm_pool :: string
  cl_shutdown_policy :: string
  cl_shutdown_time :: string
  cl_deleting :: bool
  cl_sandbox :: string

record pod =
  pod_runtime_class :: "string option"
  pod_containers :: "string list"

record warm_pool =
  wp_ready :: "int option"
  wp_replicas :: "int option"

text \<open>
  The calls the backend makes. \<open>kb_list\<close> takes a label selector, a limit (zero for none) and a
  continuation; \<open>kb_wait\<close> is what happens to the cluster between two polls. A sandbox is its
  annotations. A field that is missing or has the wrong type reads as empty or \<open>None\<close>.
\<close>

record 'k kube =
  kb_create :: "claim \<Rightarrow> 'k \<Rightarrow> (kube_error + unit) \<times> 'k"
  kb_get :: "string \<Rightarrow> 'k \<Rightarrow> (kube_error + claim) \<times> 'k"
  kb_list :: "(string \<times> string) list \<Rightarrow> int \<Rightarrow> string \<Rightarrow> 'k \<Rightarrow> (kube_error + claim list \<times> string) \<times> 'k"
  kb_delete :: "string \<Rightarrow> 'k \<Rightarrow> (kube_error + unit) \<times> 'k"
  kb_sandbox :: "string \<Rightarrow> 'k \<Rightarrow> (kube_error + (string \<rightharpoonup> string)) \<times> 'k"
  kb_sandboxes :: "'k \<Rightarrow> (kube_error + unit) \<times> 'k"
  kb_warm_pool :: "string \<Rightarrow> 'k \<Rightarrow> (kube_error + warm_pool) \<times> 'k"
  kb_pod :: "string \<Rightarrow> 'k \<Rightarrow> (kube_error + pod) \<times> 'k"
  kb_wait :: "'k \<Rightarrow> 'k"

section \<open>The backend\<close>

record pool =
  pl_warm_pool :: string
  pl_runtime_class :: string
  pl_container :: string

text \<open>\<open>Format\<close> and \<open>Parse\<close> with the layout \<open>RFC3339Nano\<close>.\<close>

record time_format =
  tf_format :: "time \<Rightarrow> string"
  tf_parse :: "string \<Rightarrow> time option"

record 'k backend =
  bk_identity :: metadata_identity
  bk_pools :: "string \<rightharpoonup> pool"
  bk_default_ttl :: int
  bk_max_ttl :: int
  bk_kube :: "'k kube"
  bk_runner :: runner
  bk_codec :: list_cursor_codec
  bk_times :: time_format

record 'k bstate =
  bs_cluster :: 'k
  bs_transfers :: transfer_manager

definition managed_label :: string where "managed_label = ''sandbox.geminixiang.dev/managed''"
definition scope_label :: string where "scope_label = ''sandbox.geminixiang.dev/scope''"
definition consumer_label :: string where "consumer_label = ''sandbox.geminixiang.dev/consumer''"
definition idempotency_label :: string where "idempotency_label = ''sandbox.geminixiang.dev/idempotency''"
definition pool_hash_label :: string where "pool_hash_label = ''sandbox.geminixiang.dev/pool''"
definition pool_annotation :: string where "pool_annotation = ''sandbox.geminixiang.dev/pool-name''"
definition created_annotation :: string where "created_annotation = ''sandbox.geminixiang.dev/created-at''"
definition expires_annotation :: string where "expires_annotation = ''sandbox.geminixiang.dev/expires-at''"
definition pod_annotation :: string where "pod_annotation = ''agents.x-k8s.io/pod-name''"

lemmas label_defs = managed_label_def scope_label_def consumer_label_def idempotency_label_def pool_hash_label_def
  pool_annotation_def created_annotation_def expires_annotation_def

text \<open>Reading a Go map of strings.\<close>

definition str_of :: "(string \<rightharpoonup> string) \<Rightarrow> string \<Rightarrow> string" where
  "str_of m k = (case m k of None \<Rightarrow> [] | Some v \<Rightarrow> v)"

definition internal :: "kube_error \<Rightarrow> lease_error" where
  "internal e = Internal"

text \<open>A call of the API server on the state of the backend, its error mapped by \<open>f\<close>.\<close>

definition call :: "(kube_error \<Rightarrow> lease_error) \<Rightarrow> ('k \<Rightarrow> (kube_error + 'a) \<times> 'k) \<Rightarrow> 'k bstate \<Rightarrow> (lease_error + 'a) \<times> 'k bstate" where
  "call f op s = (case op (bs_cluster s) of (r, k) \<Rightarrow>
     ((case r of Inl e \<Rightarrow> Inl (f e) | Inr v \<Rightarrow> Inr v), s\<lparr>bs_cluster := k\<rparr>))"

section \<open>Claims and records\<close>

definition build_claim :: "'k backend \<Rightarrow> lease_record \<Rightarrow> lease_scope \<Rightarrow> string \<Rightarrow> pool \<Rightarrow> claim" where
  "build_claim B r scope key pool =
     (let i = bk_identity B; fmt = tf_format (bk_times B) in
      \<lparr>cl_name = lease_id r,
       cl_labels = [managed_label \<mapsto> ''true'', scope_label \<mapsto> scope_hash i scope, consumer_label \<mapsto> consumer_hash i scope,
         idempotency_label \<mapsto> idempotency_hash i scope key, pool_hash_label \<mapsto> pool_hash i (lease_pool r)],
       cl_annotations = [pool_annotation \<mapsto> lease_pool r, created_annotation \<mapsto> fmt (lease_created_at r),
         expires_annotation \<mapsto> fmt (lease_expires_at r)],
       cl_warm_pool = pl_warm_pool pool, cl_shutdown_policy = ''DeleteForeground'',
       cl_shutdown_time = fmt (lease_expires_at r), cl_deleting = False, cl_sandbox = []\<rparr>)"

definition record_from_claim :: "'k backend \<Rightarrow> claim \<Rightarrow> lease_error + lease_record" where
  "record_from_claim B c =
     (let a = str_of (cl_annotations c); parse = tf_parse (bk_times B) in
      case parse (a created_annotation) of None \<Rightarrow> Inl Internal
      | Some created \<Rightarrow> (case parse (a expires_annotation) of None \<Rightarrow> Inl Internal
        | Some expires \<Rightarrow> Inr \<lparr>lease_id = cl_name c, lease_pool = a pool_annotation, lease_status = Active,
            lease_created_at = created, lease_expires_at = expires, last_used_at = created\<rparr>))"

definition new_lease_id :: "bytes \<Rightarrow> string" where
  "new_lease_id random = ''lease-'' @ hex_encode random"

definition validate_pools :: "(string \<times> pool) list \<Rightarrow> lease_error + (string \<rightharpoonup> pool)" where
  "validate_pools input =
     (if input = [] then Inl Internal
      else if list_ex (\<lambda>(name, p). blank name \<or> blank (pl_warm_pool p) \<or> blank (pl_runtime_class p)) input then Inl Internal
      else Inr (map_of input))"

section \<open>Construction\<close>

text \<open>
  \<open>New\<close>: the options with zero standing for a default. The clients, the runner and the clock
  are given; only their absence is checked.
\<close>

record options =
  op_namespace :: string
  op_metadata_secret :: string
  op_pools :: "(string \<times> pool) list"
  op_default_ttl :: int
  op_max_ttl :: int
  op_ready_timeout :: int
  op_poll_interval :: int
  op_max_transfers :: int
  op_max_transfers_per_lease :: int
  op_transfer_timeout :: int
  op_clients :: bool

definition or_default :: "int \<Rightarrow> int \<Rightarrow> int" where
  "or_default n d = (if n = 0 then d else n)"

definition with_defaults :: "options \<Rightarrow> options" where
  "with_defaults opt = opt
     \<lparr>op_default_ttl := or_default (op_default_ttl opt) 900, op_max_ttl := or_default (op_max_ttl opt) 3600,
      op_ready_timeout := or_default (op_ready_timeout opt) (2 * minute),
      op_poll_interval := or_default (op_poll_interval opt) (500 * millisecond),
      op_max_transfers := or_default (op_max_transfers opt) 8,
      op_max_transfers_per_lease := or_default (op_max_transfers_per_lease opt) 2,
      op_transfer_timeout := or_default (op_transfer_timeout opt) (2 * minute)\<rparr>"

definition new_backend ::
  "(bytes \<Rightarrow> bytes \<Rightarrow> bytes) \<Rightarrow> (string list \<Rightarrow> bytes) \<Rightarrow> (bytes \<Rightarrow> aead option) \<Rightarrow> (list_cursor_payload \<Rightarrow> bytes)
    \<Rightarrow> (bytes \<Rightarrow> list_cursor_payload option) \<Rightarrow> 'k kube \<Rightarrow> runner \<Rightarrow> time_format \<Rightarrow> options
    \<Rightarrow> lease_error + 'k backend \<times> transfer_manager" where
  "new_backend hmac json gcm marshal unmarshal K run fmt opt =
     (if blank (op_namespace opt) then Inl Internal
      else case new_metadata_identity hmac json (op_metadata_secret opt) of Inl e \<Rightarrow> Inl e
      | Inr i \<Rightarrow> (case new_list_cursor_codec gcm marshal unmarshal i of Inl e \<Rightarrow> Inl e
      | Inr codec \<Rightarrow> (case validate_pools (op_pools opt) of Inl e \<Rightarrow> Inl e
      | Inr pools \<Rightarrow>
         let d = with_defaults opt in
         if op_max_transfers d < 1 \<or> op_max_transfers_per_lease d < 1 \<or> op_transfer_timeout d \<le> 0 then Inl Internal
         else if op_max_transfers_per_lease d > op_max_transfers d then Inl Internal
         else if \<not> op_clients d then Inl Internal
         else Inr (\<lparr>bk_identity = i, bk_pools = pools, bk_default_ttl = op_default_ttl d, bk_max_ttl = op_max_ttl d,
               bk_kube = K, bk_runner = run, bk_codec = codec, bk_times = fmt\<rparr>,
             new_transfer_manager (op_max_transfers d) (op_max_transfers_per_lease d) (op_transfer_timeout d)))))"

text \<open>The labels that make a claim one of the backend's own, and one of a scope.\<close>

definition owned :: "'k backend \<Rightarrow> lease_scope \<Rightarrow> claim \<Rightarrow> bool" where
  "owned B scope c = (\<not> cl_deleting c \<and> str_of (cl_labels c) managed_label = ''true''
     \<and> str_of (cl_labels c) scope_label = scope_hash (bk_identity B) scope)"

definition require_claim :: "'k backend \<Rightarrow> lease_scope \<Rightarrow> string \<Rightarrow> 'k bstate \<Rightarrow> (lease_error + claim) \<times> 'k bstate" where
  "require_claim B scope lid s =
     bind_st (call (\<lambda>e. if e = Kube_not_found then not_found else Internal) (kb_get (bk_kube B) lid) s)
       (\<lambda>c s. (if owned B scope c then Inr c else Inl not_found, s))"

definition delete_claim :: "'k backend \<Rightarrow> string \<Rightarrow> 'k bstate \<Rightarrow> (lease_error + unit) \<times> 'k bstate" where
  "delete_claim B name s = (case kb_delete (bk_kube B) name (bs_cluster s) of (r, k) \<Rightarrow>
     ((case r of Inr _ \<Rightarrow> Inr () | Inl e \<Rightarrow> if e = Kube_not_found then Inr () else Inl Internal), s\<lparr>bs_cluster := k\<rparr>))"

section \<open>Stopping transfers\<close>

text \<open>
  \<open>stopLease\<close> with its wait: \<open>waited\<close> says that every cancelled transfer has finished before
  the caller's context was done. With nothing to wait for, the context does not matter.
\<close>

definition finish_all :: "nat set \<Rightarrow> transfer_manager \<Rightarrow> transfer_manager" where
  "finish_all ops m = fold finish (sorted_list_of_set ops) m"

definition stop_and_wait :: "string \<Rightarrow> bool \<Rightarrow> 'k bstate \<Rightarrow> (lease_error + unit) \<times> 'k bstate" where
  "stop_and_wait lid waited s = (case stop_lease lid (bs_transfers s) of (ops, m) \<Rightarrow>
     if ops = {} \<or> waited then (Inr (), s\<lparr>bs_transfers := finish_all ops m\<rparr>)
     else (Inl aborted, s\<lparr>bs_transfers := m\<rparr>))"

definition stop_lease_and_delete :: "'k backend \<Rightarrow> string \<Rightarrow> bool \<Rightarrow> 'k bstate \<Rightarrow> (lease_error + unit) \<times> 'k bstate" where
  "stop_lease_and_delete B lid waited s = bind_st (stop_and_wait lid waited s) (\<lambda>_ s. delete_claim B lid s)"

end
