(* ===== verification/Kube_Ops.thy ===== *)
theory Kube_Ops
  imports Kube_Backend
begin

text \<open>
  The operations of the lease backend: acquiring, listing, reading, releasing and deleting
  leases, the expiry sweep, readiness, commands, small files and the start of transfers. Each
  operation of the code is one definition on the backend and its state.
\<close>

section \<open>Acquire\<close>

text \<open>
  \<open>waitForReadyClaim\<close>: each element of \<open>polls\<close> is the outcome of one wait, true when the context
  was done first. The context has a deadline, so the list is finite; when it is used up the
  deadline has passed.
\<close>

fun wait_for_ready :: "'k backend \<Rightarrow> string \<Rightarrow> bool list \<Rightarrow> 'k bstate \<Rightarrow> (lease_error + claim) \<times> 'k bstate" where
  "wait_for_ready B name polls s =
     (case kb_get (bk_kube B) name (bs_cluster s) of (r, k) \<Rightarrow>
        let s1 = s\<lparr>bs_cluster := k\<rparr> in
        case r of
          Inr c \<Rightarrow> (if cl_sandbox c \<noteq> [] then (Inr c, s1)
            else (case polls of [] \<Rightarrow> (Inl (LeaseError 504 ''SANDBOX_READY_TIMEOUT''), s1)
              | done # ps \<Rightarrow> if done then (Inl (LeaseError 504 ''SANDBOX_READY_TIMEOUT''), s1)
                  else wait_for_ready B name ps (s\<lparr>bs_cluster := kb_wait (bk_kube B) k\<rparr>)))
        | Inl e \<Rightarrow> (if e \<noteq> Kube_not_found then (Inl Internal, s1)
            else (case polls of [] \<Rightarrow> (Inl (LeaseError 504 ''SANDBOX_READY_TIMEOUT''), s1)
              | done # ps \<Rightarrow> if done then (Inl (LeaseError 504 ''SANDBOX_READY_TIMEOUT''), s1)
                  else wait_for_ready B name ps (s\<lparr>bs_cluster := kb_wait (bk_kube B) k\<rparr>))))"

declare wait_for_ready.simps [simp del]

text \<open>The container that commands run in: the pool's, else the first of the Pod.\<close>

definition container_of :: "pool \<Rightarrow> pod \<Rightarrow> string" where
  "container_of pl p = (if pl_container pl = [] \<and> pod_containers p \<noteq> [] then hd (pod_containers p) else pl_container pl)"

definition container_not_found :: lease_error where
  "container_not_found = LeaseError 502 ''SANDBOX_CONTAINER_NOT_FOUND''"

definition verify_runtime :: "'k backend \<Rightarrow> claim \<Rightarrow> pool \<Rightarrow> 'k bstate \<Rightarrow> (lease_error + unit) \<times> 'k bstate" where
  "verify_runtime B c pl s =
     bind_st (call internal (kb_sandbox (bk_kube B) (cl_sandbox c)) s) (\<lambda>a s.
       let pod_name = str_of a pod_annotation in
       if pod_name = [] then (Inl (LeaseError 502 ''SANDBOX_POD_NOT_FOUND''), s)
       else bind_st (call internal (kb_pod (bk_kube B) pod_name) s) (\<lambda>p s.
         if pod_runtime_class p \<noteq> Some (pl_runtime_class pl) then (Inl (LeaseError 502 ''RUNTIME_CLASS_MISMATCH''), s)
         else if container_of pl p = [] then (Inl container_not_found, s) else (Inr (), s)))"

fun find_loop :: "'k backend \<Rightarrow> (nat \<Rightarrow> time) \<Rightarrow> nat \<Rightarrow> claim list \<Rightarrow> 'k bstate \<Rightarrow> (lease_error + lease_record option) \<times> 'k bstate" where
  "find_loop B clock i [] s = (Inr None, s)"
| "find_loop B clock i (c # cs) s =
     (if cl_deleting c then find_loop B clock i cs s
      else case record_from_claim B c of Inl e \<Rightarrow> (Inl e, s)
        | Inr r \<Rightarrow> if lease_expires_at r \<le> clock i
            then find_loop B clock (Suc i) cs (snd (delete_claim B (lease_id r) s))
            else (Inr (Some r), s))"

definition key_selector :: "'k backend \<Rightarrow> lease_scope \<Rightarrow> string \<Rightarrow> (string \<times> string) list" where
  "key_selector B scope key = [(managed_label, ''true''), (scope_label, scope_hash (bk_identity B) scope),
     (idempotency_label, idempotency_hash (bk_identity B) scope key)]"

definition find_by_idempotency_key ::
  "'k backend \<Rightarrow> (nat \<Rightarrow> time) \<Rightarrow> lease_scope \<Rightarrow> string \<Rightarrow> 'k bstate \<Rightarrow> (lease_error + lease_record option) \<times> 'k bstate" where
  "find_by_idempotency_key B clock scope key s =
     bind_st (call internal (kb_list (bk_kube B) (key_selector B scope key) 0 []) s)
       (\<lambda>(items, _) s. find_loop B clock 0 items s)"

definition ttl_of :: "'k backend \<Rightarrow> acquire_request \<Rightarrow> int" where
  "ttl_of B rq = (case aq_ttl_seconds rq of None \<Rightarrow> bk_default_ttl B | Some t \<Rightarrow> t)"

definition fresh_record :: "string \<Rightarrow> string \<Rightarrow> int \<Rightarrow> time \<Rightarrow> lease_record" where
  "fresh_record lid pl ttl now = \<lparr>lease_id = lid, lease_pool = pl, lease_status = Active, lease_created_at = now,
     lease_expires_at = now + wrap64 (ttl * second), last_used_at = now\<rparr>"

text \<open>The result is the lease and whether it was replayed.\<close>

definition acquire_lease ::
  "'k backend \<Rightarrow> (nat \<Rightarrow> time) \<Rightarrow> time \<Rightarrow> bytes \<Rightarrow> bool list \<Rightarrow> lease_scope \<Rightarrow> acquire_request \<Rightarrow> 'k bstate
    \<Rightarrow> (lease_error + lease_record \<times> bool) \<times> 'k bstate" where
  "acquire_lease B clock now random polls scope rq s =
     (case bk_pools B (aq_pool rq) of None \<Rightarrow> (Inl (LeaseError 400 ''UNKNOWN_POOL''), s)
      | Some pl \<Rightarrow>
        let ttl = ttl_of B rq in
        if ttl \<le> 0 \<or> ttl > bk_max_ttl B then (Inl (LeaseError 400 ''INVALID_LEASE_TTL''), s)
        else bind_st (find_by_idempotency_key B clock scope (aq_idempotency_key rq) s) (\<lambda>existing s.
          case existing of Some r \<Rightarrow> (Inr (r, True), s)
          | None \<Rightarrow>
            let r = fresh_record (new_lease_id random) (aq_pool rq) ttl now in
            bind_st (call internal (kb_create (bk_kube B) (build_claim B r scope (aq_idempotency_key rq) pl)) s) (\<lambda>_ s.
              case wait_for_ready B (lease_id r) polls s of
                (Inl e, s) \<Rightarrow> (Inl e, snd (delete_claim B (lease_id r) s))
              | (Inr c, s) \<Rightarrow> (case verify_runtime B c pl s of
                    (Inl e, s) \<Rightarrow> (Inl e, snd (delete_claim B (lease_id r) s))
                  | (Inr _, s) \<Rightarrow> (Inr (r, False), s)))))"

section \<open>List\<close>

fun page_records :: "'k backend \<Rightarrow> time \<Rightarrow> claim list \<Rightarrow> lease_error + lease_record list" where
  "page_records B as_of [] = Inr []"
| "page_records B as_of (c # cs) =
     (if cl_deleting c then page_records B as_of cs
      else case record_from_claim B c of Inl e \<Rightarrow> Inl e
        | Inr r \<Rightarrow> (case page_records B as_of cs of Inl e \<Rightarrow> Inl e
            | Inr rs \<Rightarrow> Inr (if lease_expires_at r \<le> as_of then rs else r # rs)))"

definition scope_selector :: "'k backend \<Rightarrow> lease_scope \<Rightarrow> string \<Rightarrow> (string \<times> string) list" where
  "scope_selector B scope pl = [(managed_label, ''true''), (scope_label, scope_hash (bk_identity B) scope)]
     @ (if pl \<noteq> [] then [(pool_hash_label, pool_hash (bk_identity B) pl)] else [])"

text \<open>Where a page starts: the time it is a view of and the continuation of the API server.\<close>

definition page_start :: "'k backend \<Rightarrow> time \<Rightarrow> lease_scope \<Rightarrow> list_request \<Rightarrow> lease_error + time \<times> string" where
  "page_start B now scope rq =
     (if lq_cursor rq = [] then Inr (now, [])
      else case decode_cursor (bk_codec B) (lq_cursor rq) scope (lq_pool rq) (lq_limit rq) of
          Inl e \<Rightarrow> Inl e | Inr p \<Rightarrow> Inr (cp_as_of p, cp_continue p))"

definition list_leases ::
  "'k backend \<Rightarrow> time \<Rightarrow> bytes option \<Rightarrow> lease_scope \<Rightarrow> list_request \<Rightarrow> 'k bstate \<Rightarrow> (lease_error + lease_page) \<times> 'k bstate" where
  "list_leases B now nonce scope rq s =
     (if lq_limit rq < 1 \<or> lq_limit rq > max_list_limit then (Inl invalid_request, s)
      else if lq_pool rq \<noteq> [] \<and> bk_pools B (lq_pool rq) = None then (Inl (LeaseError 400 ''UNKNOWN_POOL''), s)
      else case page_start B now scope rq of Inl e \<Rightarrow> (Inl e, s)
        | Inr (as_of, continuation) \<Rightarrow>
          bind_st (call (\<lambda>e. if continuation \<noteq> [] \<and> e = Kube_expired then LeaseError 410 ''CURSOR_EXPIRED'' else Internal)
              (kb_list (bk_kube B) (scope_selector B scope (lq_pool rq)) (lq_limit rq) continuation) s)
            (\<lambda>(items, next) s. case page_records B as_of items of Inl e \<Rightarrow> (Inl e, s)
              | Inr rs \<Rightarrow>
                if next = [] then (Inr \<lparr>page_leases = rs, page_next_cursor = None\<rparr>, s)
                else case encode_cursor (bk_codec B) nonce scope (lq_pool rq) (lq_limit rq) as_of next of
                    Inl e \<Rightarrow> (Inl e, s) | Inr v \<Rightarrow> (Inr \<lparr>page_leases = rs, page_next_cursor = Some v\<rparr>, s)))"

section \<open>Get, release, delete\<close>

definition get_lease :: "'k backend \<Rightarrow> time \<Rightarrow> bool \<Rightarrow> lease_scope \<Rightarrow> string \<Rightarrow> 'k bstate \<Rightarrow> (lease_error + lease_record) \<times> 'k bstate" where
  "get_lease B now waited scope lid s =
     bind_st (require_claim B scope lid s) (\<lambda>c s. case record_from_claim B c of Inl e \<Rightarrow> (Inl e, s)
       | Inr r \<Rightarrow> if \<not> now < lease_expires_at r
           then (Inr (r\<lparr>lease_status := Expired\<rparr>), snd (stop_lease_and_delete B lid waited s))
           else (Inr r, s))"

definition release_lease :: "'k backend \<Rightarrow> time \<Rightarrow> bool \<Rightarrow> lease_scope \<Rightarrow> string \<Rightarrow> 'k bstate \<Rightarrow> (lease_error + lease_record) \<times> 'k bstate" where
  "release_lease B now waited scope lid s =
     bind_st (require_claim B scope lid s) (\<lambda>c s. case record_from_claim B c of Inl e \<Rightarrow> (Inl e, s)
       | Inr r \<Rightarrow>
         let r' = r\<lparr>lease_status := (if \<not> now < lease_expires_at r then Expired else Released)\<rparr> in
         bind_st (stop_and_wait lid waited s) (\<lambda>_ s. bind_st (delete_claim B lid s) (\<lambda>_ s. (Inr r', s))))"

definition delete_lease :: "'k backend \<Rightarrow> bool \<Rightarrow> lease_scope \<Rightarrow> string \<Rightarrow> 'k bstate \<Rightarrow> (lease_error + unit) \<times> 'k bstate" where
  "delete_lease B waited scope lid s =
     bind_st (require_claim B scope lid s) (\<lambda>_ s. bind_st (stop_and_wait lid waited s) (\<lambda>_ s. delete_claim B lid s))"

section \<open>Recovery and the expiry sweep\<close>

record active_lease =
  al_record :: lease_record
  al_scope_hash :: string
  al_consumer_hash :: string

fun active_loop :: "'k backend \<Rightarrow> (nat \<Rightarrow> time) \<Rightarrow> nat \<Rightarrow> claim list \<Rightarrow> lease_error + active_lease list" where
  "active_loop B clock i [] = Inr []"
| "active_loop B clock i (c # cs) =
     (if cl_deleting c then active_loop B clock i cs
      else case record_from_claim B c of Inl e \<Rightarrow> Inl e
        | Inr r \<Rightarrow> (case active_loop B clock (Suc i) cs of Inl e \<Rightarrow> Inl e
            | Inr as \<Rightarrow> Inr (if lease_expires_at r > clock i
                then \<lparr>al_record = r, al_scope_hash = str_of (cl_labels c) scope_label,
                       al_consumer_hash = str_of (cl_labels c) consumer_label\<rparr> # as else as)))"

definition list_active_leases :: "'k backend \<Rightarrow> (nat \<Rightarrow> time) \<Rightarrow> 'k bstate \<Rightarrow> (lease_error + active_lease list) \<times> 'k bstate" where
  "list_active_leases B clock s =
     bind_st (call internal (kb_list (bk_kube B) [(managed_label, ''true'')] 0 []) s)
       (\<lambda>(items, _) s. (active_loop B clock 0 items, s))"

definition recover :: "'k backend \<Rightarrow> (nat \<Rightarrow> time) \<Rightarrow> 'k bstate \<Rightarrow> (lease_error + active_lease list) \<times> 'k bstate" where
  "recover B clock s = list_active_leases B clock s"

fun sweep_loop :: "'k backend \<Rightarrow> (nat \<Rightarrow> time) \<Rightarrow> (nat \<Rightarrow> bool) \<Rightarrow> nat \<Rightarrow> claim list \<Rightarrow> 'k bstate \<Rightarrow> (lease_error + unit) \<times> 'k bstate" where
  "sweep_loop B clock waited i [] s = (Inr (), s)"
| "sweep_loop B clock waited i (c # cs) s =
     (if cl_deleting c then sweep_loop B clock waited i cs s
      else case record_from_claim B c of Inl e \<Rightarrow> (Inl e, s)
        | Inr r \<Rightarrow> if lease_expires_at r \<le> clock i
            then bind_st (stop_and_wait (lease_id r) (waited i) s) (\<lambda>_ s. bind_st (delete_claim B (lease_id r) s)
              (\<lambda>_ s. sweep_loop B clock waited (Suc i) cs s))
            else sweep_loop B clock waited (Suc i) cs s)"

definition sweep_expired :: "'k backend \<Rightarrow> (nat \<Rightarrow> time) \<Rightarrow> (nat \<Rightarrow> bool) \<Rightarrow> 'k bstate \<Rightarrow> (lease_error + unit) \<times> 'k bstate" where
  "sweep_expired B clock waited s =
     bind_st (call internal (kb_list (bk_kube B) [(managed_label, ''true'')] 0 []) s)
       (\<lambda>(items, _) s. sweep_loop B clock waited 0 items s)"

section \<open>Readiness\<close>

text \<open>\<open>order\<close> is the order in which the map of pools is iterated.\<close>

fun ready_pools :: "'k backend \<Rightarrow> pool list \<Rightarrow> 'k bstate \<Rightarrow> (lease_error + unit) \<times> 'k bstate" where
  "ready_pools B [] s = (Inr (), s)"
| "ready_pools B (pl # pls) s =
     bind_st (call internal (kb_warm_pool (bk_kube B) (pl_warm_pool pl)) s) (\<lambda>w s.
       case (wp_ready w, wp_replicas w) of
         (Some ready, Some desired) \<Rightarrow>
           if desired < 1 \<or> ready < desired then (Inl Internal, s) else ready_pools B pls s
       | _ \<Rightarrow> (Inl Internal, s))"

definition backend_ready :: "'k backend \<Rightarrow> pool list \<Rightarrow> 'k bstate \<Rightarrow> (lease_error + unit) \<times> 'k bstate" where
  "backend_ready B order s =
     bind_st (call internal (kb_list (bk_kube B) [] 1 []) s) (\<lambda>_ s.
       bind_st (call internal (kb_sandboxes (bk_kube B)) s) (\<lambda>_ s. ready_pools B order s))"

section \<open>Commands and files\<close>

definition target_for_claim :: "'k backend \<Rightarrow> claim \<Rightarrow> string \<Rightarrow> 'k bstate \<Rightarrow> (lease_error + pod_target) \<times> 'k bstate" where
  "target_for_claim B c pool_name s =
     (case bk_pools B pool_name of None \<Rightarrow> (Inl (LeaseError 500 ''POOL_CONFIGURATION_MISSING''), s)
      | Some pl \<Rightarrow>
        if cl_sandbox c = [] then (Inl (LeaseError 503 ''SANDBOX_NOT_READY''), s)
        else bind_st (call (\<lambda>e. if e = Kube_not_found then LeaseError 503 ''SANDBOX_NOT_READY'' else Internal)
            (kb_sandbox (bk_kube B) (cl_sandbox c)) s) (\<lambda>a s.
          let pod_name = (if str_of a pod_annotation = [] then cl_sandbox c else str_of a pod_annotation) in
          bind_st (call internal (kb_pod (bk_kube B) pod_name) s) (\<lambda>p s.
            if container_of pl p = [] then (Inl container_not_found, s)
            else (Inr \<lparr>target_pod = pod_name, target_container = container_of pl p\<rparr>, s))))"

definition lease_not_active :: lease_error where
  "lease_not_active = LeaseError 409 ''LEASE_NOT_ACTIVE''"

definition require_active_target ::
  "'k backend \<Rightarrow> time \<Rightarrow> bool \<Rightarrow> lease_scope \<Rightarrow> string \<Rightarrow> 'k bstate \<Rightarrow> (lease_error + pod_target) \<times> 'k bstate" where
  "require_active_target B now waited scope lid s =
     bind_st (require_claim B scope lid s) (\<lambda>c s. case record_from_claim B c of Inl e \<Rightarrow> (Inl e, s)
       | Inr r \<Rightarrow> if lease_expires_at r \<le> now
           then (Inl lease_not_active, snd (stop_lease_and_delete B lid waited s))
           else target_for_claim B c (lease_pool r) s)"

definition exec_lease ::
  "'k backend \<Rightarrow> time \<Rightarrow> bool \<Rightarrow> lease_scope \<Rightarrow> string \<Rightarrow> exec_request \<Rightarrow> 'k bstate \<Rightarrow> (lease_error + exec_result) \<times> 'k bstate" where
  "exec_lease B now waited scope lid rq s =
     bind_st (require_active_target B now waited scope lid s) (\<lambda>target s.
       (case normalize_workspace_path (xq_cwd rq) of Inl e \<Rightarrow> Inl e
        | Inr cwd \<Rightarrow> (case shell_command cwd (xq_env rq) (xq_command rq) of Inl e \<Rightarrow> Inl e
            | Inr command \<Rightarrow> run_command (bk_runner B) target [''sh'', ''-lc'', command] [] (xq_timeout_seconds rq)), s))"

definition base64_name :: string where "base64_name = ''base64''"

definition read_shell :: "string \<Rightarrow> string \<Rightarrow> string" where
  "read_shell path encoding = (if encoding = base64_name
     then ''base64 < '' @ shell_quote path @ '' | tr -d '' @ [CHR 0x27, CHR 0x5C, CHR ''n'', CHR 0x27]
     else ''cat -- '' @ shell_quote path)"

text \<open>The result of reading a file: its content and the encoding; the path is the request's.\<close>

definition read_lease_file ::
  "'k backend \<Rightarrow> time \<Rightarrow> bool \<Rightarrow> lease_scope \<Rightarrow> string \<Rightarrow> string \<Rightarrow> string \<Rightarrow> 'k bstate \<Rightarrow> (lease_error + bytes \<times> string) \<times> 'k bstate" where
  "read_lease_file B now waited scope lid requested encoding s =
     bind_st (require_active_target B now waited scope lid s) (\<lambda>target s.
       (case normalize_workspace_path requested of Inl e \<Rightarrow> Inl e
        | Inr path \<Rightarrow>
          let enc = (if encoding = [] then ''utf8'' else encoding) in
          (case run_command (bk_runner B) target [''sh'', ''-lc'', read_shell path enc] [] None of Inl e \<Rightarrow> Inl e
           | Inr r \<Rightarrow> if xr_code r \<noteq> 0 then Inl (LeaseError 502 ''FILE_READ_FAILED'') else Inr (xr_stdout r, enc)), s))"

definition write_shell :: "string \<Rightarrow> string" where
  "write_shell path = ''mkdir -p -- '' @ shell_quote (path_dir path) @ '' && base64 -d > '' @ shell_quote path"

definition write_lease_file ::
  "'k backend \<Rightarrow> time \<Rightarrow> bool \<Rightarrow> lease_scope \<Rightarrow> string \<Rightarrow> string \<Rightarrow> bytes \<Rightarrow> string \<Rightarrow> 'k bstate \<Rightarrow> (lease_error + unit) \<times> 'k bstate" where
  "write_lease_file B now waited scope lid requested content encoding s =
     bind_st (require_active_target B now waited scope lid s) (\<lambda>target s.
       (case normalize_workspace_path requested of Inl e \<Rightarrow> Inl e
        | Inr path \<Rightarrow>
          let input = (if encoding \<noteq> base64_name then b64_encode std_encoding content else content) in
          (case run_command (bk_runner B) target [''sh'', ''-lc'', write_shell path] input None of Inl e \<Rightarrow> Inl e
           | Inr r \<Rightarrow> if xr_code r \<noteq> 0 then Inl (LeaseError 502 ''FILE_WRITE_FAILED'') else Inr ()), s))"

section \<open>Starting a transfer\<close>

definition prepare_transfer ::
  "'k backend \<Rightarrow> time \<Rightarrow> bool \<Rightarrow> lease_scope \<Rightarrow> string \<Rightarrow> string \<Rightarrow> 'k bstate \<Rightarrow> (lease_error + pod_target \<times> time \<times> string) \<times> 'k bstate" where
  "prepare_transfer B now waited scope lid requested s =
     bind_st (require_claim B scope lid s) (\<lambda>c s. case record_from_claim B c of Inl e \<Rightarrow> (Inl e, s)
       | Inr r \<Rightarrow> if lease_expires_at r \<le> now
           then (Inl lease_not_active, snd (stop_lease_and_delete B lid waited s))
           else (case normalize_workspace_path requested of
               Inl _ \<Rightarrow> (Inl (LeaseError 400 ''INVALID_PATH''), s)
             | Inr path \<Rightarrow> if path = workspace_path then (Inl (LeaseError 400 ''INVALID_PATH''), s)
                 else bind_st (target_for_claim B c (lease_pool r) s) (\<lambda>t s. (Inr (t, lease_expires_at r, path), s))))"

text \<open>
  The helper's run is a function of its target and its command line: for a download its
  output and how the stream ends, for an upload what the run leaves behind. \<open>started\<close> is the
  time at which the transfer manager admits the transfer.
\<close>

definition open_file ::
  "'k backend \<Rightarrow> time \<Rightarrow> time \<Rightarrow> bool \<Rightarrow> (pod_target \<Rightarrow> string list \<Rightarrow> bytes \<times> io_error) \<Rightarrow> bool \<Rightarrow> lease_scope \<Rightarrow> string \<Rightarrow> string
    \<Rightarrow> 'k bstate \<Rightarrow> (lease_error + download) \<times> 'k bstate" where
  "open_file B now started waited helper late scope lid requested s =
     bind_st (prepare_transfer B now waited scope lid requested s) (\<lambda>(target, expires, path) s.
       case helper target [''/usr/local/bin/agent-sandbox-transfer'', ''download'', path] of (out, ending) \<Rightarrow>
         (case open_download (bs_transfers s) started lid expires out ending late of (r, m) \<Rightarrow> (r, s\<lparr>bs_transfers := m\<rparr>)))"

definition write_file_stream ::
  "'k backend \<Rightarrow> time \<Rightarrow> time \<Rightarrow> bool \<Rightarrow> (pod_target \<Rightarrow> string list \<Rightarrow> upload_run) \<Rightarrow> lease_scope \<Rightarrow> string \<Rightarrow> stream_write_request
    \<Rightarrow> 'k bstate \<Rightarrow> (lease_error + unit) \<times> 'k bstate" where
  "write_file_stream B now started waited helper scope lid rq s =
     (if sw_size rq < 0 \<or> sw_size rq > max_file_transfer_bytes then (Inl transfer_too_large, s)
      else bind_st (prepare_transfer B now waited scope lid (sw_path rq) s) (\<lambda>(target, expires, path) s.
        case write_stream (bs_transfers s) started lid expires rq (helper target (upload_command path rq)) of
          (r, m) \<Rightarrow> (r, s\<lparr>bs_transfers := m\<rparr>)))"

definition close_backend :: "bool \<Rightarrow> 'k bstate \<Rightarrow> (lease_error + unit) \<times> 'k bstate" where
  "close_backend waited s =
     (let m = close_transfers (bs_transfers s) in
      if close_waited m \<or> waited then (Inr (), s\<lparr>bs_transfers := finish_all (\<Union> (ran (tm_active m))) m\<rparr>)
      else (Inl aborted, s\<lparr>bs_transfers := m\<rparr>))"

end
