(* ===== verification/Kube_Laws.thy ===== *)
theory Kube_Laws
  imports Kube_Ops
begin

text \<open>
  What the backend relies on in the API server, as laws about a view of the stored claims
  without their status, and the effect of every building block of the operations on the
  claims that are alive in that view.
\<close>

section \<open>The API server's laws\<close>

definition static :: "claim \<Rightarrow> claim" where
  "static c = c\<lparr>cl_sandbox := []\<rparr>"

definition matches :: "(string \<times> string) list \<Rightarrow> claim \<Rightarrow> bool" where
  "matches sel c = list_all (\<lambda>(k, v). cl_labels c k = Some v) sel"

definition live_of :: "(string \<rightharpoonup> claim) \<Rightarrow> string \<rightharpoonup> claim" where
  "live_of m n = (case m n of None \<Rightarrow> None | Some c \<Rightarrow> if cl_deleting c then None else Some c)"

definition deleted :: "(string \<rightharpoonup> claim) \<Rightarrow> string \<Rightarrow> (string \<rightharpoonup> claim) \<Rightarrow> bool" where
  "deleted m n m' \<longleftrightarrow> m' = m(n := None) \<or> (\<exists>c. m n = Some c \<and> m' = m(n \<mapsto> c\<lparr>cl_deleting := True\<rparr>))"

text \<open>
  A get returns what is stored, and not-found only for what is not; a list returns stored,
  matching claims, each once, at most as many as the limit, and all of them when there is no
  limit; a create adds the claim, or fails and may or may not have added it; a delete removes
  the claim or marks it as being deleted, or fails and may or may not have done so; nothing
  else changes the view.
\<close>

definition get_law :: "'k kube \<Rightarrow> ('k \<Rightarrow> string \<rightharpoonup> claim) \<Rightarrow> bool" where
  "get_law K view \<longleftrightarrow> (\<forall>n k r k'. kb_get K n k = (r, k') \<longrightarrow> view k' = view k
     \<and> (\<forall>c. r = Inr c \<longrightarrow> cl_name c = n \<and> view k n = Some (static c)) \<and> (r = Inl Kube_not_found \<longrightarrow> view k n = None))"

definition list_law :: "'k kube \<Rightarrow> ('k \<Rightarrow> string \<rightharpoonup> claim) \<Rightarrow> bool" where
  "list_law K view \<longleftrightarrow> (\<forall>sel lim cont k r k'. kb_list K sel lim cont k = (r, k') \<longrightarrow> view k' = view k
     \<and> (\<forall>items next. r = Inr (items, next) \<longrightarrow>
         (\<forall>c \<in> set items. view k (cl_name c) = Some (static c) \<and> matches sel c) \<and> distinct (map cl_name items)
         \<and> (0 < lim \<longrightarrow> int (length items) \<le> lim)
         \<and> (lim = 0 \<and> cont = [] \<longrightarrow> (\<forall>n c. view k n = Some c \<and> matches sel c \<longrightarrow> n \<in> cl_name ` set items))))"

definition create_law :: "'k kube \<Rightarrow> ('k \<Rightarrow> string \<rightharpoonup> claim) \<Rightarrow> bool" where
  "create_law K view \<longleftrightarrow> (\<forall>c k r k'. kb_create K c k = (r, k') \<longrightarrow>
     (case r of Inr _ \<Rightarrow> view k (cl_name c) = None \<and> view k' = (view k)(cl_name c \<mapsto> static c)
      | Inl _ \<Rightarrow> view k' = view k \<or> view k (cl_name c) = None \<and> view k' = (view k)(cl_name c \<mapsto> static c)))"

definition delete_law :: "'k kube \<Rightarrow> ('k \<Rightarrow> string \<rightharpoonup> claim) \<Rightarrow> bool" where
  "delete_law K view \<longleftrightarrow> (\<forall>n k r k'. kb_delete K n k = (r, k') \<longrightarrow>
     (case r of Inr _ \<Rightarrow> deleted (view k) n (view k')
      | Inl e \<Rightarrow> if e = Kube_not_found then view k n = None \<and> view k' = view k
          else view k' = view k \<or> deleted (view k) n (view k')))"

definition frame_law :: "'k kube \<Rightarrow> ('k \<Rightarrow> string \<rightharpoonup> claim) \<Rightarrow> bool" where
  "frame_law K view \<longleftrightarrow> (\<forall>k n. view (snd (kb_sandbox K n k)) = view k \<and> view (snd (kb_sandboxes K k)) = view k
     \<and> view (snd (kb_warm_pool K n k)) = view k \<and> view (snd (kb_pod K n k)) = view k \<and> view (kb_wait K k) = view k)"

definition kube_laws :: "'k kube \<Rightarrow> ('k \<Rightarrow> string \<rightharpoonup> claim) \<Rightarrow> bool" where
  "kube_laws K view \<longleftrightarrow> get_law K view \<and> list_law K view \<and> create_law K view \<and> delete_law K view \<and> frame_law K view"

text \<open>The leases of a state of the backend: the claims that are alive.\<close>

definition live_claims :: "('k \<Rightarrow> string \<rightharpoonup> claim) \<Rightarrow> 'k bstate \<Rightarrow> string \<rightharpoonup> claim" where
  "live_claims view s = live_of (view (bs_cluster s))"

lemma live_deleted: "deleted m n m' \<Longrightarrow> live_of m' = (live_of m)(n := None)"
  by (rule ext) (auto simp: deleted_def live_of_def split: option.splits if_split_asm)

lemma live_created: "\<not> cl_deleting c \<Longrightarrow> live_of (m(n \<mapsto> c)) = (live_of m)(n \<mapsto> c)"
  by (rule ext) (auto simp: live_of_def split: option.splits if_split_asm)

lemma static_sel [simp]:
  "cl_name (static c) = cl_name c" "cl_labels (static c) = cl_labels c" "cl_annotations (static c) = cl_annotations c"
  "cl_deleting (static c) = cl_deleting c"
  by (simp_all add: static_def)

lemma record_static [simp]: "record_from_claim B (static c) = record_from_claim B c"
  by (auto simp: record_from_claim_def Let_def split: option.splits)

text \<open>A claim of a scope, told by its labels.\<close>

definition belongs :: "'k backend \<Rightarrow> lease_scope \<Rightarrow> claim \<Rightarrow> bool" where
  "belongs B scope c \<longleftrightarrow> str_of (cl_labels c) managed_label = ''true''
     \<and> str_of (cl_labels c) scope_label = scope_hash (bk_identity B) scope"

lemma belongs_static [simp]: "belongs B scope (static c) = belongs B scope c"
  by (simp add: belongs_def)

lemma owned_iff: "owned B scope c \<longleftrightarrow> \<not> cl_deleting c \<and> belongs B scope c"
  by (simp add: owned_def belongs_def)

lemma matches_static [simp]: "matches sel (static c) = matches sel c"
  by (simp add: matches_def)

section \<open>Effects of the building blocks\<close>

lemma bstate_upd [simp]:
  "live_claims view (s\<lparr>bs_transfers := m\<rparr>) = live_claims view s"
  by (simp add: live_claims_def)

lemma require_claim_effect:
  assumes "kube_laws (bk_kube B) view" and "require_claim B scope lid s = (r, s')"
  shows "live_claims view s' = live_claims view s" "bs_transfers s' = bs_transfers s"
    "r = Inr c \<Longrightarrow> cl_name c = lid \<and> live_claims view s lid = Some (static c) \<and> belongs B scope c"
    "r = Inl e \<Longrightarrow> e = not_found \<or> e = Internal"
    "r = Inl not_found \<Longrightarrow> live_claims view s lid = None \<or> (\<exists>c. live_claims view s lid = Some c \<and> \<not> belongs B scope c)"
proof -
  obtain g k where g: "kb_get (bk_kube B) lid (bs_cluster s) = (g, k)" by fastforce
  have law: "view k = view (bs_cluster s)" "\<And>c. g = Inr c \<Longrightarrow> cl_name c = lid \<and> view (bs_cluster s) lid = Some (static c)"
    "g = Inl Kube_not_found \<Longrightarrow> view (bs_cluster s) lid = None"
    using assms(1) g by (auto simp: kube_laws_def get_law_def)
  have r: "require_claim B scope lid s = (case g of
      Inl e \<Rightarrow> (Inl (if e = Kube_not_found then not_found else Internal), s\<lparr>bs_cluster := k\<rparr>)
    | Inr c \<Rightarrow> (if owned B scope c then Inr c else Inl not_found, s\<lparr>bs_cluster := k\<rparr>))"
    by (simp add: require_claim_def call_def g split: sum.splits)
  show "live_claims view s' = live_claims view s" "bs_transfers s' = bs_transfers s"
    using assms(2) law(1) by (auto simp: r live_claims_def split: sum.splits)
  show "r = Inr c \<Longrightarrow> cl_name c = lid \<and> live_claims view s lid = Some (static c) \<and> belongs B scope c"
    using assms(2) law(2) by (auto simp: r live_claims_def live_of_def owned_iff split: sum.splits if_split_asm)
  show "r = Inl e \<Longrightarrow> e = not_found \<or> e = Internal"
    using assms(2) by (auto simp: r split: sum.splits if_split_asm)
  assume nf: "r = Inl not_found"
  show "live_claims view s lid = None \<or> (\<exists>c. live_claims view s lid = Some c \<and> \<not> belongs B scope c)"
  proof (cases g)
    case (Inl e)
    have "fst (require_claim B scope lid s) = Inl not_found" using assms(2) nf by simp
    then have "e = Kube_not_found" by (simp add: r Inl not_found_def split: if_split_asm)
    then show ?thesis using law(3) Inl by (simp add: live_claims_def live_of_def)
  next
    case (Inr c)
    have "fst (require_claim B scope lid s) = Inl not_found" using assms(2) nf by simp
    then have "\<not> owned B scope c" by (simp add: r Inr split: if_split_asm)
    moreover have "live_claims view s lid = (if cl_deleting c then None else Some (static c))"
      using law(2) [OF Inr] by (simp add: live_claims_def live_of_def)
    ultimately show ?thesis by (auto simp: owned_iff)
  qed
qed

lemma delete_claim_effect:
  assumes "kube_laws (bk_kube B) view" and "delete_claim B n s = (r, s')"
  shows "bs_transfers s' = bs_transfers s" "r = Inr () \<Longrightarrow> live_claims view s' = (live_claims view s)(n := None)"
    "r = Inl e \<Longrightarrow> live_claims view s' = live_claims view s \<or> live_claims view s' = (live_claims view s)(n := None)"
proof -
  obtain g k where g: "kb_delete (bk_kube B) n (bs_cluster s) = (g, k)" by fastforce
  have law: "case g of Inr _ \<Rightarrow> deleted (view (bs_cluster s)) n (view k)
      | Inl e \<Rightarrow> if e = Kube_not_found then view (bs_cluster s) n = None \<and> view k = view (bs_cluster s)
          else view k = view (bs_cluster s) \<or> deleted (view (bs_cluster s)) n (view k)"
    using assms(1) g by (auto simp: kube_laws_def delete_law_def)
  have s': "s' = s\<lparr>bs_cluster := k\<rparr>" using assms(2) g by (simp add: delete_claim_def)
  then show "bs_transfers s' = bs_transfers s" by simp
  have none: "view (bs_cluster s) n = None \<Longrightarrow> live_claims view s = (live_claims view s)(n := None)"
    by (rule ext) (simp add: live_claims_def live_of_def)
  show "r = Inr () \<Longrightarrow> live_claims view s' = (live_claims view s)(n := None)"
    using assms(2) g law none
    by (auto simp: delete_claim_def s' live_claims_def split: sum.splits if_split_asm dest: live_deleted)
  show "r = Inl e \<Longrightarrow> live_claims view s' = live_claims view s \<or> live_claims view s' = (live_claims view s)(n := None)"
    using assms(2) g law
    by (auto simp: delete_claim_def s' live_claims_def split: sum.splits if_split_asm dest: live_deleted)
qed

lemma stop_and_wait_effect:
  assumes "stop_and_wait lid waited s = (r, s')"
  shows "live_claims view s' = live_claims view s" "bs_cluster s' = bs_cluster s" "r = Inl e \<Longrightarrow> e = aborted"
    "bs_transfers s' = (if r = Inr () then finish_all (fst (stop_lease lid (bs_transfers s))) (snd (stop_lease lid (bs_transfers s)))
       else snd (stop_lease lid (bs_transfers s)))"
  using assms by (auto simp: stop_and_wait_def live_claims_def split: prod.splits if_split_asm)

text \<open>
  Two states with the same live claims and the same transfers. An operation that is built from
  calls that only read leaves the state the same in this sense.
\<close>

definition same_state :: "('k \<Rightarrow> string \<rightharpoonup> claim) \<Rightarrow> 'k bstate \<Rightarrow> 'k bstate \<Rightarrow> bool" where
  "same_state view s s' \<longleftrightarrow> live_claims view s' = live_claims view s \<and> bs_transfers s' = bs_transfers s"

lemma same_state_refl [simp]: "same_state view s s"
  by (simp add: same_state_def)

lemma same_state_trans: "same_state view s s' \<Longrightarrow> same_state view s' s'' \<Longrightarrow> same_state view s s''"
  by (simp add: same_state_def)

lemma bind_same:
  "same_state view s (snd r) \<Longrightarrow> (\<And>v s1. r = (Inr v, s1) \<Longrightarrow> same_state view s s1 \<Longrightarrow> same_state view s (snd (f v s1)))
    \<Longrightarrow> same_state view s (snd (bind_st r f))"
  by (cases r; cases "fst r") auto

lemma call_same:
  "(\<And>k. view (snd (op k)) = view k) \<Longrightarrow> same_state view s0 s \<Longrightarrow> same_state view s0 (snd (call f op s))"
  by (auto simp: call_def same_state_def live_claims_def split: prod.splits) (metis snd_conv)+

lemma frame_laws:
  assumes "kube_laws K view"
  shows "view (snd (kb_get K n k)) = view k" "view (snd (kb_list K sel lim cont k)) = view k"
    "view (snd (kb_sandbox K n k)) = view k" "view (snd (kb_sandboxes K k)) = view k"
    "view (snd (kb_warm_pool K n k)) = view k" "view (snd (kb_pod K n k)) = view k" "view (kb_wait K k) = view k"
proof -
  show "view (snd (kb_get K n k)) = view k"
    using assms by (cases "kb_get K n k") (auto simp: kube_laws_def get_law_def)
  show "view (snd (kb_list K sel lim cont k)) = view k"
    using assms unfolding kube_laws_def list_law_def by (metis prod.collapse)
qed (use assms in \<open>auto simp: kube_laws_def frame_law_def\<close>)

lemma target_for_claim_same:
  assumes "kube_laws (bk_kube B) view"
  shows "same_state view s (snd (target_for_claim B c pl s))"
  by (auto simp: target_for_claim_def Let_def split: option.splits
      intro!: bind_same call_same frame_laws [OF assms])

lemma verify_runtime_same:
  assumes "kube_laws (bk_kube B) view"
  shows "same_state view s (snd (verify_runtime B c pl s))"
  by (auto simp: verify_runtime_def Let_def intro!: bind_same call_same frame_laws [OF assms])

lemma ready_pools_same:
  assumes "kube_laws (bk_kube B) view"
  shows "same_state view s0 s \<Longrightarrow> same_state view s0 (snd (ready_pools B pls s))"
proof (induction pls arbitrary: s)
  case (Cons pl pls)
  show ?case
    unfolding ready_pools.simps
    by (rule bind_same, rule call_same, rule frame_laws(5) [OF assms], rule Cons.prems)
      (simp add: Cons.IH split: option.split)
qed simp

lemma wait_for_ready_effect:
  assumes "kube_laws (bk_kube B) view"
  shows "same_state view s (snd (wait_for_ready B n polls s))"
    "fst (wait_for_ready B n polls s) = Inr c \<Longrightarrow> cl_name c = n \<and> cl_sandbox c \<noteq> []"
proof -
  have "same_state view s (snd (wait_for_ready B n polls s))
    \<and> (fst (wait_for_ready B n polls s) = Inr c \<longrightarrow> cl_name c = n \<and> cl_sandbox c \<noteq> [])"
  proof (induction polls arbitrary: s)
    case Nil
    obtain g k where g: "kb_get (bk_kube B) n (bs_cluster s) = (g, k)" by fastforce
    have "view k = view (bs_cluster s)" "\<And>c. g = Inr c \<Longrightarrow> cl_name c = n"
      using assms g by (auto simp: kube_laws_def get_law_def)
    then show ?case
      by (auto simp: wait_for_ready.simps [of B n "[]"] g same_state_def live_claims_def Let_def split: sum.splits)
  next
    case (Cons p polls)
    obtain g k where g: "kb_get (bk_kube B) n (bs_cluster s) = (g, k)" by fastforce
    have v: "view k = view (bs_cluster s)" "\<And>c. g = Inr c \<Longrightarrow> cl_name c = n"
      using assms g by (auto simp: kube_laws_def get_law_def)
    have "same_state view s (s\<lparr>bs_cluster := kb_wait (bk_kube B) k\<rparr>)"
      using v frame_laws(7) [OF assms, of k] by (simp add: same_state_def live_claims_def)
    with Cons.IH [of "s\<lparr>bs_cluster := kb_wait (bk_kube B) k\<rparr>"]
    have IH: "same_state view s (snd (wait_for_ready B n polls (s\<lparr>bs_cluster := kb_wait (bk_kube B) k\<rparr>)))
      \<and> (fst (wait_for_ready B n polls (s\<lparr>bs_cluster := kb_wait (bk_kube B) k\<rparr>)) = Inr c \<longrightarrow> cl_name c = n \<and> cl_sandbox c \<noteq> [])"
      using same_state_trans by blast
    show ?case
      using v IH
      by (auto simp: wait_for_ready.simps [of B n "p # polls"] g same_state_def live_claims_def Let_def split: sum.splits)
  qed
  then show "same_state view s (snd (wait_for_ready B n polls s))"
    "fst (wait_for_ready B n polls s) = Inr c \<Longrightarrow> cl_name c = n \<and> cl_sandbox c \<noteq> []" by auto
qed

end
