(* ===== verification/Kube_Sample.thy ===== *)
theory Kube_Sample
  imports Kube_Laws
begin

text \<open>
  A small API server that satisfies the laws: the stored claims as a list, every sandbox ready
  as soon as its claim is created. It shows that the laws can hold together, and it is what
  the concrete instances of the properties run on.
\<close>

type_synonym store = "claim list"

definition store_view :: "store \<Rightarrow> string \<rightharpoonup> claim" where
  "store_view k = map_of (map (\<lambda>c. (cl_name c, static c)) k)"

definition store_find :: "string \<Rightarrow> store \<Rightarrow> claim option" where
  "store_find n k = find (\<lambda>c. cl_name c = n) k"

definition store_kube :: "store kube" where
  "store_kube =
     \<lparr>kb_create = (\<lambda>c k. if store_find (cl_name c) k \<noteq> None then (Inl Kube_other, k)
                      else (Inr (), c\<lparr>cl_sandbox := ''sbx''\<rparr> # k)),
      kb_get = (\<lambda>n k. (case store_find n k of None \<Rightarrow> Inl Kube_not_found | Some c \<Rightarrow> Inr c, k)),
      kb_list = (\<lambda>sel lim cont k. let all = filter (matches sel) k in
          if cont \<noteq> [] then (Inl Kube_expired, k)
          else if \<not> distinct (map cl_name k) then (Inl Kube_other, k)
          else (Inr (if 0 < lim then take (nat lim) all else all,
             if 0 < lim \<and> lim < int (length all) then ''more'' else []), k)),
      kb_delete = (\<lambda>n k. if store_find n k = None then (Inl Kube_not_found, k) else (Inr (), filter (\<lambda>c. cl_name c \<noteq> n) k)),
      kb_sandbox = (\<lambda>n k. (Inr [pod_annotation \<mapsto> ''pod''], k)),
      kb_sandboxes = (\<lambda>k. (Inr (), k)),
      kb_warm_pool = (\<lambda>n k. (Inr \<lparr>wp_ready = Some 1, wp_replicas = Some 1\<rparr>, k)),
      kb_pod = (\<lambda>n k. (Inr \<lparr>pod_runtime_class = Some ''gvisor'', pod_containers = [''main'']\<rparr>, k)),
      kb_wait = (\<lambda>k. k)\<rparr>"

lemma static_sandbox [simp]: "static (c\<lparr>cl_sandbox := x\<rparr>) = static c"
  by (simp add: static_def)

lemma store_view_Cons: "store_view (c # k) = (store_view k)(cl_name c \<mapsto> static c)"
  by (simp add: store_view_def)

lemma store_find_view:
  "store_find n k = Some c \<Longrightarrow> cl_name c = n \<and> store_view k n = Some (static c)"
  "store_find n k = None \<longleftrightarrow> store_view k n = None"
  by (induction k) (auto simp: store_find_def store_view_def split: if_split_asm)

lemma store_view_filter: "store_view (filter (\<lambda>c. cl_name c \<noteq> n) k) = (store_view k)(n := None)"
  by (induction k) (auto simp: store_view_def)

lemma store_view_member:
  "distinct (map cl_name k) \<Longrightarrow> c \<in> set k \<Longrightarrow> store_view k (cl_name c) = Some (static c)"
proof (induction k)
  case (Cons d k)
  show ?case
  proof (cases "c = d")
    case False
    with Cons.prems have c: "c \<in> set k" "cl_name c \<in> cl_name ` set k" by auto
    moreover have "cl_name d \<notin> cl_name ` set k" using Cons.prems(1) by simp
    ultimately have "cl_name c \<noteq> cl_name d" by metis
    then show ?thesis using Cons.IH Cons.prems(1) c(1) by (simp add: store_view_Cons)
  qed (simp add: store_view_Cons)
qed simp

lemma store_view_in: "store_view k n = Some c \<Longrightarrow> \<exists>d \<in> set k. cl_name d = n \<and> static d = c"
  by (induction k) (auto simp: store_view_def split: if_split_asm)

lemma distinct_map_filter_take: "distinct (map f k) \<Longrightarrow> distinct (map f (take n (filter P k)))"
  by (simp add: distinct_map_filter take_map [symmetric])

lemma store_kube_laws: "kube_laws store_kube store_view"
  unfolding kube_laws_def
proof (intro conjI)
  show "get_law store_kube store_view"
    by (auto simp: get_law_def store_kube_def store_find_view split: option.splits dest: store_find_view(1))
  show "create_law store_kube store_view"
    by (auto simp: create_law_def store_kube_def store_find_view store_view_Cons split: if_split_asm)
  show "delete_law store_kube store_view"
    by (auto simp: delete_law_def store_kube_def store_find_view store_view_filter deleted_def split: if_split_asm)
  show "frame_law store_kube store_view"
    by (simp add: frame_law_def store_kube_def)
  show "list_law store_kube store_view"
    unfolding list_law_def
  proof (intro allI impI)
    fix sel lim cont k r k'
    assume l: "kb_list store_kube sel lim cont k = (r, k')"
    have k': "k' = k" using l by (auto simp: store_kube_def Let_def split: if_split_asm)
    have items: "(\<forall>c \<in> set items. store_view k (cl_name c) = Some (static c) \<and> matches sel c) \<and> distinct (map cl_name items)
         \<and> (0 < lim \<longrightarrow> int (length items) \<le> lim)
         \<and> (lim = 0 \<and> cont = [] \<longrightarrow> (\<forall>n c. store_view k n = Some c \<and> matches sel c \<longrightarrow> n \<in> cl_name ` set items))"
      if "r = Inr (items, nxt)" for items nxt
    proof -
      have d: "distinct (map cl_name k)" using l that by (auto simp: store_kube_def Let_def split: if_split_asm)
      have i: "items = (if 0 < lim then take (nat lim) (filter (matches sel) k) else filter (matches sel) k)"
        using l that by (auto simp: store_kube_def Let_def split: if_split_asm)
      have "set items \<subseteq> set (filter (matches sel) k)" by (auto simp: i dest: in_set_takeD split: if_split_asm)
      then have "\<forall>c \<in> set items. store_view k (cl_name c) = Some (static c) \<and> matches sel c"
        using store_view_member [OF d] by auto
      moreover have "distinct (map cl_name items)"
        using d by (simp add: i distinct_map_filter distinct_map_filter_take)
      moreover have "0 < lim \<longrightarrow> int (length items) \<le> lim" by (auto simp: i)
      moreover have "n \<in> cl_name ` set items" if "lim = 0" "store_view k n = Some c" "matches sel c" for n c
        using store_view_in [OF that(2)] that by (auto simp: i image_iff)
      ultimately show ?thesis by blast
    qed
    show "store_view k' = store_view k \<and> (\<forall>items next. r = Inr (items, next) \<longrightarrow>
         (\<forall>c \<in> set items. store_view k (cl_name c) = Some (static c) \<and> matches sel c) \<and> distinct (map cl_name items)
         \<and> (0 < lim \<longrightarrow> int (length items) \<le> lim)
         \<and> (lim = 0 \<and> cont = [] \<longrightarrow> (\<forall>n c. store_view k n = Some c \<and> matches sel c \<longrightarrow> n \<in> cl_name ` set items)))"
      using k' items by blast
  qed
qed

section \<open>A sample backend\<close>

text \<open>
  Its HMAC reverses the payload, its JSON joins the parts, it has a format for the two times
  of the sample lease, its AEAD puts a tag in front of the plaintext, and its cursors carry the
  continuation only, all else being that of the sample listing.
\<close>

definition sample_identity :: metadata_identity where
  "sample_identity = \<lparr>mi_secret = ''k'', mi_hmac = (\<lambda>_ x. rev x), mi_json = (\<lambda>ps. concat (map (\<lambda>p. p @ '';'') ps))\<rparr>"

definition alice :: lease_scope where "alice = \<lparr>consumer_id = ''c'', subject_id = ''alice''\<rparr>"

definition sample_codec :: list_cursor_codec where
  "sample_codec = \<lparr>cc_aead = \<lparr>nonce_size = 1, overhead = 1, seal = (\<lambda>n p d. CHR ''t'' # p), unseal = (\<lambda>n c d. Some (tl c))\<rparr>,
     cc_identity = sample_identity, cc_marshal = (\<lambda>p. cp_continue p),
     cc_unmarshal = (\<lambda>b. Some \<lparr>cp_version = list_cursor_version, cp_scope_digest = scope_hash sample_identity alice,
       cp_pool_digest = ''none'', cp_limit = 1, cp_as_of = 2000, cp_continue = b\<rparr>)\<rparr>"

definition sample_runner :: runner where
  "sample_runner = (\<lambda>_ _ _ _. \<lparr>out_chunks = [''ok''], err_chunks = [], run_end = RunOk, ctx_done = False\<rparr>)"

definition sample_pool :: pool where
  "sample_pool = \<lparr>pl_warm_pool = ''wp'', pl_runtime_class = ''gvisor'', pl_container = []\<rparr>"

definition sample_times :: time_format where
  "sample_times = \<lparr>tf_format = (\<lambda>t. if t = 1000 then ''created'' else if t = 60000001000 then ''expires'' else []),
     tf_parse = (\<lambda>v. if v = ''created'' then Some 1000 else if v = ''expires'' then Some 60000001000 else None)\<rparr>"

definition sample_backend :: "store backend" where
  "sample_backend = \<lparr>bk_identity = sample_identity, bk_pools = [''p'' \<mapsto> sample_pool], bk_default_ttl = 900, bk_max_ttl = 3600,
     bk_kube = store_kube, bk_runner = sample_runner, bk_codec = sample_codec,
     bk_times = sample_times\<rparr>"

definition mallory :: lease_scope where "mallory = \<lparr>consumer_id = ''c'', subject_id = ''mallory''\<rparr>"

definition sample_acquire_request :: acquire_request where
  "sample_acquire_request = \<lparr>aq_pool = ''p'', aq_ttl_seconds = Some 60, aq_idempotency_key = ''key''\<rparr>"

definition sample_record :: lease_record where
  "sample_record = fresh_record ''lease-61'' ''p'' 60 1000"

definition sample_claim :: claim where
  "sample_claim = build_claim sample_backend sample_record alice ''key'' sample_pool"

definition empty_state :: "store bstate" where
  "empty_state = \<lparr>bs_cluster = [], bs_transfers = new_transfer_manager 8 2 120\<rparr>"

definition leased_state :: "store bstate" where
  "leased_state = \<lparr>bs_cluster = [sample_claim\<lparr>cl_sandbox := ''sbx''\<rparr>], bs_transfers = new_transfer_manager 8 2 120\<rparr>"

lemma sample_backend_sel [simp]:
  "bk_identity sample_backend = sample_identity" "bk_kube sample_backend = store_kube" "bk_codec sample_backend = sample_codec"
  "bk_pools sample_backend = [''p'' \<mapsto> sample_pool]" "bk_max_ttl sample_backend = 3600"
  "bk_times sample_backend = sample_times"
  by (simp_all add: sample_backend_def)

lemma sample_laws: "kube_laws (bk_kube sample_backend) store_view"
  by (simp add: store_kube_laws)

lemma sample_hashes: "scope_hash sample_identity alice \<noteq> scope_hash sample_identity mallory"
  by code_simp

lemma sample_live: "live_claims store_view leased_state = [''lease-61'' \<mapsto> sample_claim]"
proof -
  have "cl_name sample_claim = ''lease-61''" "\<not> cl_deleting sample_claim" "static sample_claim = sample_claim"
    by (simp_all add: sample_claim_def build_claim_def sample_record_def fresh_record_def static_def Let_def)
  then show ?thesis
    by (auto simp: live_claims_def leased_state_def store_view_def live_of_def fun_eq_iff)
qed

lemma sample_foreign: "\<nexists>c. live_claims store_view leased_state ''lease-61'' = Some c \<and> belongs sample_backend mallory c"
  using sample_hashes
  by (simp add: sample_live belongs_def sample_claim_def build_claim_def str_of_def Let_def label_defs)

lemma sample_tm_inv_start: "bs_transfers leased_state = new_transfer_manager 8 2 120" "bs_transfers empty_state = new_transfer_manager 8 2 120"
  by (simp_all add: leased_state_def empty_state_def)

end
