(* ===== verification/Kube_Props.thy ===== *)
theory Kube_Props
  imports Kube_Sample File_Transfer_Props Pod_Exec_Props
begin

text \<open>
  The properties of the lease backend, under the laws of the API server: who may act on a
  lease and when, and what ends it.
\<close>

section \<open>Construction\<close>

text \<open>A backend that was built starts with a transfer manager in an initial state.\<close>

lemma new_backend_ok:
  "new_backend hmac json gcm marshal unmarshal K run fmt opt = Inr (B, m) \<Longrightarrow> tm_init m \<and> bk_kube B = K
     \<and> cc_identity (bk_codec B) = bk_identity B"
  by (auto simp: new_backend_def tm_init_def Let_def new_list_cursor_codec_def split: if_split_asm sum.splits option.splits)
    (smt (verit, ccfv_SIG))

section \<open>Access\<close>

text \<open>An operation that is denied: a refusal, and nothing changed.\<close>

definition denied :: "('k \<Rightarrow> string \<rightharpoonup> claim) \<Rightarrow> 'k bstate \<Rightarrow> (lease_error + 'a) \<times> 'k bstate \<Rightarrow> bool" where
  "denied view s r \<longleftrightarrow> same_state view s (snd r) \<and> (fst r = Inl not_found \<or> fst r = Inl Internal)"

text \<open>A lease that is active for a scope at a time.\<close>

definition active_for :: "('k \<Rightarrow> string \<rightharpoonup> claim) \<Rightarrow> 'k backend \<Rightarrow> lease_scope \<Rightarrow> string \<Rightarrow> time \<Rightarrow> 'k bstate \<Rightarrow> bool" where
  "active_for view B scope lid now s \<longleftrightarrow> (\<exists>c r. live_claims view s lid = Some c \<and> belongs B scope c
     \<and> record_from_claim B c = Inr r \<and> now < lease_expires_at r)"

lemma denied_bind: "denied view s r \<Longrightarrow> denied view s (bind_st r f)"
  by (cases r; cases "fst r") (auto simp: denied_def)

lemma denied_require:
  assumes "kube_laws (bk_kube B) view" and foreign: "\<nexists>c. live_claims view s lid = Some c \<and> belongs B scope c"
  shows "denied view s (require_claim B scope lid s)"
proof -
  obtain r s' where r: "require_claim B scope lid s = (r, s')" by fastforce
  note eff = require_claim_effect [OF assms(1) r]
  show ?thesis
  proof (cases r)
    case (Inl e)
    then show ?thesis using eff(1,2,4) by (auto simp: denied_def same_state_def r)
  next
    case (Inr c)
    then show ?thesis using eff(3) [OF Inr] foreign by auto
  qed
qed

lemma denied_target:
  assumes "kube_laws (bk_kube B) view" and "\<nexists>c. live_claims view s lid = Some c \<and> belongs B scope c"
  shows "denied view s (require_active_target B now waited scope lid s)"
  unfolding require_active_target_def by (rule denied_bind [OF denied_require [OF assms]])

lemma denied_prepare:
  assumes "kube_laws (bk_kube B) view" and "\<nexists>c. live_claims view s lid = Some c \<and> belongs B scope c"
  shows "denied view s (prepare_transfer B now waited scope lid path s)"
  unfolding prepare_transfer_def by (rule denied_bind [OF denied_require [OF assms]])

text \<open>
  C1. Leases are isolated: when no live claim of that name carries the caller's scope, every
  operation on it answers as if it did not exist (or reports a failure of the API server) and
  changes nothing; above all it deletes no claim, stops no transfer and runs no command.
\<close>

theorem scope_isolation:
  assumes laws: "kube_laws (bk_kube B) view"
    and foreign: "\<nexists>c. live_claims view s lid = Some c \<and> belongs B scope c"
  shows "denied view s (get_lease B now waited scope lid s)
    \<and> denied view s (release_lease B now waited scope lid s)
    \<and> denied view s (delete_lease B waited scope lid s)
    \<and> denied view s (exec_lease B now waited scope lid xq s)
    \<and> denied view s (read_lease_file B now waited scope lid path encoding s)
    \<and> denied view s (write_lease_file B now waited scope lid path content encoding s)
    \<and> denied view s (open_file B now started waited helper late scope lid path s)
    \<and> (denied view s (write_file_stream B now started waited uploader scope lid rq s)
      \<or> write_file_stream B now started waited uploader scope lid rq s = (Inl transfer_too_large, s))"
  unfolding get_lease_def release_lease_def delete_lease_def exec_lease_def read_lease_file_def write_lease_file_def
    open_file_def write_file_stream_def
  by (auto intro!: denied_bind denied_require [OF assms] denied_target [OF assms] denied_prepare [OF assms])

lemma scope_isolation_witness:
  "denied store_view leased_state (release_lease sample_backend 2000 True mallory ''lease-61'' leased_state)
   \<and> live_claims store_view leased_state ''lease-61'' = Some sample_claim"
  using scope_isolation [OF sample_laws sample_foreign, where now = 2000 and waited = True] by (simp add: sample_live)

lemma require_active_target_ok:
  assumes laws: "kube_laws (bk_kube B) view" and "require_active_target B now waited scope lid s = (Inr t, s')"
  shows "active_for view B scope lid now s \<and> same_state view s s'"
proof -
  obtain r s1 where r: "require_claim B scope lid s = (r, s1)" by fastforce
  note eff = require_claim_effect [OF laws r]
  obtain c where c: "r = Inr c" using assms(2) by (cases r) (auto simp: require_active_target_def r)
  then obtain rec where rec: "record_from_claim B c = Inr rec" "now < lease_expires_at rec"
    and t: "target_for_claim B c (lease_pool rec) s1 = (Inr t, s')"
    using assms(2) by (auto simp: require_active_target_def r split: sum.splits if_split_asm)
  have "active_for view B scope lid now s"
    using eff(3) [OF c] rec unfolding active_for_def by (intro exI [of _ "static c"] exI [of _ rec]) simp
  moreover have "same_state view s s1" using eff(1,2) by (simp add: same_state_def)
  moreover have "same_state view s1 s'" using target_for_claim_same [OF laws, of s1 c "lease_pool rec"] t by simp
  ultimately show ?thesis using same_state_trans by blast
qed

lemma prepare_transfer_ok:
  assumes laws: "kube_laws (bk_kube B) view" and "prepare_transfer B now waited scope lid req s = (Inr (t, expires, path), s')"
  shows "active_for view B scope lid now s \<and> same_state view s s' \<and> now < expires
    \<and> normalize_workspace_path req = Inr path \<and> path \<noteq> workspace_path"
proof -
  obtain r s1 where r: "require_claim B scope lid s = (r, s1)" by fastforce
  note eff = require_claim_effect [OF laws r]
  obtain c where c: "r = Inr c" using assms(2) by (cases r) (auto simp: prepare_transfer_def r)
  then obtain rec where rec: "record_from_claim B c = Inr rec" "now < lease_expires_at rec"
    and path: "normalize_workspace_path req = Inr path" "path \<noteq> workspace_path" and ex: "expires = lease_expires_at rec"
    and t: "target_for_claim B c (lease_pool rec) s1 = (Inr t, s')"
    using assms(2) by (auto simp: prepare_transfer_def r bind_st_def split: sum.splits if_split_asm)
      (metis prod.collapse)+
  have "active_for view B scope lid now s"
    using eff(3) [OF c] rec unfolding active_for_def by (intro exI [of _ "static c"] exI [of _ rec]) simp
  moreover have "same_state view s s1" using eff(1,2) by (simp add: same_state_def)
  moreover have "same_state view s1 s'" using target_for_claim_same [OF laws, of s1 c "lease_pool rec"] t by simp
  ultimately show ?thesis using same_state_trans rec(2) ex path by blast
qed

lemma bind_st_ok: "fst (bind_st r f) = Inr v \<Longrightarrow> \<exists>w s1. r = (Inr w, s1) \<and> fst (f w s1) = Inr v"
  by (cases r; cases "fst r") auto

definition worked :: "('k \<Rightarrow> string \<rightharpoonup> claim) \<Rightarrow> 'k backend \<Rightarrow> lease_scope \<Rightarrow> string \<Rightarrow> time \<Rightarrow> 'k bstate \<Rightarrow> (lease_error + 'a) \<times> 'k bstate \<Rightarrow> bool" where
  "worked view B scope lid now s r \<longleftrightarrow> (is_ok (fst r) \<longrightarrow> active_for view B scope lid now s \<and> live_claims view (snd r) = live_claims view s)"

lemma worked_error [simp]: "worked view B scope lid now s (Inl e, s')"
  by (simp add: worked_def)

lemma worked_target:
  assumes laws: "kube_laws (bk_kube B) view"
    and "\<And>t s1. same_state view s s1 \<Longrightarrow> live_claims view (snd (f t s1)) = live_claims view s"
  shows "worked view B scope lid now s (bind_st (require_active_target B now waited scope lid s) f)"
proof (cases "require_active_target B now waited scope lid s")
  case (Pair r s1)
  then show ?thesis
    using require_active_target_ok [OF laws, of now waited scope lid s _ s1] assms(2) [of s1]
    by (cases r) (auto simp: worked_def)
qed

lemma worked_prepare:
  assumes laws: "kube_laws (bk_kube B) view"
    and "\<And>t s1. same_state view s s1 \<Longrightarrow> live_claims view (snd (f t s1)) = live_claims view s"
  shows "worked view B scope lid now s (bind_st (prepare_transfer B now waited scope lid path s) f)"
proof (cases "prepare_transfer B now waited scope lid path s")
  case (Pair r s1)
  then show ?thesis
    using prepare_transfer_ok [OF laws, of now waited scope lid path s _ _ _ s1] assms(2) [of s1]
    by (cases r) (auto simp: worked_def)
qed

text \<open>
  Work is done only on an active lease: a command, a read, a write or a transfer that
  succeeds was asked for by the owner of a live claim before its expiry, and leaves every
  claim as it was.
\<close>

theorem work_needs_active_lease:
  assumes laws: "kube_laws (bk_kube B) view"
  shows "worked view B scope lid now s (exec_lease B now waited scope lid xq s)
    \<and> worked view B scope lid now s (read_lease_file B now waited scope lid path encoding s)
    \<and> worked view B scope lid now s (write_lease_file B now waited scope lid path content encoding s)
    \<and> worked view B scope lid now s (open_file B now started waited helper late scope lid path s)
    \<and> worked view B scope lid now s (write_file_stream B now started waited uploader scope lid rq s)"
  unfolding exec_lease_def read_lease_file_def write_lease_file_def open_file_def write_file_stream_def
  by (auto intro!: worked_target [OF laws] worked_prepare [OF laws] simp: same_state_def Let_def
      split: prod.splits)

definition sample_exec :: exec_request where
  "sample_exec = \<lparr>xq_command = ''ls'', xq_cwd = [], xq_env = [(''A'', ''1'')], xq_timeout_seconds = None\<rparr>"

lemma sample_exec_ok: "is_ok (fst (exec_lease sample_backend 2000 True alice ''lease-61'' sample_exec leased_state))"
proof -
  let ?r = "require_active_target sample_backend 2000 True alice ''lease-61'' leased_state"
  have "fst ?r = Inr \<lparr>target_pod = ''pod'', target_container = ''main''\<rparr>" by code_simp
  moreover have "normalize_workspace_path (xq_cwd sample_exec) = Inr workspace_path" by code_simp
  moreover have "is_ok (shell_command workspace_path (xq_env sample_exec) (xq_command sample_exec))" by code_simp
  ultimately show ?thesis
    by (auto simp: exec_lease_def bind_st_def is_ok_iff run_command_def sample_exec_def sample_backend_def sample_runner_def
        write_all_empty max_command_output_bytes_def)
qed

lemma work_needs_active_lease_witness:
  "is_ok (fst (exec_lease sample_backend 2000 True alice ''lease-61'' sample_exec leased_state))
   \<and> active_for store_view sample_backend alice ''lease-61'' 2000 leased_state"
  using work_needs_active_lease [OF sample_laws, where now = 2000 and scope = alice and lid = "''lease-61''"
      and s = leased_state and waited = True and xq = sample_exec] sample_exec_ok
  by (simp add: worked_def)

section \<open>The end of a lease\<close>

definition idle :: "string \<Rightarrow> transfer_manager \<Rightarrow> bool" where
  "idle lid m \<longleftrightarrow> tm_blocked m lid \<and> registered_of m lid = {}"

lemma finish_frame [simp]:
  "tm_blocked (finish i m) = tm_blocked m" "tm_closed (finish i m) = tm_closed m"
  by (simp_all add: finish_def finish_enter_def finish_remove_def finish_uncount_def finish_close_def cancel_op_def Let_def)

lemma finish_removes: "registered_of (finish i m) l \<subseteq> registered_of m l - {i}"
proof (cases "in_phase m i Registered")
  case True
  then show ?thesis using finish_registered by blast
next
  case False
  then show ?thesis
    by (auto simp: finish_def finish_enter_def finish_remove_def finish_uncount_def finish_close_def cancel_op_def
      in_phase_def registered_of_def Let_def split: option.splits if_split_asm)
qed

lemma fold_finish:
  "tm_inv m \<Longrightarrow> tm_inv (fold finish js m) \<and> tm_blocked (fold finish js m) = tm_blocked m
     \<and> registered_of (fold finish js m) l \<subseteq> registered_of m l - set js"
proof (induction js arbitrary: m)
  case (Cons i js)
  then show ?case using Cons.IH [of "finish i m"] finish_inv [of m i] finish_removes [of i m l] by auto
qed simp

lemma finish_all_idle:
  assumes inv: "tm_inv m"
  shows "tm_inv (finish_all (fst (stop_lease l m)) (snd (stop_lease l m)))"
    and "idle l (finish_all (fst (stop_lease l m)) (snd (stop_lease l m)))"
proof -
  let ?m = "snd (stop_lease l m)" and ?ops = "fst (stop_lease l m)"
  have i: "tm_inv ?m" by (rule stop_lease_inv [OF inv])
  have ops: "?ops = registered_of m l" using inv by (simp add: stop_lease_def Let_def tm_inv_def active_inv_def)
  have reg: "registered_of ?m l = registered_of m l"
    by (rule phase_sets_cong(2)) (simp add: stop_lease_def Let_def)
  have fin: "finite ?ops" using registered_finite(2) [of m l] inv ops by (simp add: tm_inv_def)
  have bl: "tm_blocked ?m l" by (simp add: stop_lease_def Let_def)
  note f = fold_finish [OF i, of "sorted_list_of_set ?ops" l]
  show "tm_inv (finish_all ?ops ?m)" using f by (simp add: finish_all_def)
  show "idle l (finish_all ?ops ?m)"
    using f bl fin reg ops by (auto simp: idle_def finish_all_def)
qed

lemma stop_and_wait_ok:
  assumes "tm_inv (bs_transfers s)" and "stop_and_wait lid waited s = (r, s')"
  shows "tm_inv (bs_transfers s')" "r = Inr () \<Longrightarrow> idle lid (bs_transfers s')" "live_claims view s' = live_claims view s"
  using stop_and_wait_effect [OF assms(2)] finish_all_idle [OF assms(1), of lid] stop_lease_inv [OF assms(1), of lid]
  by (auto simp: idle_def split: if_split_asm)

lemma idle_forever: "tm_inv m \<Longrightarrow> idle lid m \<Longrightarrow> tm_step\<^sup>*\<^sup>* m m' \<Longrightarrow> idle lid m'"
  using stop.run_stable [of m m' lid "{}"] by (simp add: idle_def stopped_def)

lemma denied_gone:
  "kube_laws (bk_kube B) view \<Longrightarrow> live_claims view s lid = None \<Longrightarrow> denied view s (require_claim B scope lid s)"
  by (rule denied_require) auto

lemma release_steps:
  assumes laws: "kube_laws (bk_kube B) view" and inv: "tm_inv (bs_transfers s)"
    and r: "require_claim B scope lid s = (Inr c, s1)"
    and stop: "stop_and_wait lid waited s1 = (Inr (), s2)" and del: "delete_claim B lid s2 = (Inr (), s')"
  shows "live_claims view s' = (live_claims view s)(lid := None) \<and> idle lid (bs_transfers s') \<and> tm_inv (bs_transfers s')"
proof -
  note eff = require_claim_effect [OF laws r]
  have inv1: "tm_inv (bs_transfers s1)" using inv eff(2) by simp
  note st = stop_and_wait_ok [OF inv1 stop]
  note de = delete_claim_effect [OF laws del]
  show ?thesis using eff(1) st de by simp
qed

text \<open>
  C4. Releasing or deleting a lease is final: when the call succeeds, the caller belongs the
  lease, exactly this claim has ended, no transfer of the lease is running or will ever be
  admitted again, and every later request for it, by anyone, is denied; the released record
  says released if the lease had not expired, else expired.
\<close>

theorem release_final:
  assumes laws: "kube_laws (bk_kube B) view" and inv: "tm_inv (bs_transfers s)"
    and ok: "release_lease B now waited scope lid s = (Inr r, s') \<or> delete_lease B waited scope lid s = (Inr u, s')"
  shows "(\<exists>c. live_claims view s lid = Some c \<and> belongs B scope c) \<and> live_claims view s' = (live_claims view s)(lid := None)
    \<and> (\<forall>m. tm_step\<^sup>*\<^sup>* (bs_transfers s') m \<longrightarrow> idle lid m)
    \<and> denied view s' (require_claim B scope' lid s')
    \<and> (release_lease B now waited scope lid s = (Inr r, s') \<longrightarrow>
        lease_status r = (if now < lease_expires_at r then Released else Expired))"
proof -
  obtain q s1 where r: "require_claim B scope lid s = (q, s1)" by fastforce
  obtain c where c: "q = Inr c" using ok by (cases q) (auto simp: release_lease_def delete_lease_def r)
  obtain st s2 where st: "stop_and_wait lid waited s1 = (st, s2)" by fastforce
  obtain de s3 where de: "delete_claim B lid s2 = (de, s3)" by fastforce
  have steps: "st = Inr () \<and> de = Inr () \<and> s3 = s'"
    using ok by (cases st; cases de)
      (auto simp: release_lease_def delete_lease_def r c st de Let_def split: sum.splits)
  have eff: "live_claims view s' = (live_claims view s)(lid := None) \<and> idle lid (bs_transfers s') \<and> tm_inv (bs_transfers s')"
    by (rule release_steps [OF laws inv, of scope lid c s1 waited s2])
      (use r c st de steps in simp_all)
  have "\<exists>c. live_claims view s lid = Some c \<and> belongs B scope c"
    using require_claim_effect(3) [OF laws r, of c] c by auto
  moreover have "lease_status r = (if now < lease_expires_at r then Released else Expired)"
    if "release_lease B now waited scope lid s = (Inr r, s')"
    using that by (auto simp: release_lease_def r c st de steps Let_def split: sum.splits)
  moreover have "denied view s' (require_claim B scope' lid s')"
    by (rule denied_gone [OF laws]) (simp add: eff)
  ultimately show ?thesis using eff idle_forever by blast
qed

lemma release_final_witness:
  "\<exists>r s'. release_lease sample_backend 2000 True alice ''lease-61'' leased_state = (Inr r, s') \<and> lease_status r = Released
    \<and> live_claims store_view s' ''lease-61'' = None"
proof -
  have "is_ok (fst (release_lease sample_backend 2000 True alice ''lease-61'' leased_state))" by code_simp
  then obtain r s' where r: "release_lease sample_backend 2000 True alice ''lease-61'' leased_state = (Inr r, s')"
    by (cases "release_lease sample_backend 2000 True alice ''lease-61'' leased_state") (auto simp: is_ok_iff)
  have e: "lease_expires_at r = 60000001000"
  proof -
    have "map_sum id lease_expires_at (fst (release_lease sample_backend 2000 True alice ''lease-61'' leased_state)) = Inr 60000001000"
      by code_simp
    then show ?thesis by (simp add: r)
  qed
  have inv: "tm_inv (bs_transfers leased_state)"
    by (simp add: sample_tm_inv_start tm_init_inv [OF tm_sample_init])
  show ?thesis
    using release_final [OF sample_laws inv disjI1 [OF r]] r e by auto
qed

end
