(* ===== verification/Kube_Acquire.thy ===== *)
theory Kube_Acquire
  imports Kube_Props
begin

text \<open>
  Acquiring leases: what is created, what is found again, what is cleaned up after a failure
  and what is left alone.
\<close>

section \<open>Records in claims\<close>

definition time_law :: "time_format \<Rightarrow> time \<Rightarrow> bool" where
  "time_law f t \<longleftrightarrow> tf_parse f (tf_format f t) = Some t"

lemma labels_distinct [simp]:
  "managed_label \<noteq> scope_label" "scope_label \<noteq> managed_label" "managed_label \<noteq> consumer_label" "consumer_label \<noteq> managed_label"
  "managed_label \<noteq> idempotency_label" "idempotency_label \<noteq> managed_label" "managed_label \<noteq> pool_hash_label" "pool_hash_label \<noteq> managed_label"
  "scope_label \<noteq> consumer_label" "consumer_label \<noteq> scope_label" "scope_label \<noteq> idempotency_label" "idempotency_label \<noteq> scope_label"
  "scope_label \<noteq> pool_hash_label" "pool_hash_label \<noteq> scope_label" "consumer_label \<noteq> idempotency_label" "idempotency_label \<noteq> consumer_label"
  "consumer_label \<noteq> pool_hash_label" "pool_hash_label \<noteq> consumer_label" "idempotency_label \<noteq> pool_hash_label" "pool_hash_label \<noteq> idempotency_label"
  "pool_annotation \<noteq> created_annotation" "created_annotation \<noteq> pool_annotation" "pool_annotation \<noteq> expires_annotation"
  "expires_annotation \<noteq> pool_annotation" "created_annotation \<noteq> expires_annotation" "expires_annotation \<noteq> created_annotation"
  by (simp_all add: label_defs)

lemma build_claim_sel [simp]:
  "cl_name (build_claim B r scope key pl) = lease_id r" "\<not> cl_deleting (build_claim B r scope key pl)"
  "static (build_claim B r scope key pl) = build_claim B r scope key pl"
  by (simp_all add: build_claim_def static_def Let_def)

lemma build_claim_belongs: "belongs B scope (build_claim B r scope key pl)"
  by (simp add: belongs_def build_claim_def str_of_def Let_def)

lemma build_claim_matches: "matches (key_selector B scope key) (build_claim B r scope key pl)"
  by (simp add: matches_def key_selector_def build_claim_def Let_def)

lemma record_build_claim:
  assumes "time_law (bk_times B) (lease_created_at r)" and "time_law (bk_times B) (lease_expires_at r)"
  shows "record_from_claim B (build_claim B r scope key pl) = Inr (r\<lparr>lease_status := Active, last_used_at := lease_created_at r\<rparr>)"
  using assms by (cases r) (simp add: record_from_claim_def build_claim_def str_of_def time_law_def Let_def)

lemma matches_belongs: "matches (key_selector B scope key) c \<Longrightarrow> \<not> cl_deleting c \<Longrightarrow> belongs B scope c"
  by (simp add: matches_def key_selector_def belongs_def str_of_def)

lemma record_name: "record_from_claim B c = Inr r \<Longrightarrow> lease_id r = cl_name c"
  by (auto simp: record_from_claim_def Let_def split: option.splits)

section \<open>Finding a lease by its key\<close>

definition expired_at :: "'k backend \<Rightarrow> (nat \<Rightarrow> time) \<Rightarrow> claim \<Rightarrow> bool" where
  "expired_at B clock c \<longleftrightarrow> (\<exists>r i. record_from_claim B c = Inr r \<and> lease_expires_at r \<le> clock i)"

lemma expired_static [simp]: "expired_at B clock (static c) = expired_at B clock c"
  by (simp add: expired_at_def)

text \<open>A state in which some claims, all of them expired, are gone, and nothing else differs.\<close>

definition trimmed :: "('k \<Rightarrow> string \<rightharpoonup> claim) \<Rightarrow> 'k backend \<Rightarrow> (nat \<Rightarrow> time) \<Rightarrow> 'k bstate \<Rightarrow> 'k bstate \<Rightarrow> bool" where
  "trimmed view B clock s s' \<longleftrightarrow> bs_transfers s' = bs_transfers s
     \<and> (\<forall>n. live_claims view s' n = live_claims view s n \<or> live_claims view s' n = None \<and> (\<exists>c. live_claims view s n = Some c \<and> expired_at B clock c))"

lemma trimmed_refl [simp]: "trimmed view B clock s s"
  by (simp add: trimmed_def)

lemma trimmed_same: "same_state view s s' \<Longrightarrow> trimmed view B clock s s'"
  by (simp add: trimmed_def same_state_def)

lemma trimmed_trans: "trimmed view B clock s s1 \<Longrightarrow> trimmed view B clock s1 s2 \<Longrightarrow> trimmed view B clock s s2"
  unfolding trimmed_def by (metis option.distinct(1))

lemma trimmed_delete:
  assumes laws: "kube_laws (bk_kube B) view"
    and c: "live_claims view s n = Some c \<or> live_claims view s n = None" "live_claims view s n = Some c \<Longrightarrow> expired_at B clock c"
  shows "trimmed view B clock s (snd (delete_claim B n s))"
proof -
  obtain r s' where d: "delete_claim B n s = (r, s')" by fastforce
  note eff = delete_claim_effect [OF laws d]
  have "live_claims view s' = live_claims view s \<or> live_claims view s' = (live_claims view s)(n := None)" using eff(2,3) by (cases r) auto
  then show ?thesis using eff(1) c by (auto simp: trimmed_def d split: if_split_asm)
qed

lemma find_loop_effect:
  assumes laws: "kube_laws (bk_kube B) view"
  shows "distinct (map cl_name items) \<Longrightarrow> \<forall>c \<in> set items. \<not> cl_deleting c \<longrightarrow> live_claims view s (cl_name c) = Some (static c) \<Longrightarrow>
    trimmed view B clock s (snd (find_loop B clock i items s))
    \<and> (fst (find_loop B clock i items s) = Inr None \<longrightarrow> (\<forall>c \<in> set items. cl_deleting c \<or> expired_at B clock c))
    \<and> (\<forall>r. fst (find_loop B clock i items s) = Inr (Some r) \<longrightarrow>
        (\<exists>c \<in> set items. \<not> cl_deleting c \<and> record_from_claim B c = Inr r \<and> (\<exists>j. clock j < lease_expires_at r)))"
proof (induction items arbitrary: i s)
  case (Cons c cs)
  show ?case
  proof (cases "cl_deleting c")
    case True
    with Cons show ?thesis by auto
  next
    case alive: False
    show ?thesis
    proof (cases "record_from_claim B c")
      case (Inl e)
      with alive show ?thesis by simp
    next
      case (Inr r)
      show ?thesis
      proof (cases "lease_expires_at r \<le> clock i")
        case True
        let ?s = "snd (delete_claim B (lease_id r) s)"
        have ex: "expired_at B clock c" using Inr True by (auto simp: expired_at_def)
        have id: "lease_id r = cl_name c" by (rule record_name [OF Inr])
        have lv: "live_claims view s (cl_name c) = Some (static c)" using Cons.prems(2) alive by simp
        have tr: "trimmed view B clock s ?s"
          unfolding id by (rule trimmed_delete [OF laws, of s "cl_name c" "static c"]) (use lv ex in simp_all)
        have "live_claims view ?s n = live_claims view s n" if "n \<noteq> cl_name c" for n
          using delete_claim_effect(2,3) [OF laws, of "lease_id r" s _ ?s] that
          by (cases "fst (delete_claim B (lease_id r) s)") (auto simp: id prod_eq_iff)
        then have "\<forall>d \<in> set cs. \<not> cl_deleting d \<longrightarrow> live_claims view ?s (cl_name d) = Some (static d)"
          using Cons.prems by (metis image_eqI list.set_map distinct.simps(2) list.simps(9) list.set_intros(2))
        with Cons.IH [of ?s "Suc i"] Cons.prems(1)
        show ?thesis using alive Inr True ex trimmed_trans [OF tr] by auto
      next
        case False
        with alive Inr show ?thesis by (auto simp: not_le)
      qed
    qed
  qed
qed simp

lemma call_ok: "call f op s = (Inr v, s') \<longleftrightarrow> (\<exists>k. op (bs_cluster s) = (Inr v, k) \<and> s' = s\<lparr>bs_cluster := k\<rparr>)"
  by (auto simp: call_def split: prod.splits sum.splits)

lemma list_call:
  assumes laws: "kube_laws (bk_kube B) view" and "call f (kb_list (bk_kube B) sel lim cont) s = (Inr (items, next), s')"
  shows "same_state view s s'" "distinct (map cl_name items)"
    "\<forall>c \<in> set items. matches sel c \<and> (\<not> cl_deleting c \<longrightarrow> live_claims view s (cl_name c) = Some (static c))"
    "0 < lim \<Longrightarrow> int (length items) \<le> lim"
    "lim = 0 \<Longrightarrow> cont = [] \<Longrightarrow> live_claims view s n = Some c \<Longrightarrow> matches sel c \<Longrightarrow>
       \<exists>d \<in> set items. cl_name d = n \<and> static d = c"
proof -
  obtain k where k: "kb_list (bk_kube B) sel lim cont (bs_cluster s) = (Inr (items, next), k)"
    and s': "s' = s\<lparr>bs_cluster := k\<rparr>" using assms(2) by (auto simp: call_ok)
  have law: "view k = view (bs_cluster s)" "\<forall>c \<in> set items. view (bs_cluster s) (cl_name c) = Some (static c) \<and> matches sel c"
    "distinct (map cl_name items)" "0 < lim \<longrightarrow> int (length items) \<le> lim"
    "lim = 0 \<and> cont = [] \<longrightarrow> (\<forall>n c. view (bs_cluster s) n = Some c \<and> matches sel c \<longrightarrow> n \<in> cl_name ` set items)"
    using laws k unfolding kube_laws_def list_law_def by blast+
  show "same_state view s s'" using law(1) by (simp add: same_state_def live_claims_def s')
  show "distinct (map cl_name items)" "0 < lim \<Longrightarrow> int (length items) \<le> lim" using law(3,4) by auto
  show "\<forall>c \<in> set items. matches sel c \<and> (\<not> cl_deleting c \<longrightarrow> live_claims view s (cl_name c) = Some (static c))"
    using law(2) by (auto simp: live_claims_def live_of_def)
  assume a: "lim = 0" "cont = []" "live_claims view s n = Some c" "matches sel c"
  then have v: "view (bs_cluster s) n = Some c" by (auto simp: live_claims_def live_of_def split: option.splits if_split_asm)
  then obtain d where "d \<in> set items" "cl_name d = n" using law(5) a by blast
  then show "\<exists>d \<in> set items. cl_name d = n \<and> static d = c" using law(2) v by auto
qed

lemma find_by_key_effect:
  assumes laws: "kube_laws (bk_kube B) view" and f: "find_by_idempotency_key B clock scope key s = (q, s')"
  shows "trimmed view B clock s s'"
    "q = Inr None \<Longrightarrow> live_claims view s n = Some c \<Longrightarrow> matches (key_selector B scope key) c \<Longrightarrow> expired_at B clock c"
    "q = Inr (Some r) \<Longrightarrow> \<exists>c j. live_claims view s (lease_id r) = Some c \<and> belongs B scope c \<and> record_from_claim B c = Inr r
       \<and> clock j < lease_expires_at r"
proof -
  let ?call = "call internal (kb_list (bk_kube B) (key_selector B scope key) 0 []) s"
  have all: "trimmed view B clock s s' \<and> (q = Inr None \<longrightarrow> live_claims view s n = Some c \<longrightarrow> matches (key_selector B scope key) c \<longrightarrow> expired_at B clock c)
    \<and> (q = Inr (Some r) \<longrightarrow> (\<exists>c j. live_claims view s (lease_id r) = Some c \<and> belongs B scope c \<and> record_from_claim B c = Inr r
       \<and> clock j < lease_expires_at r))"
  proof (cases ?call)
    case (Pair o1 s1)
    show ?thesis
    proof (cases o1)
      case (Inl e)
      have "same_state view s s1" using call_same [of view "kb_list (bk_kube B) (key_selector B scope key) 0 []" s s internal]
        frame_laws(2) [OF laws] Pair by simp
      then show ?thesis using f Pair Inl trimmed_same by (auto simp: find_by_idempotency_key_def)
    next
      case (Inr v)
      obtain items nxt where v: "v = (items, nxt)" by fastforce
      have c: "?call = (Inr (items, nxt), s1)" using Pair Inr v by simp
      note l = list_call [OF laws c]
      have fl: "find_loop B clock 0 items s1 = (q, s')" using f c by (simp add: find_by_idempotency_key_def)
      have pre: "\<forall>c \<in> set items. \<not> cl_deleting c \<longrightarrow> live_claims view s1 (cl_name c) = Some (static c)"
        using l(1,3) by (simp add: same_state_def)
      note e = find_loop_effect [OF laws l(2) pre, of clock 0, unfolded fl fst_conv snd_conv]
      have "trimmed view B clock s s'" using trimmed_trans [OF trimmed_same [OF l(1)]] e by blast
      moreover have "expired_at B clock c" if q0: "q = Inr None" and lv: "live_claims view s n = Some c" and m: "matches (key_selector B scope key) c"
      proof -
        obtain d where d: "d \<in> set items" "static d = c" using l(5) [OF refl refl lv m] by blast
        moreover have "\<not> cl_deleting c" using lv by (auto simp: live_claims_def live_of_def split: option.splits if_split_asm)
        ultimately show ?thesis using e q0 by auto
      qed
      moreover have "\<exists>c j. live_claims view s (lease_id r) = Some c \<and> belongs B scope c \<and> record_from_claim B c = Inr r \<and> clock j < lease_expires_at r"
        if q1: "q = Inr (Some r)"
      proof -
        obtain d j where d: "d \<in> set items" "\<not> cl_deleting d" "record_from_claim B d = Inr r" "clock j < lease_expires_at r"
          using e q1 by auto
        then have "live_claims view s (lease_id r) = Some (static d) \<and> belongs B scope (static d)"
          using l(3) d record_name [OF d(3)] matches_belongs [of B scope key d] by auto
        with d show ?thesis by (intro exI [of _ "static d"] exI [of _ j]) simp
      qed
      ultimately show ?thesis by blast
    qed
  qed
  then show "trimmed view B clock s s'"
    "q = Inr None \<Longrightarrow> live_claims view s n = Some c \<Longrightarrow> matches (key_selector B scope key) c \<Longrightarrow> expired_at B clock c"
    "q = Inr (Some r) \<Longrightarrow> \<exists>c j. live_claims view s (lease_id r) = Some c \<and> belongs B scope c \<and> record_from_claim B c = Inr r
       \<and> clock j < lease_expires_at r" by blast+
qed

section \<open>Acquire\<close>

lemma create_effect:
  assumes laws: "kube_laws (bk_kube B) view" and c: "call internal (kb_create (bk_kube B) c) s = (q, s')" "\<not> cl_deleting c"
  shows "bs_transfers s' = bs_transfers s"
    "q = Inr () \<Longrightarrow> live_claims view s (cl_name c) = None \<and> live_claims view s' = (live_claims view s)(cl_name c \<mapsto> static c)"
    "q = Inl e \<Longrightarrow> live_claims view s' = live_claims view s \<or> live_claims view s' = (live_claims view s)(cl_name c \<mapsto> static c)"
proof -
  obtain g k where g: "kb_create (bk_kube B) c (bs_cluster s) = (g, k)" by fastforce
  have law: "case g of Inr _ \<Rightarrow> view (bs_cluster s) (cl_name c) = None \<and> view k = (view (bs_cluster s))(cl_name c \<mapsto> static c)
      | Inl _ \<Rightarrow> view k = view (bs_cluster s) \<or> view (bs_cluster s) (cl_name c) = None \<and> view k = (view (bs_cluster s))(cl_name c \<mapsto> static c)"
    using laws g unfolding kube_laws_def create_law_def by blast
  have lv: "live_of ((view (bs_cluster s))(cl_name c \<mapsto> static c)) = (live_claims view s)(cl_name c \<mapsto> static c)"
    using c(2) live_created [of "static c"] by (simp add: live_claims_def)
  show "bs_transfers s' = bs_transfers s" using c(1) by (auto simp: call_def g)
  show "q = Inr () \<Longrightarrow> live_claims view s (cl_name c) = None \<and> live_claims view s' = (live_claims view s)(cl_name c \<mapsto> static c)"
    using c(1) law lv by (auto simp: call_def g live_claims_def live_of_def split: sum.splits)
  show "q = Inl e \<Longrightarrow> live_claims view s' = live_claims view s \<or> live_claims view s' = (live_claims view s)(cl_name c \<mapsto> static c)"
    using c(1) law lv by (auto simp: call_def g live_claims_def split: sum.splits)
qed

lemma acquire_cases:
  assumes "acquire_lease B clock now random polls scope rq s = (res, s')"
  obtains (refused) e where "res = Inl e" "s' = s"
  | (find_failed) e where "find_by_idempotency_key B clock scope (aq_idempotency_key rq) s = (Inl e, s')" "res = Inl e"
  | (replayed) r where "find_by_idempotency_key B clock scope (aq_idempotency_key rq) s = (Inr (Some r), s')" "res = Inr (r, True)"
  | (started) pl s1 q s2 where "bk_pools B (aq_pool rq) = Some pl" "0 < ttl_of B rq" "ttl_of B rq \<le> bk_max_ttl B"
      "find_by_idempotency_key B clock scope (aq_idempotency_key rq) s = (Inr None, s1)"
      "call internal (kb_create (bk_kube B) (build_claim B (fresh_record (new_lease_id random) (aq_pool rq) (ttl_of B rq) now)
         scope (aq_idempotency_key rq) pl)) s1 = (q, s2)"
      "(case q of Inl e \<Rightarrow> res = Inl e \<and> s' = s2
        | Inr _ \<Rightarrow> (case wait_for_ready B (new_lease_id random) polls s2 of
            (Inl e, s3) \<Rightarrow> res = Inl e \<and> s' = snd (delete_claim B (new_lease_id random) s3)
          | (Inr c, s3) \<Rightarrow> (case verify_runtime B c pl s3 of
              (Inl e, s4) \<Rightarrow> res = Inl e \<and> s' = snd (delete_claim B (new_lease_id random) s4)
            | (Inr _, s4) \<Rightarrow> res = Inr (fresh_record (new_lease_id random) (aq_pool rq) (ttl_of B rq) now, False) \<and> s' = s4)))"
proof (cases "bk_pools B (aq_pool rq)")
  case None
  show thesis by (rule refused) (use assms None in \<open>auto simp: acquire_lease_def\<close>)
next
  case (Some pl)
  show thesis
  proof (cases "ttl_of B rq \<le> 0 \<or> ttl_of B rq > bk_max_ttl B")
    case True
    then show thesis using assms Some by (intro refused) (auto simp: acquire_lease_def Let_def)
  next
    case ttl: False
    obtain f s1 where f: "find_by_idempotency_key B clock scope (aq_idempotency_key rq) s = (f, s1)" by fastforce
    show thesis
    proof (cases f)
      case (Inl e)
      then show thesis using assms Some ttl f find_failed by (auto simp: acquire_lease_def Let_def)
    next
      case (Inr o1)
      show thesis
      proof (cases o1)
        case (Some r)
        then show thesis using assms \<open>bk_pools B (aq_pool rq) = Some pl\<close> ttl f Inr replayed
          by (auto simp: acquire_lease_def Let_def)
      next
        case None
        let ?r = "fresh_record (new_lease_id random) (aq_pool rq) (ttl_of B rq) now"
        have id: "lease_id ?r = new_lease_id random" by (simp add: fresh_record_def)
        obtain q s2 where q: "call internal (kb_create (bk_kube B) (build_claim B ?r scope (aq_idempotency_key rq) pl)) s1 = (q, s2)"
          by fastforce
        show thesis
          by (rule started [OF Some _ _ f [unfolded Inr None] q])
            (use assms ttl in \<open>auto simp: acquire_lease_def Let_def Some f Inr None q id split: sum.splits prod.splits\<close>)
      qed
    qed
  qed
qed

lemma delete_pair: "delete_claim B n s = (fst (delete_claim B n s), snd (delete_claim B n s))"
  by simp

text \<open>An acquisition that created its lease.\<close>

lemma acquire_created:
  assumes laws: "kube_laws (bk_kube B) view"
    and acq: "acquire_lease B clock now random polls scope rq s = (Inr (r, False), s')"
  shows "\<exists>pl s1. bk_pools B (aq_pool rq) = Some pl \<and> 0 < ttl_of B rq \<and> ttl_of B rq \<le> bk_max_ttl B
    \<and> r = fresh_record (new_lease_id random) (aq_pool rq) (ttl_of B rq) now
    \<and> trimmed view B clock s s1 \<and> live_claims view s1 (lease_id r) = None
    \<and> live_claims view s' = (live_claims view s1)(lease_id r \<mapsto> build_claim B r scope (aq_idempotency_key rq) pl)
    \<and> (\<forall>n c. live_claims view s n = Some c \<and> matches (key_selector B scope (aq_idempotency_key rq)) c \<longrightarrow> expired_at B clock c)"
  using acq
proof (cases rule: acquire_cases)
  case (started pl s1 q s2)
  let ?r = "fresh_record (new_lease_id random) (aq_pool rq) (ttl_of B rq) now"
  have id: "lease_id ?r = new_lease_id random" by (simp add: fresh_record_def)
  obtain u where q: "q = Inr u" using started(6) by (cases q) auto
  obtain w s3 where w0: "wait_for_ready B (new_lease_id random) polls s2 = (w, s3)" by fastforce
  obtain c where c: "w = Inr c" using started(6) q w0 by (cases w) auto
  have w: "wait_for_ready B (new_lease_id random) polls s2 = (Inr c, s3)" using w0 c by simp
  obtain v0 s4 where v0: "verify_runtime B c pl s3 = (v0, s4)" by fastforce
  obtain v where v1: "v0 = Inr v" using started(6) q w v0 by (cases v0) auto
  have v: "verify_runtime B c pl s3 = (Inr v, s')" and r: "r = ?r" using started(6) q w v0 v1 by auto
  have "same_state view s2 s3" using wait_for_ready_effect(1) [OF laws, of s2 "new_lease_id random" polls] w by simp
  moreover have "same_state view s3 s'" using verify_runtime_same [OF laws, of s3 c pl] v by simp
  ultimately have same: "same_state view s2 s'" by (rule same_state_trans)
  note ce = create_effect [OF laws started(5)]
  note fe = find_by_key_effect [OF laws started(4)]
  have "live_claims view s1 (lease_id r) = None
    \<and> live_claims view s' = (live_claims view s1)(lease_id r \<mapsto> build_claim B r scope (aq_idempotency_key rq) pl)"
    using ce(2) q same by (simp add: same_state_def r id)
  then show ?thesis using started(1-3) fe(1) fe(2) [OF refl] r
    by (intro exI [of _ pl] exI [of _ s1]) blast
qed auto

text \<open>
  C5. A new lease is what was asked for: an acquisition that does not replay creates exactly
  one claim, which belongs to the caller, reads back as the returned record and is named by
  the idempotency key; the pool exists, the time to live is within bounds, no unexpired lease
  of that key existed, and no other live claim is touched except expired ones of that key.
\<close>

theorem acquire_creates:
  assumes laws: "kube_laws (bk_kube B) view"
    and acq: "acquire_lease B clock now random polls scope rq s = (Inr (r, False), s')"
    and times: "time_law (bk_times B) (lease_created_at r)" "time_law (bk_times B) (lease_expires_at r)"
  shows "(\<exists>c. live_claims view s' (lease_id r) = Some c \<and> belongs B scope c \<and> record_from_claim B c = Inr r
      \<and> matches (key_selector B scope (aq_idempotency_key rq)) c)
    \<and> lease_pool r = aq_pool rq \<and> bk_pools B (aq_pool rq) \<noteq> None \<and> 0 < ttl_of B rq \<and> ttl_of B rq \<le> bk_max_ttl B
    \<and> (\<forall>n c. live_claims view s n = Some c \<and> matches (key_selector B scope (aq_idempotency_key rq)) c \<longrightarrow> expired_at B clock c)
    \<and> (\<forall>n. n \<noteq> lease_id r \<longrightarrow> live_claims view s' n = live_claims view s n
        \<or> live_claims view s' n = None \<and> (\<exists>c. live_claims view s n = Some c \<and> expired_at B clock c))"
proof -
  obtain pl s1 where a: "bk_pools B (aq_pool rq) = Some pl" "0 < ttl_of B rq" "ttl_of B rq \<le> bk_max_ttl B"
    "r = fresh_record (new_lease_id random) (aq_pool rq) (ttl_of B rq) now" "trimmed view B clock s s1"
    "live_claims view s' = (live_claims view s1)(lease_id r \<mapsto> build_claim B r scope (aq_idempotency_key rq) pl)"
    "\<forall>n c. live_claims view s n = Some c \<and> matches (key_selector B scope (aq_idempotency_key rq)) c \<longrightarrow> expired_at B clock c"
    using acquire_created [OF laws acq] by blast
  have "record_from_claim B (build_claim B r scope (aq_idempotency_key rq) pl) = Inr r"
    using record_build_claim [OF times, of scope "aq_idempotency_key rq" pl] a(4) by (simp add: fresh_record_def)
  then have "\<exists>c. live_claims view s' (lease_id r) = Some c \<and> belongs B scope c \<and> record_from_claim B c = Inr r
      \<and> matches (key_selector B scope (aq_idempotency_key rq)) c"
    using a(6) build_claim_belongs [of B scope r "aq_idempotency_key rq" pl] build_claim_matches [of B scope "aq_idempotency_key rq" r pl]
    by (intro exI [of _ "build_claim B r scope (aq_idempotency_key rq) pl"]) simp
  moreover have "lease_pool r = aq_pool rq" using a(4) by (simp add: fresh_record_def)
  moreover have "\<forall>n. n \<noteq> lease_id r \<longrightarrow> live_claims view s' n = live_claims view s n
        \<or> live_claims view s' n = None \<and> (\<exists>c. live_claims view s n = Some c \<and> expired_at B clock c)"
    using a(5,6) by (simp add: trimmed_def)
  ultimately show ?thesis using a(1-3,7) by simp
qed

lemma sample_acquire:
  "fst (acquire_lease sample_backend (\<lambda>_. 1000) 1000 ''a'' [] alice sample_acquire_request empty_state) = Inr (sample_record, False)"
  by code_simp

lemma sample_acquired:
  obtains s' where "acquire_lease sample_backend (\<lambda>_. 1000) 1000 ''a'' [] alice sample_acquire_request empty_state = (Inr (sample_record, False), s')"
  using sample_acquire by (cases "acquire_lease sample_backend (\<lambda>_. 1000) 1000 ''a'' [] alice sample_acquire_request empty_state") auto

lemma sample_time_laws:
  "time_law (bk_times sample_backend) (lease_created_at sample_record)" "time_law (bk_times sample_backend) (lease_expires_at sample_record)"
  unfolding time_law_def by code_simp+

lemma acquire_creates_witness:
  "\<exists>s' c. acquire_lease sample_backend (\<lambda>_. 1000) 1000 ''a'' [] alice sample_acquire_request empty_state = (Inr (sample_record, False), s')
    \<and> live_claims store_view s' ''lease-61'' = Some c \<and> belongs sample_backend alice c"
proof -
  obtain s' where a: "acquire_lease sample_backend (\<lambda>_. 1000) 1000 ''a'' [] alice sample_acquire_request empty_state = (Inr (sample_record, False), s')"
    by (rule sample_acquired)
  have "lease_id sample_record = ''lease-61''" by (simp add: sample_record_def fresh_record_def)
  with acquire_creates [OF sample_laws a sample_time_laws] a show ?thesis by auto
qed

text \<open>
  C3. Acquisition is idempotent: as long as the lease created under a key is alive and has not
  expired, a second acquisition by the same caller with that key creates nothing and ends
  nothing that is unexpired; if it succeeds, it replays an unexpired lease of the caller.
\<close>

theorem acquire_idempotent:
  assumes laws: "kube_laws (bk_kube B) view"
    and acq: "acquire_lease B clock now random polls scope rq s = (Inr (r, False), s1)"
    and times: "time_law (bk_times B) (lease_created_at r)" "time_law (bk_times B) (lease_expires_at r)"
    and alive: "live_claims view s2 (lease_id r) = live_claims view s1 (lease_id r)" and unexpired: "\<forall>i. clock' i < lease_expires_at r"
    and again: "acquire_lease B clock' now' random' polls' scope rq' s2 = (res, s3)" "aq_idempotency_key rq' = aq_idempotency_key rq"
  shows "trimmed view B clock' s2 s3 \<and> live_claims view s3 (lease_id r) = live_claims view s2 (lease_id r)
    \<and> (\<forall>r' replayed. res = Inr (r', replayed) \<longrightarrow> replayed \<and>
        (\<exists>c j. live_claims view s2 (lease_id r') = Some c \<and> belongs B scope c \<and> record_from_claim B c = Inr r' \<and> clock' j < lease_expires_at r'))"
proof -
  obtain c where c: "live_claims view s2 (lease_id r) = Some c" "record_from_claim B c = Inr r"
    "matches (key_selector B scope (aq_idempotency_key rq')) c"
    using acquire_creates [OF laws acq times] alive again(2) by auto
  have ne: "\<not> expired_at B clock' c" using c(2) unexpired by (auto simp: expired_at_def not_le)
  have keeps: "live_claims view s3 (lease_id r) = live_claims view s2 (lease_id r)" if "trimmed view B clock' s2 s3"
    using that c(1) ne unfolding trimmed_def by (metis option.inject)
  show ?thesis
    using again(1)
  proof (cases rule: acquire_cases)
    case (find_failed e)
    then show ?thesis using find_by_key_effect(1) [OF laws find_failed(1)] keeps by auto
  next
    case (replayed r')
    note fe = find_by_key_effect [OF laws replayed(1)]
    show ?thesis using fe(1) fe(3) [OF refl] keeps replayed(2) by auto
  next
    case (started pl s4 q s5)
    then show ?thesis using find_by_key_effect(2) [OF laws started(4) refl c(1,3)] ne by blast
  qed simp
qed

lemma acquire_idempotent_witness:
  "\<exists>s1 s3. acquire_lease sample_backend (\<lambda>_. 1000) 1000 ''a'' [] alice sample_acquire_request empty_state = (Inr (sample_record, False), s1)
    \<and> acquire_lease sample_backend (\<lambda>_. 2000) 2000 ''b'' [] alice sample_acquire_request s1 = (Inr (sample_record, True), s3)
    \<and> trimmed store_view sample_backend (\<lambda>_. 2000) s1 s3"
proof -
  obtain s1 where a: "acquire_lease sample_backend (\<lambda>_. 1000) 1000 ''a'' [] alice sample_acquire_request empty_state = (Inr (sample_record, False), s1)"
    by (rule sample_acquired)
  have "fst (acquire_lease sample_backend (\<lambda>_. 2000) 2000 ''b'' [] alice sample_acquire_request
      (snd (acquire_lease sample_backend (\<lambda>_. 1000) 1000 ''a'' [] alice sample_acquire_request empty_state))) = Inr (sample_record, True)"
    by code_simp
  then obtain s3 where b: "acquire_lease sample_backend (\<lambda>_. 2000) 2000 ''b'' [] alice sample_acquire_request s1 = (Inr (sample_record, True), s3)"
    by (cases "acquire_lease sample_backend (\<lambda>_. 2000) 2000 ''b'' [] alice sample_acquire_request s1") (auto simp: a)
  have u: "\<forall>i. (\<lambda>_. 2000) (i :: nat) < lease_expires_at sample_record" by (simp add: sample_record_def fresh_record_def wrap64_id)
  from acquire_idempotent [OF sample_laws a sample_time_laws refl u b refl] a b show ?thesis by blast
qed

text \<open>
  The API server is decisive when a create that fails has not created and a delete does not
  fail.
\<close>

definition decisive :: "'k kube \<Rightarrow> ('k \<Rightarrow> string \<rightharpoonup> claim) \<Rightarrow> bool" where
  "decisive K view \<longleftrightarrow> (\<forall>c k e k'. kb_create K c k = (Inl e, k') \<longrightarrow> view k' = view k)
     \<and> (\<forall>n k e k'. kb_delete K n k = (Inl e, k') \<longrightarrow> e = Kube_not_found)"

lemma decisive_delete: "decisive (bk_kube B) view \<Longrightarrow> delete_claim B n s = (r, s') \<Longrightarrow> r = Inr ()"
  by (fastforce simp: decisive_def delete_claim_def split: prod.splits sum.splits)


lemma store_decisive: "decisive (bk_kube sample_backend) store_view"
  by (auto simp: decisive_def store_kube_def split: if_split_asm)

definition wrong_runtime :: "store backend" where
  "wrong_runtime = sample_backend\<lparr>bk_pools := [''p'' \<mapsto> sample_pool\<lparr>pl_runtime_class := ''kata''\<rparr>]\<rparr>"


end
