(* ===== verification/Kube_Sweep.thy ===== *)
theory Kube_Sweep
  imports Kube_Acquire
begin

text \<open>The expiry sweep and the listing of leases.\<close>

section \<open>Sweep\<close>

definition due :: "'k backend \<Rightarrow> time \<Rightarrow> claim \<Rightarrow> bool" where
  "due B t c \<longleftrightarrow> (\<exists>r. record_from_claim B c = Inr r \<and> lease_expires_at r \<le> t)"

lemma due_static [simp]: "due B t (static c) = due B t c"
  by (simp add: due_def)

lemma cancel_all_registered [simp]: "registered_of (cancel_all S m) l = registered_of m l"
  by (rule phase_sets_cong(2)) simp

lemma stop_and_wait_idle:
  assumes "stop_and_wait lid waited s = (r, s')" and inv: "tm_inv (bs_transfers s)" and "idle n (bs_transfers s)"
  shows "idle n (bs_transfers s')"
proof -
  let ?m = "snd (stop_lease lid (bs_transfers s))"
  have b: "tm_blocked ?m n" "registered_of ?m n = {}"
    using assms(3) phase_sets_cong(2) [of ?m "bs_transfers s" n] by (auto simp: idle_def stop_lease_def Let_def)
  have "tm_blocked (fold finish js ?m) n \<and> registered_of (fold finish js ?m) n = {}" for js
    using fold_finish [OF stop_lease_inv [OF inv, of lid], where l = n and js = js] b by auto
  then show ?thesis
    using stop_and_wait_effect(4) [OF assms(1)] b by (auto simp: idle_def finish_all_def)
qed

lemma sweep_loop_effect:
  assumes laws: "kube_laws (bk_kube B) view"
  shows "sweep_loop B (\<lambda>_. t) waited i items s = (Inr (), s') \<Longrightarrow> tm_inv (bs_transfers s) \<Longrightarrow>
    tm_inv (bs_transfers s')
    \<and> (\<forall>n. live_claims view s' n = (if \<exists>c \<in> set items. cl_name c = n \<and> \<not> cl_deleting c \<and> due B t c then None else live_claims view s n))
    \<and> (\<forall>n. idle n (bs_transfers s) \<or> (\<exists>c \<in> set items. cl_name c = n \<and> \<not> cl_deleting c \<and> due B t c) \<longrightarrow> idle n (bs_transfers s'))"
proof (induction items arbitrary: i s)
  case (Cons c cs)
  show ?case
  proof (cases "cl_deleting c")
    case True
    then show ?thesis using Cons by auto
  next
    case alive: False
    then obtain r where r: "record_from_claim B c = Inr r"
      using Cons.prems(1) by (cases "record_from_claim B c") auto
    have id: "lease_id r = cl_name c" by (rule record_name [OF r])
    show ?thesis
    proof (cases "lease_expires_at r \<le> t")
      case False
      then have "\<not> due B t c" by (simp add: due_def r)
      moreover have "sweep_loop B (\<lambda>_. t) waited (Suc i) cs s = (Inr (), s')"
        using Cons.prems(1) alive r False by simp
      ultimately show ?thesis using Cons.IH [OF _ Cons.prems(2)] by auto
    next
      case True
      then have d: "due B t c" by (simp add: due_def r)
      obtain q s1 where st: "stop_and_wait (cl_name c) (waited i) s = (q, s1)" by fastforce
      obtain p s2 where de: "delete_claim B (cl_name c) s1 = (p, s2)" by fastforce
      have "q = Inr () \<and> p = Inr () \<and> sweep_loop B (\<lambda>_. t) waited (Suc i) cs s2 = (Inr (), s')"
        using Cons.prems(1) alive r True by (cases q; cases p) (auto simp: id st de)
      then have q: "q = Inr ()" and p: "p = Inr ()" and rest: "sweep_loop B (\<lambda>_. t) waited (Suc i) cs s2 = (Inr (), s')" by auto
      note so = stop_and_wait_ok [OF Cons.prems(2) st]
      note eff = delete_claim_effect [OF laws de]
      have inv2: "tm_inv (bs_transfers s2)" using so(1) eff(1) by simp
      have l2: "live_claims view s2 = (live_claims view s)(cl_name c := None)" using so(3) eff(2) [OF p] by simp
      have idle2: "idle n (bs_transfers s) \<or> n = cl_name c \<Longrightarrow> idle n (bs_transfers s2)" for n
        using so(2) [OF q] stop_and_wait_idle [OF st Cons.prems(2), of n] eff(1) by auto
      note IH = Cons.IH [OF rest inv2]
      show ?thesis
        using IH l2 idle2 d alive by auto
    qed
  qed
qed simp

text \<open>What a successful sweep does.\<close>

lemma sweep_removes:
  assumes laws: "kube_laws (bk_kube B) view" and inv: "tm_inv (bs_transfers s)"
    and ok: "sweep_expired B (\<lambda>_. t) waited s = (Inr (), s')"
  shows "\<forall>n. live_claims view s' n = (case live_claims view s n of None \<Rightarrow> None
      | Some c \<Rightarrow> if cl_labels c managed_label = Some ''true'' \<and> due B t c then None else Some c)
    \<and> (\<forall>c. live_claims view s n = Some c \<and> cl_labels c managed_label = Some ''true'' \<and> due B t c \<longrightarrow> idle n (bs_transfers s'))"
proof -
  let ?sel = "[(managed_label, ''true'')]"
  obtain q s1 where c0: "call internal (kb_list (bk_kube B) ?sel 0 []) s = (q, s1)" by fastforce
  obtain items nxt where c: "call internal (kb_list (bk_kube B) ?sel 0 []) s = (Inr (items, nxt), s1)"
    using ok c0 by (cases q) (auto simp: sweep_expired_def)
  note l = list_call [OF laws c]
  have loop: "sweep_loop B (\<lambda>_. t) waited 0 items s1 = (Inr (), s')" using ok c by (simp add: sweep_expired_def)
  have inv1: "tm_inv (bs_transfers s1)" using l(1) inv by (simp add: same_state_def)
  note e = sweep_loop_effect [OF laws loop inv1]
  have iff: "(\<exists>c \<in> set items. cl_name c = n \<and> \<not> cl_deleting c \<and> due B t c)
      \<longleftrightarrow> (\<exists>c. live_claims view s n = Some c \<and> cl_labels c managed_label = Some ''true'' \<and> due B t c)" (is "?a \<longleftrightarrow> ?b") for n
  proof
    assume ?a
    then obtain c where c: "c \<in> set items" "cl_name c = n" "\<not> cl_deleting c" "due B t c" by blast
    then have "live_claims view s n = Some (static c)" "matches ?sel c" using l(3) by auto
    then show ?b using c(4) by (intro exI [of _ "static c"]) (simp add: matches_def)
  next
    assume ?b
    then obtain c where c: "live_claims view s n = Some c" "cl_labels c managed_label = Some ''true''" "due B t c" by blast
    then have "matches ?sel c" by (simp add: matches_def)
    then obtain d where d: "d \<in> set items" "cl_name d = n" "static d = c" using l(5) [OF refl refl c(1)] by blast
    have "\<not> cl_deleting c" using c(1) by (auto simp: live_claims_def live_of_def split: option.splits if_split_asm)
    then show ?a using d c(3) by auto
  qed
  have l1: "live_claims view s1 = live_claims view s" using l(1) by (simp add: same_state_def)
  show ?thesis using e unfolding iff l1 by (auto split: option.splits)
qed

text \<open>
  C39. The expiry sweep is exact: when it succeeds, the managed claims that have expired at the
  time of the sweep are gone and their transfers stopped for good, and every other live claim
  is untouched.
\<close>

theorem sweep_exact:
  assumes laws: "kube_laws (bk_kube B) view" and inv: "tm_inv (bs_transfers s)"
    and ok: "sweep_expired B (\<lambda>_. t) waited s = (Inr (), s')"
  shows "\<forall>n. live_claims view s' n = (case live_claims view s n of None \<Rightarrow> None
      | Some c \<Rightarrow> if cl_labels c managed_label = Some ''true'' \<and> due B t c then None else Some c)
    \<and> (\<forall>c. live_claims view s n = Some c \<and> cl_labels c managed_label = Some ''true'' \<and> due B t c \<longrightarrow> idle n (bs_transfers s'))"
  by (rule sweep_removes [OF laws inv ok])

definition swept_state :: "store bstate" where
  "swept_state = snd (sweep_expired sample_backend (\<lambda>_. 60000001000) (\<lambda>_. True) leased_state)"

lemma sweep_exact_witness:
  "sweep_expired sample_backend (\<lambda>_. 60000001000) (\<lambda>_. True) leased_state = (Inr (), swept_state)
   \<and> live_claims store_view leased_state ''lease-61'' = Some sample_claim \<and> live_claims store_view swept_state ''lease-61'' = None"
proof -
  have "fst (sweep_expired sample_backend (\<lambda>_. 60000001000) (\<lambda>_. True) leased_state) = Inr ()" by code_simp
  then have s: "sweep_expired sample_backend (\<lambda>_. 60000001000) (\<lambda>_. True) leased_state = (Inr (), swept_state)"
    by (simp add: swept_state_def prod_eq_iff)
  have inv: "tm_inv (bs_transfers leased_state)" by (simp add: sample_tm_inv_start tm_init_inv [OF tm_sample_init])
  have "map_sum id lease_expires_at (record_from_claim sample_backend sample_claim) = Inr 60000001000" by code_simp
  then have d: "due sample_backend 60000001000 sample_claim" by (cases "record_from_claim sample_backend sample_claim") (auto simp: due_def)
  have m: "cl_labels sample_claim managed_label = Some ''true''" by code_simp
  show ?thesis
    using sweep_exact [OF sample_laws inv s, THEN spec, of "''lease-61''"] s d m by (simp add: sample_live)
qed

text \<open>
  One damaged claim stops the sweep: whatever expired leases come after it, a managed claim
  whose times cannot be parsed makes every sweep fail at that claim and end none of them.
\<close>

theorem sweep_stops_at_damage:
  assumes "\<not> cl_deleting bad" and "record_from_claim B bad = Inl e"
    and items: "kb_list (bk_kube B) [(managed_label, ''true'')] 0 [] (bs_cluster s) = (Inr (bad # rest, next), k)"
  shows "sweep_expired B clock waited s = (Inl e, s\<lparr>bs_cluster := k\<rparr>)"
  using assms by (simp add: sweep_expired_def call_def)

definition damaged_state :: "store bstate" where
  "damaged_state = leased_state\<lparr>bs_cluster := sample_claim\<lparr>cl_name := ''x'', cl_annotations := Map.empty\<rparr> # bs_cluster leased_state\<rparr>"

lemma sweep_stops_at_damage_witness:
  "fst (sweep_expired sample_backend (\<lambda>_. 60000001000) (\<lambda>_. True) damaged_state) = Inl Internal"
proof -
  let ?bad = "sample_claim\<lparr>cl_name := ''x'', cl_annotations := Map.empty\<rparr>"
  have "cl_name sample_claim = ''lease-61''" "\<not> cl_deleting sample_claim"
    by (simp_all add: sample_claim_def build_claim_def sample_record_def fresh_record_def Let_def)
  moreover have "matches [(managed_label, ''true'')] sample_claim" by code_simp
  ultimately have l: "kb_list (bk_kube sample_backend) [(managed_label, ''true'')] 0 [] (bs_cluster damaged_state)
      = (Inr (?bad # bs_cluster leased_state, []), bs_cluster damaged_state)"
    by (simp add: damaged_state_def store_kube_def leased_state_def matches_def)
  have r: "record_from_claim sample_backend ?bad = Inl Internal"
    by (simp add: record_from_claim_def str_of_def sample_times_def)
  show ?thesis
    using sweep_stops_at_damage [OF _ r l] \<open>\<not> cl_deleting sample_claim\<close> by simp
qed

section \<open>List\<close>

lemma page_records_effect:
  "page_records B as_of items = Inr rs \<Longrightarrow> length rs \<le> length items
   \<and> (\<forall>r \<in> set rs. \<exists>c \<in> set items. \<not> cl_deleting c \<and> record_from_claim B c = Inr r \<and> as_of < lease_expires_at r)
   \<and> (\<forall>c \<in> set items. cl_deleting c \<or> (\<exists>r. record_from_claim B c = Inr r \<and> (r \<in> set rs \<or> lease_expires_at r \<le> as_of)))"
proof (induction items arbitrary: rs)
  case (Cons c cs)
  then show ?case by (fastforce split: if_split_asm sum.splits simp: not_le)
qed simp

text \<open>
  A page shows the caller's own leases: at most as many as asked for, each a live claim of
  the caller (and of the pool, when one is named) that has not expired at the time the listing
  began; and the cursor of the page leads back to the same request at the same time, and is
  invalid for a caller with another scope digest, another pool or another limit.
\<close>

theorem list_page_sound:
  assumes laws: "kube_laws (bk_kube B) view" and ok: "list_leases B now (Some n) scope rq s = (Inr page, s')"
    and start: "page_start B now scope rq = Inr (as_of, cont)"
    and aead: "aead_laws (cc_aead (bk_codec B))" "\<And>next. cc_unmarshal (bk_codec B) (cc_marshal (bk_codec B) (cursor_payload (bk_codec B) scope (lq_pool rq) (lq_limit rq) as_of next))
        = Some (cursor_payload (bk_codec B) scope (lq_pool rq) (lq_limit rq) as_of next)"
    and nonce: "length n = nonce_size (cc_aead (bk_codec B))" and range: "0 < as_of" "as_of < 2 ^ 63"
  shows "same_state view s s' \<and> int (length (page_leases page)) \<le> lq_limit rq
    \<and> (\<forall>r \<in> set (page_leases page). as_of < lease_expires_at r \<and> (\<exists>c. live_claims view s (lease_id r) = Some c \<and> belongs B scope c
        \<and> record_from_claim B c = Inr r
        \<and> (lq_pool rq \<noteq> [] \<longrightarrow> cl_labels c pool_hash_label = Some (pool_hash (bk_identity B) (lq_pool rq)))))
    \<and> (\<forall>v. page_next_cursor page = Some v \<and> v \<noteq> [] \<and> length v \<le> max_list_cursor_bytes \<longrightarrow>
        (\<exists>next. next \<noteq> [] \<and> page_start B now' scope (rq\<lparr>lq_cursor := v\<rparr>) = Inr (as_of, next))
        \<and> (\<forall>scope' pool' limit'. scope_hash (cc_identity (bk_codec B)) scope' \<noteq> scope_hash (cc_identity (bk_codec B)) scope
             \<or> pool_digest (bk_codec B) pool' \<noteq> pool_digest (bk_codec B) (lq_pool rq) \<or> limit' \<noteq> lq_limit rq
            \<longrightarrow> decode_cursor (bk_codec B) v scope' pool' limit' = Inl invalid_cursor))"
proof -
  let ?f = "\<lambda>e. if cont \<noteq> [] \<and> e = Kube_expired then LeaseError 410 ''CURSOR_EXPIRED'' else Internal"
  have lim: "1 \<le> lq_limit rq" and pool: "\<not> (lq_pool rq \<noteq> [] \<and> bk_pools B (lq_pool rq) = None)"
    using ok by (auto simp: list_leases_def split: if_split_asm)
  obtain q s1 where c0: "call ?f (kb_list (bk_kube B) (scope_selector B scope (lq_pool rq)) (lq_limit rq) cont) s = (q, s1)" by fastforce
  obtain v0 where "q = Inr v0"
    using ok lim pool c0 by (cases q) (auto simp: list_leases_def start split: if_split_asm)
  then obtain items nxt where c: "call ?f (kb_list (bk_kube B) (scope_selector B scope (lq_pool rq)) (lq_limit rq) cont) s = (Inr (items, nxt), s1)"
    using c0 by (cases v0) auto
  note l = list_call [OF laws c]
  have body: "(case page_records B as_of items of Inl e \<Rightarrow> (Inl e, s1)
      | Inr rs \<Rightarrow> if nxt = [] then (Inr \<lparr>page_leases = rs, page_next_cursor = None\<rparr>, s1)
        else case encode_cursor (bk_codec B) (Some n) scope (lq_pool rq) (lq_limit rq) as_of nxt of
            Inl e \<Rightarrow> (Inl e, s1) | Inr v \<Rightarrow> (Inr \<lparr>page_leases = rs, page_next_cursor = Some v\<rparr>, s1)) = (Inr page, s')"
    using ok pool by (auto simp: list_leases_def start c split: if_split_asm)
  obtain rs where rs: "page_records B as_of items = Inr rs" "page_leases page = rs" and s': "s' = s1"
    and cur: "\<And>v. page_next_cursor page = Some v \<Longrightarrow>
      nxt \<noteq> [] \<and> encode_cursor (bk_codec B) (Some n) scope (lq_pool rq) (lq_limit rq) as_of nxt = Inr v"
    using body by (auto split: sum.splits if_split_asm)
  note pr = page_records_effect [OF rs(1)]
  have own: "as_of < lease_expires_at r \<and> (\<exists>c. live_claims view s (lease_id r) = Some c \<and> belongs B scope c
        \<and> record_from_claim B c = Inr r \<and> (lq_pool rq \<noteq> [] \<longrightarrow> cl_labels c pool_hash_label = Some (pool_hash (bk_identity B) (lq_pool rq))))"
    if mem: "r \<in> set rs" for r
  proof -
    obtain d where d: "d \<in> set items" "\<not> cl_deleting d" "record_from_claim B d = Inr r" "as_of < lease_expires_at r"
      using pr mem by blast
    then have m: "matches (scope_selector B scope (lq_pool rq)) d" "live_claims view s (cl_name d) = Some (static d)" using l(3) by auto
    have "cl_labels d managed_label = Some ''true''" "cl_labels d scope_label = Some (scope_hash (bk_identity B) scope)"
      "lq_pool rq \<noteq> [] \<longrightarrow> cl_labels d pool_hash_label = Some (pool_hash (bk_identity B) (lq_pool rq))"
      using m(1) by (auto simp: matches_def scope_selector_def split: if_split_asm)
    then show ?thesis
      using d m(2) record_name [OF d(3)]
      by (intro conjI exI [of _ "static d"]) (simp_all add: belongs_def str_of_def)
  qed
  have cursor: "(\<exists>next. next \<noteq> [] \<and> page_start B now' scope (rq\<lparr>lq_cursor := v\<rparr>) = Inr (as_of, next))
        \<and> (\<forall>scope' pool' limit'. scope_hash (cc_identity (bk_codec B)) scope' \<noteq> scope_hash (cc_identity (bk_codec B)) scope
             \<or> pool_digest (bk_codec B) pool' \<noteq> pool_digest (bk_codec B) (lq_pool rq) \<or> limit' \<noteq> lq_limit rq
            \<longrightarrow> decode_cursor (bk_codec B) v scope' pool' limit' = Inl invalid_cursor)"
    if v: "page_next_cursor page = Some v" "v \<noteq> []" "length v \<le> max_list_cursor_bytes" for v
  proof -
    have w: "wrap64 as_of = as_of" using range by (intro wrap64_id) simp_all
    note dec = decode_encode [OF aead nonce conjunct2 [OF cur [OF v(1)]] v(2,3), unfolded w]
    show ?thesis
      using dec cur [OF v(1)] v(2) range(1)
      by (intro conjI exI [of _ nxt]) (auto simp: page_start_def cursor_payload_def w)
  qed
  have "int (length rs) \<le> lq_limit rq" using pr l(4) lim by linarith
  then show ?thesis using l(1) own cursor rs(2) s' by blast
qed

definition two_leases :: "store bstate" where
  "two_leases = leased_state\<lparr>bs_cluster := sample_claim\<lparr>cl_name := ''lease-62''\<rparr> # bs_cluster leased_state\<rparr>"

definition first_page :: list_request where
  "first_page = \<lparr>lq_pool = [], lq_limit = 1, lq_cursor = []\<rparr>"

lemma list_page_sound_witness:
  "\<exists>page s' v. list_leases sample_backend 2000 (Some ''n'') alice first_page two_leases = (Inr page, s')
    \<and> map lease_id (page_leases page) = [''lease-62''] \<and> page_next_cursor page = Some v
    \<and> (\<exists>next. page_start sample_backend 3000 alice (first_page\<lparr>lq_cursor := v\<rparr>) = Inr (2000, next))"
proof -
  let ?r = "list_leases sample_backend 2000 (Some ''n'') alice first_page two_leases"
  have f: "map_sum id (\<lambda>p. (map lease_id (page_leases p), page_next_cursor p)) (fst ?r)
      = Inr ([''lease-62''], Some (b64_encode raw_url_encoding (''nt'' @ ''more'')))" by code_simp
  then obtain page s' where r: "?r = (Inr page, s')" by (cases ?r; cases "fst ?r") auto
  have c: "map lease_id (page_leases page) = [''lease-62'']" "page_next_cursor page = Some (b64_encode raw_url_encoding (''nt'' @ ''more''))"
    using f by (simp_all add: r)
  have v: "b64_encode raw_url_encoding (''nt'' @ ''more'') = ''bnRtb3Jl''" by code_simp
  have st: "page_start sample_backend 2000 alice first_page = Inr (2000, [])" by (simp add: page_start_def first_page_def)
  have a: "aead_laws (cc_aead (bk_codec sample_backend))" by (simp add: aead_laws_def sample_codec_def)
  have u: "cc_unmarshal (bk_codec sample_backend) (cc_marshal (bk_codec sample_backend)
      (cursor_payload (bk_codec sample_backend) alice (lq_pool first_page) (lq_limit first_page) 2000 nxt))
    = Some (cursor_payload (bk_codec sample_backend) alice (lq_pool first_page) (lq_limit first_page) 2000 nxt)" for nxt
    by (simp add: sample_codec_def cursor_payload_def first_page_def pool_digest_def wrap64_id)
  have "length ''bnRtb3Jl'' \<le> max_list_cursor_bytes" by (simp add: max_list_cursor_bytes_def)
  then show ?thesis
    using list_page_sound [OF sample_laws r st a u, where now' = 3000] r c v
    by (fastforce simp: sample_codec_def)
qed

end
