(* ===== verification/Subject_Auth.thy ===== *)
theory Subject_Auth
  imports Lease_Types
begin

text \<open>
  Subject tokens (\<open>apps/control-plane-go/internal/auth/auth.go\<close>): \<open>v1.payload.signature\<close>, both parts
  in unpadded base64url. HMAC-SHA256 and the parsing of the JSON claims are functions given to
  the verifier.
\<close>

record token_claims =
  tc_consumer :: string
  tc_subject :: string
  tc_expires :: int

definition unauthorized :: lease_error where
  "unauthorized = LeaseError 401 ''UNAUTHORIZED''"

definition valid_token_identity :: "string \<Rightarrow> bool" where
  "valid_token_identity v = (0 < length v \<and> length v \<le> 200 \<and> \<not> blank v)"

definition signature :: "(bytes \<Rightarrow> bytes \<Rightarrow> bytes) \<Rightarrow> string \<Rightarrow> string \<Rightarrow> string" where
  "signature hmac val secret = b64_encode raw_url_encoding (hmac secret val)"

text \<open>\<open>Time.Unix\<close>: whole seconds, rounded down.\<close>

definition unix :: "time \<Rightarrow> int" where
  "unix t = t div second"

record token_env =
  te_hmac :: "bytes \<Rightarrow> bytes \<Rightarrow> bytes"
  te_claims :: "bytes \<Rightarrow> token_claims option"
  te_secrets :: "string \<Rightarrow> string option"

definition verify_subject_token :: "token_env \<Rightarrow> string \<Rightarrow> time \<Rightarrow> int \<Rightarrow> lease_error + lease_scope" where
  "verify_subject_token env token now max_ttl =
     (let parts = split_on CHR ''.'' token in
      if length parts \<noteq> 3 \<or> parts ! 0 \<noteq> ''v1'' then Inl unauthorized
      else case b64_decode raw_url_encoding (parts ! 1) of None \<Rightarrow> Inl unauthorized
      | Some payload \<Rightarrow> (case te_claims env payload of None \<Rightarrow> Inl unauthorized
      | Some v \<Rightarrow>
         if \<not> valid_token_identity (tc_consumer v) \<or> \<not> valid_token_identity (tc_subject v) then Inl unauthorized
         else if tc_expires v \<le> unix now \<or> tc_expires v > unix (now + max_ttl) then Inl unauthorized
         else case te_secrets env (tc_consumer v) of None \<Rightarrow> Inl unauthorized
         | Some secret \<Rightarrow>
            if secret = [] then Inl unauthorized
            else if parts ! 2 \<noteq> signature (te_hmac env) (parts ! 0 @ ''.'' @ parts ! 1) secret then Inl unauthorized
            else Inr \<lparr>consumer_id = tc_consumer v, subject_id = tc_subject v\<rparr>))"

text \<open>What a holder of a consumer's secret makes of a payload.\<close>

definition mint_token :: "(bytes \<Rightarrow> bytes \<Rightarrow> bytes) \<Rightarrow> string \<Rightarrow> bytes \<Rightarrow> string" where
  "mint_token hmac secret payload =
     (let p = b64_encode raw_url_encoding payload in ''v1.'' @ p @ ''.'' @ signature hmac (''v1.'' @ p) secret)"

lemma raw_url_no_dot: "CHR ''.'' \<notin> set (b64_encode raw_url_encoding x)"
  using b64_encode_chars [OF well_formed_raw_url, of "CHR ''.''" x]
  by (auto simp: raw_url_encoding_def letters_def)

lemma split_token:
  "split_on CHR ''.'' token = [a, b, c] \<longleftrightarrow> token = a @ ''.'' @ b @ ''.'' @ c \<and> CHR ''.'' \<notin> set a \<and> CHR ''.'' \<notin> set b \<and> CHR ''.'' \<notin> set c"
proof
  assume s: "split_on CHR ''.'' token = [a, b, c]"
  have "token = join_with [CHR ''.''] [a, b, c]" using join_split [of "CHR ''.''" token] s by simp
  then show "token = a @ ''.'' @ b @ ''.'' @ c \<and> CHR ''.'' \<notin> set a \<and> CHR ''.'' \<notin> set b \<and> CHR ''.'' \<notin> set c"
    using split_on_no_sep [of _ "CHR ''.''" token] s by auto
qed (auto simp: split_on_append_sep split_on_free)

lemma length_three: "length xs = 3 \<longleftrightarrow> (\<exists>a b c. xs = [a, b, c])"
  by (auto simp: length_Suc_conv numeral_eq_Suc)

lemma verify_parts:
  "verify_subject_token env token now max_ttl = Inr scope \<longleftrightarrow>
     (\<exists>p s payload v secret. split_on CHR ''.'' token = [''v1'', p, s] \<and> b64_decode raw_url_encoding p = Some payload
        \<and> te_claims env payload = Some v \<and> te_secrets env (tc_consumer v) = Some secret \<and> secret \<noteq> []
        \<and> s = signature (te_hmac env) (''v1.'' @ p) secret \<and> scope = \<lparr>consumer_id = tc_consumer v, subject_id = tc_subject v\<rparr>
        \<and> valid_token_identity (tc_consumer v) \<and> valid_token_identity (tc_subject v)
        \<and> unix now < tc_expires v \<and> tc_expires v \<le> unix (now + max_ttl))"
  (is "?v \<longleftrightarrow> ?p")
proof
  assume v: ?v
  then have "length (split_on CHR ''.'' token) = 3"
    unfolding verify_subject_token_def Let_def by (simp split: if_split_asm)
  then obtain a b c where parts: "split_on CHR ''.'' token = [a, b, c]" by (auto simp: length_three)
  show ?p
    using v unfolding verify_subject_token_def Let_def parts
    by (auto split: if_split_asm option.splits simp: not_le not_less)
next
  assume ?p
  then show ?v by (auto simp: verify_subject_token_def Let_def)
qed

text \<open>
  C16. A token is accepted exactly when it carries the signature, under the secret configured
  for the consumer it names, of its own version and payload text, the payload names that
  consumer and the subject of the resulting scope, both valid, and its expiry lies after now
  and at most the maximum time to live ahead. Tokens minted with the secret of a consumer are
  accepted for that consumer's subjects while these conditions on the claims hold.
\<close>

theorem subject_token_exact:
  "(verify_subject_token env token now max_ttl = Inr scope \<longleftrightarrow>
     (\<exists>p payload v secret. CHR ''.'' \<notin> set p \<and> token = ''v1.'' @ p @ ''.'' @ signature (te_hmac env) (''v1.'' @ p) secret
        \<and> b64_decode raw_url_encoding p = Some payload \<and> te_claims env payload = Some v
        \<and> te_secrets env (tc_consumer v) = Some secret \<and> secret \<noteq> []
        \<and> scope = \<lparr>consumer_id = tc_consumer v, subject_id = tc_subject v\<rparr>
        \<and> valid_token_identity (tc_consumer v) \<and> valid_token_identity (tc_subject v)
        \<and> unix now < tc_expires v \<and> tc_expires v \<le> unix (now + max_ttl)))
   \<and> (te_claims env payload' = Some v' \<and> te_secrets env (tc_consumer v') = Some secret' \<and> secret' \<noteq> []
        \<and> valid_token_identity (tc_consumer v') \<and> valid_token_identity (tc_subject v')
        \<and> unix now < tc_expires v' \<and> tc_expires v' \<le> unix (now + max_ttl)
      \<longrightarrow> verify_subject_token env (mint_token (te_hmac env) secret' payload') now max_ttl
          = Inr \<lparr>consumer_id = tc_consumer v', subject_id = tc_subject v'\<rparr>)"
proof (intro conjI impI)
  have split: "split_on CHR ''.'' token = [''v1'', p, signature (te_hmac env) (''v1.'' @ p) secret]
      \<longleftrightarrow> CHR ''.'' \<notin> set p \<and> token = ''v1.'' @ p @ ''.'' @ signature (te_hmac env) (''v1.'' @ p) secret" for p secret
    using raw_url_no_dot by (auto simp: split_token signature_def)
  then show "verify_subject_token env token now max_ttl = Inr scope \<longleftrightarrow>
     (\<exists>p payload v secret. CHR ''.'' \<notin> set p \<and> token = ''v1.'' @ p @ ''.'' @ signature (te_hmac env) (''v1.'' @ p) secret
        \<and> b64_decode raw_url_encoding p = Some payload \<and> te_claims env payload = Some v
        \<and> te_secrets env (tc_consumer v) = Some secret \<and> secret \<noteq> []
        \<and> scope = \<lparr>consumer_id = tc_consumer v, subject_id = tc_subject v\<rparr>
        \<and> valid_token_identity (tc_consumer v) \<and> valid_token_identity (tc_subject v)
        \<and> unix now < tc_expires v \<and> tc_expires v \<le> unix (now + max_ttl))"
    unfolding verify_parts by blast
next
  let ?p = "b64_encode raw_url_encoding payload'"
  assume "te_claims env payload' = Some v' \<and> te_secrets env (tc_consumer v') = Some secret' \<and> secret' \<noteq> []
        \<and> valid_token_identity (tc_consumer v') \<and> valid_token_identity (tc_subject v')
        \<and> unix now < tc_expires v' \<and> tc_expires v' \<le> unix (now + max_ttl)"
  moreover have "split_on CHR ''.'' (mint_token (te_hmac env) secret' payload')
      = [''v1'', ?p, signature (te_hmac env) (''v1.'' @ ?p) secret']"
    unfolding split_token using raw_url_no_dot by (simp add: mint_token_def signature_def Let_def)
  ultimately show "verify_subject_token env (mint_token (te_hmac env) secret' payload') now max_ttl
          = Inr \<lparr>consumer_id = tc_consumer v', subject_id = tc_subject v'\<rparr>"
    unfolding verify_parts using b64_round_trip [OF well_formed_raw_url] by blast
qed

definition sample_tokens :: token_env where
  "sample_tokens = \<lparr>te_hmac = (\<lambda>k x. k @ rev x), te_claims = (\<lambda>b. Some \<lparr>tc_consumer = ''c'', tc_subject = b, tc_expires = 100\<rparr>),
     te_secrets = [''c'' \<mapsto> ''key'']\<rparr>"

lemma subject_token_exact_witness:
  "verify_subject_token sample_tokens (mint_token (te_hmac sample_tokens) ''key'' ''alice'') 50000000000 300000000000
   = Inr \<lparr>consumer_id = ''c'', subject_id = ''alice''\<rparr>"
proof -
  have "valid_token_identity ''c''" "valid_token_identity ''alice''" by code_simp+
  then show ?thesis
    using subject_token_exact [where env = sample_tokens and payload' = "''alice''" and secret' = "''key''" and now = 50000000000
        and max_ttl = 300000000000 and v' = "\<lparr>tc_consumer = ''c'', tc_subject = ''alice'', tc_expires = 100\<rparr>"]
    by (simp add: sample_tokens_def unix_def)
qed

end
