(* ===== verification/Http_Api.thy ===== *)
theory Http_Api
  imports Subject_Auth File_Transfer
begin

text \<open>
  The HTTP server of the control plane (\<open>apps/control-plane-go/internal/httpapi/server.go\<close>):
  routing, validation, authentication, the calls of the backend and the responses. A request
  is given by what the server reads of it; the URL's path is already decoded once, as
  \<open>net/http\<close> delivers it. The backend is a record of operations on a state, the interface
  \<open>lease.Backend\<close> of \<open>lease.go\<close> with the optional \<open>FileTransferBackend\<close>.
\<close>

section \<open>The backend interface\<close>

record 's lease_api =
  api_acquire :: "lease_scope \<Rightarrow> acquire_request \<Rightarrow> 's \<Rightarrow> (lease_error + lease_record \<times> bool) \<times> 's"
  api_list :: "lease_scope \<Rightarrow> list_request \<Rightarrow> 's \<Rightarrow> (lease_error + lease_page) \<times> 's"
  api_get :: "lease_scope \<Rightarrow> string \<Rightarrow> 's \<Rightarrow> (lease_error + lease_record) \<times> 's"
  api_exec :: "lease_scope \<Rightarrow> string \<Rightarrow> exec_request \<Rightarrow> 's \<Rightarrow> (lease_error + exec_result) \<times> 's"
  api_read :: "lease_scope \<Rightarrow> string \<Rightarrow> string \<Rightarrow> string \<Rightarrow> 's \<Rightarrow> (lease_error + bytes \<times> string) \<times> 's"
  api_write :: "lease_scope \<Rightarrow> string \<Rightarrow> string \<Rightarrow> bytes \<Rightarrow> string \<Rightarrow> 's \<Rightarrow> (lease_error + unit) \<times> 's"
  api_release :: "lease_scope \<Rightarrow> string \<Rightarrow> 's \<Rightarrow> (lease_error + lease_record) \<times> 's"
  api_delete :: "lease_scope \<Rightarrow> string \<Rightarrow> 's \<Rightarrow> (lease_error + unit) \<times> 's"
  api_streaming :: bool
  api_open :: "lease_scope \<Rightarrow> string \<Rightarrow> string \<Rightarrow> 's \<Rightarrow> (lease_error + download) \<times> 's"
  api_upload :: "lease_scope \<Rightarrow> string \<Rightarrow> stream_write_request \<Rightarrow> bytes \<Rightarrow> 's \<Rightarrow> (lease_error + nat) \<times> 's"
  api_close_download :: "download \<Rightarrow> 's \<Rightarrow> 's"

section \<open>Requests and responses\<close>

text \<open>
  \<open>hr_query\<close> is the parsed query, \<open>None\<close> when it does not parse, and \<open>hr_values\<close> its well-formed
  part (\<open>URL.Query\<close>), both in the order in which the map is iterated; \<open>hr_media_type\<close> the media type of
  the content type, \<open>None\<close> when that does not parse; a length of -1 is an unknown one.
\<close>

record http_request =
  hr_method :: string
  hr_path :: string
  hr_raw_query :: string
  hr_query :: "(string \<times> string list) list option"
  hr_values :: "(string \<times> string list) list"
  hr_authorization :: string
  hr_idempotency_key :: string
  hr_media_type :: "string option"
  hr_content_length :: int
  hr_content_digest :: string
  hr_body :: bytes

datatype api_body =
    Status_body string
  | Page_body lease_page
  | Acquired_body lease_record bool
  | Lease_body lease_record
  | Exec_body exec_result
  | Read_body string bytes string
  | Path_body string

text \<open>
  A content response has its headers sent first; \<open>complete\<close> is false when the handler then
  aborts the connection.
\<close>

datatype http_response =
    Ok_json int api_body
  | Error_json int string
  | No_content
  | Content (content_size: int) (content_digest: bytes) (content_sent: bytes) (complete: bool)

definition write_error :: "lease_error \<Rightarrow> http_response" where
  "write_error e = (case error_details e of (st, code) \<Rightarrow> Error_json st code)"

section \<open>JSON bodies\<close>

text \<open>
  One JSON value decoded from the start of a text: with the rest, malformed, or incomplete.
\<close>

datatype 'a decoded = Decoded 'a bytes | Malformed | Incomplete

definition max_json_body_size :: nat where "max_json_body_size = 1048576"

definition json_space :: "char \<Rightarrow> bool" where
  "json_space c = (c \<in> {CHR '' '', CHR 0x09, CHR 0x0A, CHR 0x0D})"

definition invalid_json :: lease_error where "invalid_json = LeaseError 400 ''INVALID_JSON''"

definition read_json :: "(bytes \<Rightarrow> 'a decoded) \<Rightarrow> bytes \<Rightarrow> lease_error + 'a" where
  "read_json decode body =
     (let over = length body > max_json_body_size in
      case decode (take max_json_body_size body) of
        Malformed \<Rightarrow> Inl invalid_json
      | Incomplete \<Rightarrow> Inl (if over then LeaseError 413 ''BODY_TOO_LARGE'' else invalid_json)
      | Decoded v rest \<Rightarrow> if over \<or> \<not> list_all json_space rest then Inl invalid_json else Inr v)"

section \<open>Validation\<close>

definition required_header :: "string \<Rightarrow> lease_error + string" where
  "required_header v = (if blank v \<or> length v > 200 then Inl invalid_request else Inr v)"

definition require_encoding :: "string \<Rightarrow> lease_error option" where
  "require_encoding v = (if v \<noteq> [] \<and> v \<noteq> ''utf8'' \<and> v \<noteq> ''base64'' then Some invalid_request else None)"

definition parse_list_request :: "(string \<times> string list) list option \<Rightarrow> lease_error + list_request" where
  "parse_list_request query = (case query of None \<Rightarrow> Inl invalid_request
     | Some q \<Rightarrow>
       if list_ex (\<lambda>(name, vs). name \<notin> {''pool'', ''limit'', ''cursor''} \<or> length vs \<noteq> 1) q then Inl invalid_request
       else if (case map_of q ''pool'' of None \<Rightarrow> False | Some vs \<Rightarrow> blank (vs ! 0)) then Inl invalid_request
       else if (case map_of q ''cursor'' of None \<Rightarrow> False | Some vs \<Rightarrow> blank (vs ! 0) \<or> length (vs ! 0) > max_list_cursor_bytes)
       then Inl (LeaseError 400 ''INVALID_CURSOR'')
       else let rq = \<lparr>lq_pool = (case map_of q ''pool'' of None \<Rightarrow> [] | Some vs \<Rightarrow> vs ! 0), lq_limit = default_list_limit,
                     lq_cursor = (case map_of q ''cursor'' of None \<Rightarrow> [] | Some vs \<Rightarrow> vs ! 0)\<rparr>
         in case map_of q ''limit'' of None \<Rightarrow> Inr rq
          | Some vs \<Rightarrow> (case parse_int64 (vs ! 0) of None \<Rightarrow> Inl invalid_request
              | Some n \<Rightarrow> if itoa n \<noteq> vs ! 0 \<or> n < 1 \<or> n > max_list_limit then Inl invalid_request
                  else Inr (rq\<lparr>lq_limit := n\<rparr>)))"

definition required_file_path :: "(string \<times> string list) list \<Rightarrow> lease_error + string" where
  "required_file_path q = (case map_of q ''path'' of None \<Rightarrow> Inl invalid_request
     | Some vs \<Rightarrow> if length vs \<noteq> 1 \<or> blank (vs ! 0) then Inl invalid_request else Inr (vs ! 0))"

definition format_content_digest :: "bytes \<Rightarrow> string" where
  "format_content_digest d = ''sha-256=:'' @ b64_encode std_encoding d @ '':''"

definition invalid_content_digest :: lease_error where
  "invalid_content_digest = LeaseError 400 ''INVALID_CONTENT_DIGEST''"

definition parse_content_digest :: "string \<Rightarrow> lease_error + bytes" where
  "parse_content_digest v =
     (if \<not> has_prefix v ''sha-256=:'' \<or> \<not> has_suffix v '':'' \<or> count_list v CHR '':'' \<noteq> 2 then Inl invalid_content_digest
      else case b64_decode (strict_form std_encoding) (trim_suffix (drop 9 v) '':'') of
          None \<Rightarrow> Inl invalid_content_digest
        | Some d \<Rightarrow> if length d \<noteq> 32 \<or> format_content_digest d \<noteq> v then Inl invalid_content_digest else Inr d)"

section \<open>Routes\<close>

definition lease_path :: string where "lease_path = ''/v1/leases''"

fun path_unescape :: "string \<Rightarrow> string option" where
  "path_unescape [] = Some []"
| "path_unescape (c # s) =
     (if c \<noteq> CHR 0x25 then map_option (\<lambda>r. c # r) (path_unescape s)
      else case s of a # b # r \<Rightarrow>
          (case (hex_val a, hex_val b) of (Some x, Some y) \<Rightarrow> map_option (\<lambda>r. char_of (16 * x + y) # r) (path_unescape r)
           | _ \<Rightarrow> None)
        | _ \<Rightarrow> None)"

definition match_lease_route :: "string \<Rightarrow> (string \<times> string) option" where
  "match_lease_route path =
     (if \<not> has_prefix path (lease_path @ ''/'') then None
      else let parts = split_on CHR ''/'' (drop (length (lease_path @ ''/'')) path) in
        case path_unescape (hd parts) of None \<Rightarrow> None
        | Some lid \<Rightarrow> if lid = [] then None
            else Some (lid, join_with ''/'' (map (\<lambda>p. case path_unescape p of None \<Rightarrow> [] | Some q \<Rightarrow> q) (tl parts))))"

section \<open>The handlers\<close>

record http_env =
  he_tokens :: token_env
  he_now :: time
  he_ready :: bool
  he_sha256 :: "bytes \<Rightarrow> bytes"
  he_acquire :: "bytes \<Rightarrow> acquire_request decoded"
  he_exec :: "bytes \<Rightarrow> exec_request decoded"
  he_read :: "bytes \<Rightarrow> (string \<times> string) decoded"
  he_write :: "bytes \<Rightarrow> (string \<times> bytes \<times> string) decoded"
  he_read_error :: bool

definition authenticate_request :: "http_env \<Rightarrow> http_request \<Rightarrow> lease_error + lease_scope" where
  "authenticate_request env rq =
     (if \<not> has_prefix (hr_authorization rq) ''Bearer '' then Inl unauthorized
      else verify_subject_token (he_tokens env) (drop 7 (hr_authorization rq)) (he_now env) (5 * minute))"

text \<open>A backend call whose error is written and whose value makes the response.\<close>

definition respond :: "('a \<Rightarrow> http_response) \<Rightarrow> (lease_error + 'a) \<times> 's \<Rightarrow> http_response \<times> 's" where
  "respond f r = ((case fst r of Inl e \<Rightarrow> write_error e | Inr v \<Rightarrow> f v), snd r)"

definition streaming_not_supported :: lease_error where
  "streaming_not_supported = LeaseError 501 ''STREAMING_NOT_SUPPORTED''"

text \<open>
  \<open>readFileContent\<close>: the headers announce size and digest, then at most one byte more than the
  size is copied; \<open>he_read_error\<close> says that the content ends in an error.
\<close>

definition read_file_content ::
  "'s lease_api \<Rightarrow> http_env \<Rightarrow> http_request \<Rightarrow> lease_scope \<Rightarrow> string \<Rightarrow> 's \<Rightarrow> http_response \<times> 's" where
  "read_file_content api env rq scope lid s =
     (case required_file_path (hr_values rq) of Inl e \<Rightarrow> (write_error e, s)
      | Inr path \<Rightarrow>
        if \<not> api_streaming api then (write_error streaming_not_supported, s)
        else case api_open api scope lid path s of
            (Inl e, s) \<Rightarrow> (write_error e, s)
          | (Inr d, s) \<Rightarrow>
             let s' = api_close_download api d s in
             if dl_size d < 0 then (write_error Internal, s')
             else if dl_size d > max_file_transfer_bytes then (write_error transfer_too_large, s')
             else let sent = take (nat (dl_size d + 1)) (dl_content d);
                      failed = (he_read_error env \<and> length (dl_content d) < nat (dl_size d + 1))
               in (Content (dl_size d) (dl_digest d) sent
                     (\<not> failed \<and> int (length sent) = dl_size d \<and> he_sha256 env sent = dl_digest d), s'))"

definition content_length_mismatch :: lease_error where
  "content_length_mismatch = LeaseError 400 ''CONTENT_LENGTH_MISMATCH''"

text \<open>
  \<open>writeFileContent\<close>: the backend reads the body through a limit of the announced length; the
  number of bytes it took comes with its success.
\<close>

definition write_file_content ::
  "'s lease_api \<Rightarrow> http_env \<Rightarrow> http_request \<Rightarrow> lease_scope \<Rightarrow> string \<Rightarrow> 's \<Rightarrow> http_response \<times> 's" where
  "write_file_content api env rq scope lid s =
     (case required_file_path (hr_values rq) of Inl e \<Rightarrow> (write_error e, s)
      | Inr path \<Rightarrow>
        if hr_media_type rq \<noteq> Some ''application/octet-stream'' then (write_error (LeaseError 415 ''UNSUPPORTED_MEDIA_TYPE''), s)
        else if hr_content_length rq < 0 then (write_error (LeaseError 411 ''LENGTH_REQUIRED''), s)
        else if hr_content_length rq > max_file_transfer_bytes then (write_error transfer_too_large, s)
        else case parse_content_digest (hr_content_digest rq) of Inl e \<Rightarrow> (write_error e, s)
          | Inr d \<Rightarrow>
             if \<not> api_streaming api then (write_error streaming_not_supported, s)
             else respond (\<lambda>n.
                 if int n \<noteq> hr_content_length rq then write_error content_length_mismatch
                 else if he_sha256 env (take n (hr_body rq)) \<noteq> d then write_error (LeaseError 422 ''CONTENT_DIGEST_MISMATCH'')
                 else No_content)
               (api_upload api scope lid \<lparr>sw_path = path, sw_size = hr_content_length rq, sw_sha256 = d\<rparr> (hr_body rq) s))"

definition method_not_allowed :: lease_error where
  "method_not_allowed = LeaseError 405 ''METHOD_NOT_ALLOWED''"

text \<open>The collection \<open>/v1/leases\<close>.\<close>

definition serve_collection :: "'s lease_api \<Rightarrow> http_env \<Rightarrow> http_request \<Rightarrow> lease_scope \<Rightarrow> 's \<Rightarrow> http_response \<times> 's" where
  "serve_collection api env rq scope s =
     (if hr_method rq = ''GET'' then
        (case parse_list_request (hr_query rq) of Inl e \<Rightarrow> (write_error e, s)
         | Inr lrq \<Rightarrow> respond (\<lambda>p. Ok_json 200 (Page_body p)) (api_list api scope lrq s))
      else if hr_method rq = ''POST'' then
        (if hr_raw_query rq \<noteq> [] then (write_error invalid_request, s)
         else case read_json (he_acquire env) (hr_body rq) of Inl e \<Rightarrow> (write_error e, s)
         | Inr body \<Rightarrow>
            if blank (aq_pool body) then (write_error invalid_request, s)
            else case required_header (hr_idempotency_key rq) of Inl e \<Rightarrow> (write_error e, s)
            | Inr key \<Rightarrow> respond (\<lambda>(r, replayed). Ok_json 201 (Acquired_body r replayed))
                (api_acquire api scope (body\<lparr>aq_idempotency_key := key\<rparr>) s))
      else (write_error method_not_allowed, s))"

text \<open>One lease and its actions.\<close>

definition serve_lease :: "'s lease_api \<Rightarrow> http_env \<Rightarrow> http_request \<Rightarrow> lease_scope \<Rightarrow> string \<Rightarrow> string \<Rightarrow> 's \<Rightarrow> http_response \<times> 's" where
  "serve_lease api env rq scope lid action s =
     (if hr_method rq = ''GET'' \<and> action = [] then respond (\<lambda>r. Ok_json 200 (Lease_body r)) (api_get api scope lid s)
      else if hr_method rq = ''DELETE'' \<and> action = [] then respond (\<lambda>_. No_content) (api_delete api scope lid s)
      else if hr_method rq = ''POST'' \<and> action = ''exec'' then
        (case read_json (he_exec env) (hr_body rq) of Inl e \<Rightarrow> (write_error e, s)
         | Inr body \<Rightarrow> if blank (xq_command body) then (write_error invalid_request, s)
             else respond (\<lambda>x. Ok_json 200 (Exec_body x)) (api_exec api scope lid body s))
      else if hr_method rq = ''POST'' \<and> action = ''files/read'' then
        (case read_json (he_read env) (hr_body rq) of Inl e \<Rightarrow> (write_error e, s)
         | Inr (path, enc) \<Rightarrow> if blank path then (write_error invalid_request, s)
             else (case require_encoding enc of Some e \<Rightarrow> (write_error e, s)
                | None \<Rightarrow> respond (\<lambda>(c, e). Ok_json 200 (Read_body path c e)) (api_read api scope lid path enc s)))
      else if hr_method rq = ''POST'' \<and> action = ''files/write'' then
        (case read_json (he_write env) (hr_body rq) of Inl e \<Rightarrow> (write_error e, s)
         | Inr (path, content, enc) \<Rightarrow> if blank path then (write_error invalid_request, s)
             else (case require_encoding enc of Some e \<Rightarrow> (write_error e, s)
                | None \<Rightarrow> respond (\<lambda>_. Ok_json 200 (Path_body path)) (api_write api scope lid path content enc s)))
      else if hr_method rq = ''GET'' \<and> action = ''files/content'' then read_file_content api env rq scope lid s
      else if hr_method rq = ''PUT'' \<and> action = ''files/content'' then write_file_content api env rq scope lid s
      else if hr_method rq = ''POST'' \<and> action = ''release'' then
        respond (\<lambda>r. Ok_json 200 (Lease_body r)) (api_release api scope lid s)
      else (write_error method_not_allowed, s))"

definition serve_http :: "'s lease_api \<Rightarrow> http_env \<Rightarrow> http_request \<Rightarrow> 's \<Rightarrow> http_response \<times> 's" where
  "serve_http api env rq s =
     (if hr_method rq = ''GET'' \<and> hr_path rq = ''/health'' then (Ok_json 200 (Status_body ''ok''), s)
      else if hr_method rq = ''GET'' \<and> hr_path rq = ''/ready'' then
        (if he_ready env then Ok_json 200 (Status_body ''ready'') else Ok_json 503 (Status_body ''not_ready''), s)
      else case authenticate_request env rq of Inl e \<Rightarrow> (write_error e, s)
      | Inr scope \<Rightarrow>
          if hr_path rq = lease_path then serve_collection api env rq scope s
          else case match_lease_route (hr_path rq) of None \<Rightarrow> (write_error (LeaseError 404 ''NOT_FOUND''), s)
             | Some (lid, action) \<Rightarrow> serve_lease api env rq scope lid action s)"

end
