(* ===== verification/Http_Props.thy ===== *)
theory Http_Props
  imports Http_Api Kube_Acquire
begin

text \<open>
  What the HTTP server relies on in a lease backend, as an interface; the Kubernetes backend
  as an instance of it; and the properties of the server on top of that backend.
\<close>

section \<open>The interface\<close>

text \<open>
  \<open>holds s scope lid\<close>: the scope holds a lease of that name; \<open>same\<close>: nothing that any scope holds
  has changed. Every operation on a lease that the caller does not hold is refused.
\<close>

definition refused :: "('s \<Rightarrow> 's \<Rightarrow> bool) \<Rightarrow> 's \<Rightarrow> (lease_error + 'a) \<times> 's \<Rightarrow> bool" where
  "refused same s r \<longleftrightarrow> \<not> is_ok (fst r) \<and> same s (snd r)"

locale lease_service =
  fixes api :: "'s lease_api" and valid :: "'s \<Rightarrow> bool" and holds :: "'s \<Rightarrow> lease_scope \<Rightarrow> string \<Rightarrow> bool"
    and same :: "'s \<Rightarrow> 's \<Rightarrow> bool"
  assumes same_refl: "same s s"
    and get_refused: "valid s \<Longrightarrow> \<not> holds s scope lid \<Longrightarrow> refused same s (api_get api scope lid s)"
    and exec_refused: "valid s \<Longrightarrow> \<not> holds s scope lid \<Longrightarrow> refused same s (api_exec api scope lid xq s)"
    and read_refused: "valid s \<Longrightarrow> \<not> holds s scope lid \<Longrightarrow> refused same s (api_read api scope lid path enc s)"
    and write_refused: "valid s \<Longrightarrow> \<not> holds s scope lid \<Longrightarrow> refused same s (api_write api scope lid path content enc s)"
    and release_refused: "valid s \<Longrightarrow> \<not> holds s scope lid \<Longrightarrow> refused same s (api_release api scope lid s)"
    and delete_refused: "valid s \<Longrightarrow> \<not> holds s scope lid \<Longrightarrow> refused same s (api_delete api scope lid s)"
    and open_refused: "valid s \<Longrightarrow> \<not> holds s scope lid \<Longrightarrow> refused same s (api_open api scope lid path s)"
    and upload_refused: "valid s \<Longrightarrow> \<not> holds s scope lid \<Longrightarrow> refused same s (api_upload api scope lid rq body s)"
begin

lemmas refusals = get_refused exec_refused read_refused write_refused release_refused delete_refused open_refused upload_refused

definition turned_away :: "'s \<Rightarrow> http_response \<times> 's \<Rightarrow> bool" where
  "turned_away s r \<longleftrightarrow> (\<exists>st code. fst r = Error_json st code) \<and> same s (snd r)"

lemma turned_away_error [simp]: "turned_away s (write_error e, s') = same s s'"
  by (cases e) (simp_all add: turned_away_def write_error_def)

lemma turned_away_respond: "refused same s r \<Longrightarrow> turned_away s (respond f r)"
  by (cases "fst r") (auto simp: refused_def respond_def)

lemma foreign_lease:
  assumes v: "valid s" and f: "\<not> holds s scope lid"
  shows "turned_away s (serve_lease api env rq scope lid action s)"
proof -
  have "turned_away s (read_file_content api env rq scope lid s)"
  proof (cases "required_file_path (hr_values rq)")
    case path: (Inr path)
    obtain e s' where o: "api_open api scope lid path s = (Inl e, s')" and same: "same s s'"
      using open_refused [OF v f, of path] by (cases "api_open api scope lid path s"; cases "fst (api_open api scope lid path s)")
        (auto simp: refused_def)
    show ?thesis by (simp add: read_file_content_def path o same same_refl)
  qed (simp add: read_file_content_def same_refl)
  moreover have "turned_away s (write_file_content api env rq scope lid s)"
    by (auto simp: write_file_content_def same_refl split: sum.splits intro!: turned_away_respond upload_refused [OF v f])
  ultimately show ?thesis
    unfolding serve_lease_def
    by (auto simp: same_refl split: sum.splits prod.splits option.splits intro!: turned_away_respond refusals [OF v f])
qed

end

section \<open>The Kubernetes backend as an instance\<close>

text \<open>The inputs of one request: the times it reads, its random bytes, the outcomes of its waits and of the helper.\<close>

record request_inputs =
  ri_clock :: "nat \<Rightarrow> time"
  ri_now :: time
  ri_started :: time
  ri_random :: bytes
  ri_nonce :: "bytes option"
  ri_polls :: "bool list"
  ri_waited :: bool
  ri_late :: bool
  ri_download :: "pod_target \<Rightarrow> string list \<Rightarrow> bytes \<times> io_error"
  ri_upload :: "bytes \<Rightarrow> pod_target \<Rightarrow> string list \<Rightarrow> upload_run"

definition kube_upload ::
  "'k backend \<Rightarrow> request_inputs \<Rightarrow> lease_scope \<Rightarrow> string \<Rightarrow> stream_write_request \<Rightarrow> bytes \<Rightarrow> 'k bstate \<Rightarrow> (lease_error + nat) \<times> 'k bstate" where
  "kube_upload B inp scope lid rq body s =
     bind_st (write_file_stream B (ri_now inp) (ri_started inp) (ri_waited inp) (ri_upload inp body) scope lid rq s)
       (\<lambda>_ s. (Inr (min (length body) (nat (sw_size rq))), s))"

definition kube_api :: "'k backend \<Rightarrow> request_inputs \<Rightarrow> 'k bstate lease_api" where
  "kube_api B inp =
     \<lparr>api_acquire = acquire_lease B (ri_clock inp) (ri_now inp) (ri_random inp) (ri_polls inp),
      api_list = list_leases B (ri_now inp) (ri_nonce inp),
      api_get = get_lease B (ri_now inp) (ri_waited inp),
      api_exec = exec_lease B (ri_now inp) (ri_waited inp),
      api_read = read_lease_file B (ri_now inp) (ri_waited inp),
      api_write = write_lease_file B (ri_now inp) (ri_waited inp),
      api_release = release_lease B (ri_now inp) (ri_waited inp),
      api_delete = delete_lease B (ri_waited inp),
      api_streaming = True,
      api_open = open_file B (ri_now inp) (ri_started inp) (ri_waited inp) (ri_download inp) (ri_late inp),
      api_upload = kube_upload B inp,
      api_close_download = (\<lambda>d s. s\<lparr>bs_transfers := download_close d (bs_transfers s)\<rparr>)\<rparr>"

definition kube_holds :: "('k \<Rightarrow> string \<rightharpoonup> claim) \<Rightarrow> 'k backend \<Rightarrow> 'k bstate \<Rightarrow> lease_scope \<Rightarrow> string \<Rightarrow> bool" where
  "kube_holds view B s scope lid \<longleftrightarrow> (\<exists>c. live_claims view s lid = Some c \<and> belongs B scope c)"

lemma denied_refused: "denied view s r \<Longrightarrow> refused (same_state view) s r"
  by (auto simp: denied_def refused_def)

lemma denied_refused_bind: "denied view s r \<Longrightarrow> refused (same_state view) s (bind_st r f)"
  by (rule denied_refused [OF denied_bind])

interpretation kube_service: lease_service "kube_api B inp" "\<lambda>s. kube_laws (bk_kube B) view" "kube_holds view B" "same_state view"
  for B inp view
proof unfold_locales
  fix s scope lid
  assume laws: "kube_laws (bk_kube B) view" and "\<not> kube_holds view B s scope lid"
  then have foreign: "\<nexists>c. live_claims view s lid = Some c \<and> belongs B scope c" by (simp add: kube_holds_def)
  note intros = denied_refused_bind denied_require [OF laws foreign] denied_target [OF laws foreign] denied_prepare [OF laws foreign]
  show "refused (same_state view) s (api_get (kube_api B inp) scope lid s)"
    by (auto simp: kube_api_def get_lease_def intro!: intros)
  show "refused (same_state view) s (api_exec (kube_api B inp) scope lid xq s)" for xq
    by (auto simp: kube_api_def exec_lease_def intro!: intros)
  show "refused (same_state view) s (api_read (kube_api B inp) scope lid path enc s)" for path enc
    by (auto simp: kube_api_def read_lease_file_def intro!: intros)
  show "refused (same_state view) s (api_write (kube_api B inp) scope lid path content enc s)" for path content enc
    by (auto simp: kube_api_def write_lease_file_def intro!: intros)
  show "refused (same_state view) s (api_release (kube_api B inp) scope lid s)"
    by (auto simp: kube_api_def release_lease_def intro!: intros)
  show "refused (same_state view) s (api_delete (kube_api B inp) scope lid s)"
    by (auto simp: kube_api_def delete_lease_def intro!: intros)
  show "refused (same_state view) s (api_open (kube_api B inp) scope lid path s)" for path
    by (auto simp: kube_api_def open_file_def intro!: intros)
  show "refused (same_state view) s (api_upload (kube_api B inp) scope lid rq body s)" for rq body
  proof -
    have "denied view s (write_file_stream B (ri_now inp) (ri_started inp) (ri_waited inp) (ri_upload inp body) scope lid rq s)
       \<or> write_file_stream B (ri_now inp) (ri_started inp) (ri_waited inp) (ri_upload inp body) scope lid rq s = (Inl transfer_too_large, s)"
      unfolding write_file_stream_def by (auto intro!: denied_bind denied_prepare [OF laws foreign])
    then show ?thesis
    proof
      assume "denied view s (write_file_stream B (ri_now inp) (ri_started inp) (ri_waited inp) (ri_upload inp body) scope lid rq s)"
      then show ?thesis by (simp add: kube_api_def kube_upload_def denied_refused_bind)
    qed (simp add: kube_api_def kube_upload_def refused_def)
  qed
qed simp

section \<open>Content digests\<close>

lemma std_no_colon: "CHR '':'' \<notin> set (b64_encode std_encoding d)"
  using b64_encode_chars [OF well_formed_std, of "CHR '':''" d]
  by (auto simp: std_encoding_def letters_def)

lemma parse_format_digest: "length d = 32 \<Longrightarrow> parse_content_digest (format_content_digest d) = Inr d"
proof -
  assume d: "length d = 32"
  let ?v = "format_content_digest d"
  have "?v = ''sha-256=:'' @ b64_encode std_encoding d @ '':''" by (simp add: format_content_digest_def)
  then have "has_prefix ?v ''sha-256=:''" "has_suffix ?v '':''" "count_list ?v CHR '':'' = 2"
      "trim_suffix (drop 9 ?v) '':'' = b64_encode std_encoding d"
    using std_no_colon [of d] by (auto simp: has_suffix_iff has_prefix_def count_list_0_iff)
  moreover have "b64_decode (strict_form std_encoding) (b64_encode std_encoding d) = Some d"
    using b64_round_trip [of "strict_form std_encoding" d] by (simp add: well_formed_std)
  ultimately show ?thesis using d by (simp add: parse_content_digest_def)
qed

lemma parse_digest_ok: "parse_content_digest v = Inr d \<Longrightarrow> length d = 32 \<and> v = format_content_digest d"
  by (auto simp: parse_content_digest_def split: if_split_asm option.split_asm)

text \<open>
  A \<open>Content-Digest\<close> header is accepted with the digest d exactly when d has 32 bytes and the
  header is the one text that the server itself writes for d: there is no second spelling of a
  digest, and every digest the server announces is accepted back.
\<close>

theorem content_digest_exact:
  "parse_content_digest v = Inr d \<longleftrightarrow> length d = 32 \<and> v = format_content_digest d"
  using parse_digest_ok parse_format_digest by blast

section \<open>Isolation\<close>

lemma lease_route_path: "match_lease_route path = Some (lid, action) \<Longrightarrow> path \<noteq> lease_path \<and> path \<noteq> ''/health'' \<and> path \<noteq> ''/ready''"
  by (auto simp: match_lease_route_def lease_path_def has_prefix_def split: if_split_asm)

lemma unauthenticated: "authenticate_request env rq = Inl e \<Longrightarrow> e = unauthorized"
  by (auto simp: authenticate_request_def verify_subject_token_def Let_def split: if_split_asm option.split_asm)

text \<open>
  C2. On the Kubernetes backend, a request other than the two probes that does not carry an
  acceptable subject token is answered 401 and changes nothing; and a request for a lease that
  the token's scope does not hold is answered with an error, whatever its method, action and
  body, and changes no claim and no transfer.
\<close>

theorem http_isolation:
  assumes laws: "kube_laws (bk_kube B) view"
    and probes: "hr_path rq \<notin> {''/health'', ''/ready''}"
  shows "(authenticate_request env rq = Inl e \<longrightarrow> serve_http (kube_api B inp) env rq s = (Error_json 401 ''UNAUTHORIZED'', s))
    \<and> (authenticate_request env rq = Inr scope \<and> match_lease_route (hr_path rq) = Some (lid, action)
          \<and> (\<nexists>c. live_claims view s lid = Some c \<and> belongs B scope c)
        \<longrightarrow> (\<exists>st code. fst (serve_http (kube_api B inp) env rq s) = Error_json st code)
          \<and> same_state view s (snd (serve_http (kube_api B inp) env rq s)))"
proof (intro conjI impI)
  assume "authenticate_request env rq = Inl e"
  with unauthenticated [OF this] probes show "serve_http (kube_api B inp) env rq s = (Error_json 401 ''UNAUTHORIZED'', s)"
    by (simp add: serve_http_def write_error_def unauthorized_def)
next
  assume a: "authenticate_request env rq = Inr scope \<and> match_lease_route (hr_path rq) = Some (lid, action)
          \<and> (\<nexists>c. live_claims view s lid = Some c \<and> belongs B scope c)"
  then have "serve_http (kube_api B inp) env rq s = serve_lease (kube_api B inp) env rq scope lid action s"
    using lease_route_path [of "hr_path rq" lid action] probes by (simp add: serve_http_def)
  moreover have "kube_service.turned_away view s (serve_lease (kube_api B inp) env rq scope lid action s)"
    by (rule kube_service.foreign_lease [OF laws]) (use a in \<open>simp add: kube_holds_def\<close>)
  ultimately show "\<exists>st code. fst (serve_http (kube_api B inp) env rq s) = Error_json st code"
    and "same_state view s (snd (serve_http (kube_api B inp) env rq s))"
    by (simp_all add: kube_service.turned_away_def)
qed


lemma read_content_ok:
  assumes "fst (read_file_content api env rq scope lid s) = Content n d c True"
  shows "\<exists>path dl s1. api_open api scope lid path s = (Inr dl, s1) \<and> n = dl_size dl \<and> d = dl_digest dl \<and> c = dl_content dl
    \<and> 0 \<le> n \<and> n \<le> max_file_transfer_bytes \<and> int (length c) = n \<and> he_sha256 env c = d
    \<and> snd (read_file_content api env rq scope lid s) = api_close_download api dl s1"
proof -
  obtain path where path: "required_file_path (hr_values rq) = Inr path" and str: "api_streaming api"
    using assms by (auto simp: read_file_content_def write_error_def split: sum.splits if_split_asm prod.splits)
  obtain r s1 where o: "api_open api scope lid path s = (r, s1)" by fastforce
  obtain dl where dl: "r = Inr dl" using assms path str o
    by (cases r) (auto simp: read_file_content_def write_error_def split: prod.splits)
  have sz: "0 \<le> dl_size dl" "dl_size dl \<le> max_file_transfer_bytes"
    using assms path str o dl by (auto simp: read_file_content_def write_error_def Let_def split: if_split_asm prod.splits)
  have eq: "read_file_content api env rq scope lid s = (Content (dl_size dl) (dl_digest dl) (take (nat (dl_size dl + 1)) (dl_content dl))
      (\<not> (he_read_error env \<and> length (dl_content dl) < nat (dl_size dl + 1))
        \<and> int (length (take (nat (dl_size dl + 1)) (dl_content dl))) = dl_size dl
        \<and> he_sha256 env (take (nat (dl_size dl + 1)) (dl_content dl)) = dl_digest dl), api_close_download api dl s1)"
    using path str o dl sz by (simp add: read_file_content_def Let_def not_less)
  have n: "n = dl_size dl" "d = dl_digest dl" "c = take (nat (dl_size dl + 1)) (dl_content dl)"
      "int (length c) = n" "he_sha256 env c = d"
    using assms unfolding eq by auto
  have "c = dl_content dl" using n(1,3,4) sz(1) by (cases "length (dl_content dl) \<le> nat (dl_size dl + 1)") auto
  then show ?thesis using o dl sz n eq by auto
qed

lemma write_content_ok:
  assumes "fst (write_file_content api env rq scope lid s) = No_content"
  shows "\<exists>path d s1. api_upload api scope lid \<lparr>sw_path = path, sw_size = hr_content_length rq, sw_sha256 = d\<rparr> (hr_body rq) s
        = (Inr (nat (hr_content_length rq)), s1)
    \<and> 0 \<le> hr_content_length rq \<and> hr_content_length rq \<le> max_file_transfer_bytes \<and> hr_content_digest rq = format_content_digest d
    \<and> he_sha256 env (take (nat (hr_content_length rq)) (hr_body rq)) = d"
proof -
  obtain path d where p: "required_file_path (hr_values rq) = Inr path" "hr_media_type rq = Some ''application/octet-stream''"
      "0 \<le> hr_content_length rq" "hr_content_length rq \<le> max_file_transfer_bytes"
      "parse_content_digest (hr_content_digest rq) = Inr d" "api_streaming api"
    using assms by (auto simp: write_file_content_def write_error_def not_less split: sum.splits if_split_asm prod.splits)
  obtain r s1 where u: "api_upload api scope lid \<lparr>sw_path = path, sw_size = hr_content_length rq, sw_sha256 = d\<rparr> (hr_body rq) s = (r, s1)"
    by fastforce
  obtain n where n: "r = Inr n" "int n = hr_content_length rq" "he_sha256 env (take n (hr_body rq)) = d"
    using assms p u by (cases r) (auto simp: write_file_content_def write_error_def respond_def split: if_split_asm prod.splits)
  have "n = nat (hr_content_length rq)" using n(2) by simp
  with n show ?thesis using p u parse_digest_ok [OF p(5)]
    by - (rule exI [where x = path], rule exI [where x = d], rule exI [where x = s1], auto)
qed

text \<open>
  C9. Content crosses the server intact, whatever the backend. When a download is complete, the
  body sent is exactly the content of the download that the backend opened, of the announced
  size and digest and within the limit, and the download has been closed. When an upload is
  answered with success, the backend reported success after taking exactly the announced number
  of bytes of the body, and these hash to the digest of the header, which is the one the backend
  was given.
\<close>

theorem http_content_integrity:
  assumes "authenticate_request env rq = Inr scope" and "match_lease_route (hr_path rq) = Some (lid, ''files/content'')"
  shows "(hr_method rq = ''GET'' \<and> fst (serve_http api env rq s) = Content n d c True \<longrightarrow>
      (\<exists>path dl s1. api_open api scope lid path s = (Inr dl, s1) \<and> n = dl_size dl \<and> d = dl_digest dl \<and> c = dl_content dl
        \<and> 0 \<le> n \<and> n \<le> max_file_transfer_bytes \<and> int (length c) = n \<and> he_sha256 env c = d
        \<and> snd (serve_http api env rq s) = api_close_download api dl s1))
    \<and> (hr_method rq = ''PUT'' \<and> fst (serve_http api env rq s) = No_content \<longrightarrow>
      (\<exists>path d s1. api_upload api scope lid \<lparr>sw_path = path, sw_size = hr_content_length rq, sw_sha256 = d\<rparr> (hr_body rq) s
          = (Inr (nat (hr_content_length rq)), s1)
        \<and> 0 \<le> hr_content_length rq \<and> hr_content_length rq \<le> max_file_transfer_bytes \<and> hr_content_digest rq = format_content_digest d
        \<and> he_sha256 env (take (nat (hr_content_length rq)) (hr_body rq)) = d))"
proof -
  have route: "serve_http api env rq s = serve_lease api env rq scope lid ''files/content'' s"
    using assms lease_route_path [OF assms(2)] by (simp add: serve_http_def)
  have get: "hr_method rq = ''GET'' \<Longrightarrow> serve_http api env rq s = read_file_content api env rq scope lid s"
    and put: "hr_method rq = ''PUT'' \<Longrightarrow> serve_http api env rq s = write_file_content api env rq scope lid s"
    by (simp_all add: route serve_lease_def)
  show ?thesis
    using read_content_ok [of api env rq scope lid s n d c] write_content_ok [of api env rq scope lid s] get put by auto
qed

section \<open>Sample requests\<close>

definition http_sha :: "bytes \<Rightarrow> bytes" where
  "http_sha b = take 32 (b @ replicate 32 CHR 0x00)"

definition sample_http :: http_env where
  "sample_http = \<lparr>he_tokens = sample_tokens, he_now = 50000000000, he_ready = True, he_sha256 = http_sha,
     he_acquire = (\<lambda>_. Malformed), he_exec = (\<lambda>_. Malformed), he_read = (\<lambda>_. Malformed), he_write = (\<lambda>_. Malformed), he_read_error = False\<rparr>"

definition sample_put :: "string \<Rightarrow> http_request" where
  "sample_put subject = \<lparr>hr_method = ''PUT'', hr_path = ''/v1/leases/lease-61/files/content'', hr_raw_query = ''path=a'',
     hr_query = Some [(''path'', [''a''])], hr_values = [(''path'', [''a''])],
     hr_authorization = ''Bearer '' @ mint_token (te_hmac sample_tokens) ''key'' subject,
     hr_idempotency_key = [], hr_media_type = Some ''application/octet-stream'', hr_content_length = 2,
     hr_content_digest = format_content_digest (http_sha ''hi''), hr_body = ''hi''\<rparr>"

definition sample_inputs :: request_inputs where
  "sample_inputs = \<lparr>ri_clock = (\<lambda>_. 2000), ri_now = 2000, ri_started = 2000, ri_random = [], ri_nonce = None, ri_polls = [],
     ri_waited = True, ri_late = False, ri_download = (\<lambda>_ _. ([], Io_eof)),
     ri_upload = (\<lambda>_ _ _. \<lparr>ur_stdout = [''ASP1 OK'' @ [CHR 0x0A]], ur_error = None, ur_ctx_done = False, ur_input_error = None, ur_input_count = 2\<rparr>)\<rparr>"

lemma sample_put_route:
  "authenticate_request sample_http (sample_put ''alice'') = Inr alice"
  "authenticate_request sample_http (sample_put ''mallory'') = Inr mallory"
  "match_lease_route (hr_path (sample_put u)) = Some (''lease-61'', ''files/content'')"
  "hr_path (sample_put u) \<notin> {''/health'', ''/ready''}" "hr_method (sample_put u) = ''PUT''"
  by code_simp+

lemma sample_put_served:
  "fst (serve_http (kube_api sample_backend sample_inputs) sample_http (sample_put ''alice'') leased_state) = No_content"
  by code_simp

lemma http_isolation_witness:
  "\<exists>st code. fst (serve_http (kube_api sample_backend sample_inputs) sample_http (sample_put ''mallory'') leased_state) = Error_json st code"
  using http_isolation [OF sample_laws sample_put_route(4) [of "''mallory''"], where env = sample_http and scope = mallory
      and lid = "''lease-61''" and action = "''files/content''" and s = leased_state and inp = sample_inputs]
    sample_put_route(2,3) sample_foreign by blast

lemma http_content_integrity_witness:
  "fst (serve_http (kube_api sample_backend sample_inputs) sample_http (sample_put ''alice'') leased_state) = No_content
   \<and> hr_content_digest (sample_put ''alice'') = format_content_digest (http_sha ''hi'')"
  using http_content_integrity [OF sample_put_route(1) sample_put_route(3), of "kube_api sample_backend sample_inputs" leased_state]
    sample_put_served sample_put_route(5) 
  by (auto simp: sample_put_def)

end
