(* ===== verification/Http_Headers.thy ===== *)
theory Http_Headers
  imports Go_Strings
begin

text \<open>
  What the router uses of \<open>net/http\<close> and \<open>net/textproto\<close>: header maps with canonical keys and the
  cookies of a request. A header map is an association list with one entry per key; the order
  of its entries carries no meaning.
\<close>

section \<open>Keys\<close>

definition token_char :: "char \<Rightarrow> bool" where
  "token_char c = (let n = (of_char c :: nat) in
     48 \<le> n \<and> n \<le> 57 \<or> 65 \<le> n \<and> n \<le> 90 \<or> 97 \<le> n \<and> n \<le> 122
     \<or> c \<in> {CHR ''!'', CHR ''#'', CHR ''$'', CHR ''%'', CHR ''&'', CHR 0x27, CHR ''*'', CHR ''+'', CHR ''-'', CHR ''.'',
          CHR ''^'', CHR ''_'', CHR 0x60, CHR ''|'', CHR ''~''})"

definition upper_char :: "char \<Rightarrow> char" where
  "upper_char c = (let n = (of_char c :: nat) in if 97 \<le> n \<and> n \<le> 122 then char_of (n - 32) else c)"

fun title_from :: "bool \<Rightarrow> string \<Rightarrow> string" where
  "title_from up [] = []"
| "title_from up (c # s) = (let d = (if up then upper_char c else lower_char c) in d # title_from (d = CHR ''-'') s)"

definition canonical_key :: "string \<Rightarrow> string" where
  "canonical_key s = (if list_all token_char s then title_from True s else s)"

section \<open>Header maps\<close>

type_synonym header = "(string \<times> string list) list"

definition header_values :: "string \<Rightarrow> header \<Rightarrow> string list" where
  "header_values name h = (case map_of h (canonical_key name) of None \<Rightarrow> [] | Some vs \<Rightarrow> vs)"

definition header_get :: "string \<Rightarrow> header \<Rightarrow> string" where
  "header_get name h = (case header_values name h of [] \<Rightarrow> [] | v # _ \<Rightarrow> v)"

definition header_del :: "string \<Rightarrow> header \<Rightarrow> header" where
  "header_del name h = filter (\<lambda>(k, _). k \<noteq> canonical_key name) h"

definition header_set :: "string \<Rightarrow> string \<Rightarrow> header \<Rightarrow> header" where
  "header_set name v h = (canonical_key name, [v]) # header_del name h"

definition header_add :: "string \<Rightarrow> string \<Rightarrow> header \<Rightarrow> header" where
  "header_add name v h = (canonical_key name, header_values name h @ [v]) # header_del name h"

definition header_keys :: "header \<Rightarrow> string set" where
  "header_keys h = fst ` set h"

lemma header_keys_del [simp]: "header_keys (header_del name h) = header_keys h - {canonical_key name}"
  by (auto simp: header_keys_def header_del_def)

lemma header_keys_set [simp]: "header_keys (header_set name v h) = insert (canonical_key name) (header_keys h)"
  using header_keys_del [of name h] by (simp add: header_set_def header_keys_def)

lemma header_keys_add [simp]: "header_keys (header_add name v h) = insert (canonical_key name) (header_keys h)"
  using header_keys_del [of name h] by (simp add: header_add_def header_keys_def)

lemma header_values_del:
  "header_values n (header_del m h) = (if canonical_key n = canonical_key m then [] else header_values n h)"
proof -
  have "map_of (filter (\<lambda>(k, _). k \<noteq> b) h) a = (if a = b then None else map_of h a)" for a b
    by (induction h) auto
  then show ?thesis by (auto simp: header_values_def header_del_def)
qed

lemma header_values_set:
  "header_values n (header_set m v h) = (if canonical_key n = canonical_key m then [v] else header_values n h)"
  using header_values_del [of n m h] by (simp add: header_set_def header_values_def)

lemma header_values_add:
  "header_values n (header_add m v h) = (if canonical_key n = canonical_key m then header_values m h @ [v] else header_values n h)"
  using header_values_del [of n m h] by (simp add: header_add_def header_values_def)

section \<open>Cutting and trimming\<close>

text \<open>\<open>strings.Cut\<close> at one character: the part before it, the part after it, whether it occurs.\<close>

definition cut :: "char \<Rightarrow> string \<Rightarrow> string \<times> string \<times> bool" where
  "cut c s = (takeWhile (\<lambda>d. d \<noteq> c) s, drop 1 (dropWhile (\<lambda>d. d \<noteq> c) s), c \<in> set s)"

definition ascii_space :: "char \<Rightarrow> bool" where
  "ascii_space c = (c \<in> {CHR '' '', CHR 0x09, CHR 0x0A, CHR 0x0D})"

text \<open>\<open>textproto.TrimString\<close>.\<close>

definition trim_ascii :: "string \<Rightarrow> string" where
  "trim_ascii s = rev (dropWhile ascii_space (rev (dropWhile ascii_space s)))"

lemma trim_ascii_parts: "\<exists>l r. s = l @ trim_ascii s @ r \<and> list_all ascii_space l \<and> list_all ascii_space r"
proof -
  let ?u = "dropWhile ascii_space s"
  have "s = takeWhile ascii_space s @ ?u" by simp
  moreover have "?u = trim_ascii s @ rev (takeWhile ascii_space (rev ?u))"
    unfolding trim_ascii_def by (metis rev_append rev_rev_ident takeWhile_dropWhile_id)
  moreover have "list_all ascii_space (takeWhile ascii_space s)" "list_all ascii_space (rev (takeWhile ascii_space (rev ?u)))"
    by (auto simp: list_all_iff dest: set_takeWhileD)
  ultimately show ?thesis by metis
qed

lemma trim_ascii_prefix: "list_all ascii_space l \<Longrightarrow> trim_ascii (l @ s) = trim_ascii s"
  by (simp add: trim_ascii_def list_all_iff dropWhile_append)

lemma not_space: "\<not> ascii_space CHR ''=''"
  by (simp add: ascii_space_def)

lemma trim_ascii_cut:
  assumes "CHR ''='' \<in> set s"
  shows "trim_ascii (fst (cut CHR ''='' (trim_ascii s))) = trim_ascii (fst (cut CHR ''='' s))"
proof -
  obtain l m r where s: "s = l @ m @ r" "m = trim_ascii s" and sp: "list_all ascii_space l" "list_all ascii_space r"
    using trim_ascii_parts [of s] by metis
  have free: "\<forall>c \<in> set x. c \<noteq> CHR ''=''" if "list_all ascii_space x" for x
    using that not_space by (auto simp: list_all_iff)
  have "CHR ''='' \<in> set m" using assms s(1) free [OF sp(1)] free [OF sp(2)] by auto
  then have "takeWhile (\<lambda>d. d \<noteq> CHR ''='') s = l @ takeWhile (\<lambda>d. d \<noteq> CHR ''='') m"
    using free [OF sp(1)] by (simp add: s(1) takeWhile_append1)
  then show ?thesis using trim_ascii_prefix [OF sp(1)] by (simp add: cut_def flip: s(2))
qed

section \<open>Cookies\<close>

definition valid_cookie_byte :: "char \<Rightarrow> bool" where
  "valid_cookie_byte c = (let n = (of_char c :: nat) in 32 \<le> n \<and> n < 127 \<and> c \<noteq> CHR 0x22 \<and> c \<noteq> CHR '';'' \<and> c \<noteq> CHR 0x5C)"

definition parse_cookie_value :: "string \<Rightarrow> string option" where
  "parse_cookie_value v =
     (let w = (if length v > 1 \<and> hd v = CHR 0x22 \<and> last v = CHR 0x22 then butlast (tl v) else v)
      in if list_all valid_cookie_byte w then Some w else None)"

definition read_cookie :: "string \<Rightarrow> (string \<times> string) option" where
  "read_cookie part =
     (let (name, val, _) = cut CHR ''='' (trim_ascii part); name = trim_ascii name
      in if name = [] \<or> \<not> list_all token_char name then None else map_option (\<lambda>v. (name, v)) (parse_cookie_value val))"

text \<open>\<open>Request.Cookies\<close>, below the bound that newer releases of Go put on their number.\<close>

definition read_cookies :: "header \<Rightarrow> (string \<times> string) list" where
  "read_cookies h = List.map_filter read_cookie (concat (map (split_on CHR '';'') (header_values ''Cookie'' h)))"

section \<open>Case folding\<close>

text \<open>
  \<open>strings.EqualFold\<close> when one side is ASCII. Besides the letters of the other case, the only
  characters that fold to an ASCII letter are U+017F (bytes C5 BF, to s) and U+212A (bytes
  E2 84 AA, to k).
\<close>

fun fold_ascii :: "string \<Rightarrow> string" where
  "fold_ascii [] = []"
| "fold_ascii (a # s) =
     (if a = CHR 0xC5 \<and> take 1 s = [CHR 0xBF] then CHR ''s'' # fold_ascii (drop 1 s)
      else if a = CHR 0xE2 \<and> take 2 s = [CHR 0x84, CHR 0xAA] then CHR ''k'' # fold_ascii (drop 2 s)
      else lower_char a # fold_ascii s)"

definition fold_equal :: "string \<Rightarrow> string \<Rightarrow> bool" where
  "fold_equal s t = (fold_ascii s = fold_ascii t)"

end
