(* ===== verification/Workload_Router.thy ===== *)
theory Workload_Router
  imports Registry Http_Headers "HOL-Library.Word"
begin

text \<open>
  The data plane of the workload router (\<open>apps/workload-router/internal/router/router.go\<close> and
  \<open>resolver/resolver.go\<close>): admission of a request, the exchange of a capability for a session
  cookie, and the reverse proxy with what it strips and rewrites. The handler runs on the
  exposure registry; what other requests do to the registry between two of its calls is an
  argument.
\<close>

section \<open>Destinations\<close>

text \<open>\<open>label_ok\<close> stands for \<open>validation.IsDNS1123Label\<close> of \<open>k8s.io/apimachinery\<close>.\<close>

record service_target =
  st_service :: string
  st_namespace :: string
  st_port :: "16 word"

definition new_service_target :: "(string \<Rightarrow> bool) \<Rightarrow> string \<Rightarrow> string \<Rightarrow> 16 word \<Rightarrow> service_target option" where
  "new_service_target label_ok service namespace port =
     (if \<not> label_ok service then None else if \<not> label_ok namespace then None else if port = 0 then None
      else Some \<lparr>st_service = service, st_namespace = namespace, st_port = port\<rparr>)"

definition target_valid :: "(string \<Rightarrow> bool) \<Rightarrow> service_target \<Rightarrow> bool" where
  "target_valid label_ok t = (new_service_target label_ok (st_service t) (st_namespace t) (st_port t) \<noteq> None)"

definition target_hostname :: "service_target \<Rightarrow> string" where
  "target_hostname t = st_service t @ ''.'' @ st_namespace t @ ''.svc''"

text \<open>\<open>net.JoinHostPort\<close>.\<close>

definition join_host_port :: "string \<Rightarrow> string \<Rightarrow> string" where
  "join_host_port host port = (if CHR '':'' \<in> set host then ''['' @ host @ '']:'' @ port else host @ '':'' @ port)"

definition target_authority :: "service_target \<Rightarrow> string" where
  "target_authority t = join_host_port (target_hostname t) (itoa (int (unat (st_port t))))"

definition matches_authority :: "service_target \<Rightarrow> string \<Rightarrow> bool" where
  "matches_authority t authority =
     (fold_equal authority (target_authority t) \<or> st_port t = 80 \<and> fold_equal authority (target_hostname t))"

section \<open>URLs\<close>

text \<open>
  The fields of a parsed URL that the router reads. \<open>url.Parse\<close> and \<open>URL.String\<close> are functions
  given to the router.
\<close>

record url =
  u_scheme :: string
  u_opaque :: string
  u_user :: bool
  u_host :: string
  u_path :: string
  u_raw_path :: string
  u_raw_query :: string
  u_force_query :: bool
  u_fragment :: string

record url_lib =
  ul_parse :: "string \<Rightarrow> url option"
  ul_string :: "url \<Rightarrow> string"

text \<open>\<open>URL.Hostname\<close>: the host without a port of digits and without square brackets.\<close>

definition all_digits :: "string \<Rightarrow> bool" where
  "all_digits s = list_all (\<lambda>c. char_digit c \<noteq> None) s"

definition url_hostname :: "url \<Rightarrow> string" where
  "url_hostname u =
     (let h = u_host u; port = takeWhile (\<lambda>c. c \<noteq> CHR '':'') (rev h);
          host = (if CHR '':'' \<in> set h \<and> all_digits (rev port) then take (length h - length port - 1) h else h)
      in if has_prefix host ''['' \<and> has_suffix host '']'' then butlast (tl host) else host)"

section \<open>Requests\<close>

record router_request =
  rq_method :: string
  rq_host :: string
  rq_path :: string
  rq_header :: header
  rq_content_length :: int
  rq_has_body :: bool
  rq_body :: bytes
  rq_body_error :: bool

definition session_cookie_name :: string where "session_cookie_name = ''__Host-asp_session''"
definition bootstrap_path :: string where "bootstrap_path = ''/_asp/bootstrap''"
definition default_body_limit :: int where "default_body_limit = 16777216"
definition default_body_timeout :: int where "default_body_timeout = 10 * second"

definition session_credential :: "header \<Rightarrow> string option" where
  "session_credential h =
     (let cs = filter (\<lambda>(n, _). n = session_cookie_name) (read_cookies h)
      in if length cs = 1 then Some (snd (hd cs)) else None)"

definition header_has_token :: "string list \<Rightarrow> string \<Rightarrow> bool" where
  "header_has_token vs wanted = list_ex (\<lambda>v. list_ex (\<lambda>t. fold_equal (trim_space t) wanted) (split_on CHR '','' v)) vs"

definition is_websocket :: "header \<Rightarrow> bool" where
  "is_websocket h = (header_has_token (header_values ''Connection'' h) ''upgrade'' \<and> fold_equal (header_get ''Upgrade'' h) ''websocket'')"

definition valid_websocket_origin :: "router_env \<Rightarrow> url_lib \<Rightarrow> header \<Rightarrow> string \<Rightarrow> bool" where
  "valid_websocket_origin env ul h host =
     (case header_values ''Origin'' h of
        [v] \<Rightarrow> (case ul_parse ul v of None \<Rightarrow> False
          | Some u \<Rightarrow> fold_equal (u_scheme u) ''https'' \<and> \<not> u_user u \<and> u_host u \<noteq> [] \<and> u_path u = [] \<and> u_raw_path u = []
              \<and> u_raw_query u = [] \<and> \<not> u_force_query u \<and> u_fragment u = [] \<and> canonical_host env (u_host u) = Inr host)
      | _ \<Rightarrow> False)"

section \<open>What is stripped and rewritten\<close>

definition sensitive_key :: "string \<Rightarrow> bool" where
  "sensitive_key name = (let l = to_lower name in
     l = ''authorization'' \<or> l = ''proxy-authorization'' \<or> has_prefix l ''x-asp-'')"

definition strip_sensitive_headers :: "header \<Rightarrow> header" where
  "strip_sensitive_headers h = fold (\<lambda>(name, _) h. if sensitive_key name then header_del name h else h) h h"

definition cookie_pairs :: "string list \<Rightarrow> string list" where
  "cookie_pairs vs = filter (\<lambda>p. case cut CHR ''='' p of (name, _, found) \<Rightarrow> found \<and> name \<noteq> session_cookie_name)
     (map trim_space (concat (map (split_on CHR '';'') vs)))"

definition strip_session_cookie :: "header \<Rightarrow> header" where
  "strip_session_cookie h =
     (let kept = cookie_pairs (header_values ''Cookie'' h); h = header_del ''Cookie'' h
      in if kept \<noteq> [] then header_set ''Cookie'' (join_with ''; '' kept) h else h)"

definition reserved_cookie :: "string \<Rightarrow> bool" where
  "reserved_cookie c = (case cut CHR ''='' c of (name, _, found) \<Rightarrow> found \<and> fold_equal (trim_space name) session_cookie_name)"

definition clears_cookies :: "string \<Rightarrow> bool" where
  "clears_cookies v = (let l = to_lower v in
     contains_sub l (CHR 0x22 # ''cookies'' @ [CHR 0x22]) \<or> contains_sub l [CHR 0x22, CHR ''*'', CHR 0x22])"

definition strip_reserved_headers :: "header \<Rightarrow> header" where
  "strip_reserved_headers h =
     (let h1 = fold (\<lambda>c h. if \<not> reserved_cookie c then header_add ''Set-Cookie'' c h else h)
            (header_values ''Set-Cookie'' h) (header_del ''Set-Cookie'' h)
      in if list_ex clears_cookies (header_values ''Clear-Site-Data'' h1) then header_del ''Clear-Site-Data'' h1 else h1)"

definition rewrite_location :: "url_lib \<Rightarrow> header \<Rightarrow> string \<Rightarrow> service_target \<Rightarrow> header option" where
  "rewrite_location ul h external target =
     (case header_values ''Location'' h of
        [] \<Rightarrow> Some h
      | [v] \<Rightarrow> if v = [] then None else (case ul_parse ul v of None \<Rightarrow> None
          | Some u \<Rightarrow>
             if u_user u \<or> u_opaque u \<noteq> [] then None
             else if u_scheme u \<noteq> [] \<and> \<not> fold_equal (u_scheme u) ''http'' \<and> \<not> fold_equal (u_scheme u) ''https'' then None
             else if u_host u = [] then (if u_scheme u \<noteq> [] then None else Some h)
             else if matches_authority target (u_host u)
             then Some (header_set ''Location'' (ul_string ul (u\<lparr>u_scheme := ''https'', u_host := external\<rparr>)) h)
             else let name = to_lower (trim_suffix (url_hostname u) ''.'') in
               if has_suffix name ''.svc'' \<or> has_suffix name ''.svc.cluster.local'' then None else Some h)
      | _ \<Rightarrow> None)"

section \<open>Responses\<close>

record session_cookie =
  ck_value :: string
  ck_path :: string
  ck_expires :: time
  ck_max_age :: int
  ck_secure :: bool
  ck_http_only :: bool
  ck_same_site_lax :: bool

text \<open>\<open>Page\<close> is the bootstrap document, true when its text is sent along with the headers.\<close>

datatype router_response =
    Plain int string
  | Page bool
  | Session_granted session_cookie
  | Relayed int header bytes

record upstream_request =
  ur_authority :: string
  ur_method :: string
  ur_path :: string
  ur_header :: header
  ur_body :: bytes

record upstream_response =
  up_status :: int
  up_header :: header
  up_body :: bytes

section \<open>The handler\<close>

record router_config =
  rc_body_limit :: int
  rc_body_timeout :: int

definition new_router :: "int \<Rightarrow> int \<Rightarrow> router_config" where
  "new_router limit timeout =
     \<lparr>rc_body_limit = (if limit \<le> 0 then default_body_limit else limit),
      rc_body_timeout = (if timeout \<le> 0 then default_body_timeout else timeout)\<rparr>"

text \<open>
  What one request meets: the n-th reading of the clock, what happens to the registry between
  its n-th and its next call, random bytes, whether the read deadline can be set, the media
  type of the request, the resolver, the connection that dialling yields, and the answer of
  the upstream; for the last two \<open>None\<close> is an error.
\<close>

record router_inputs =
  ro_clock :: "nat \<Rightarrow> time"
  ro_between :: "nat \<Rightarrow> registry \<Rightarrow> registry"
  ro_random :: bytes
  ro_deadline :: bool
  ro_media_type :: "string option"
  ro_resolve :: "string \<Rightarrow> service_target option"
  ro_label :: "string \<Rightarrow> bool"
  ro_dial :: "conn option"
  ro_upstream :: "upstream_request \<Rightarrow> upstream_response option"

definition upstream_unavailable :: router_response where
  "upstream_unavailable = Plain 502 ''upstream unavailable''"

definition authorization_required :: router_response where
  "authorization_required = Plain 401 ''authorization required''"

definition authorization_failed :: router_response where
  "authorization_failed = Plain 401 ''authorization failed''"

text \<open>Seconds as \<open>Duration.Seconds\<close> truncated to an integer, at least one.\<close>

definition cookie_max_age :: "int \<Rightarrow> int" where
  "cookie_max_age d = (if d div second < 1 then 1 else d div second)"

definition exchange_session ::
  "router_env \<Rightarrow> router_inputs \<Rightarrow> router_request \<Rightarrow> string \<Rightarrow> registry \<Rightarrow> router_response \<times> registry" where
  "exchange_session env inp rq host r =
     (if ro_media_type inp \<noteq> Some ''text/plain'' then (authorization_failed, r)
      else if rq_body_error rq \<or> length (rq_body rq) > 1024 then (authorization_failed, r)
      else case exchange env (ro_random inp) (ro_clock inp 4) (ro_clock inp 5) (ro_clock inp 6) host (rq_body rq) r of
          (Inl _, r) \<Rightarrow> (authorization_failed, r)
        | (Inr (session, expires), r) \<Rightarrow>
            (Session_granted \<lparr>ck_value = session, ck_path = ''/'', ck_expires = expires,
               ck_max_age = cookie_max_age (expires - ro_clock inp 7), ck_secure = True, ck_http_only = True,
               ck_same_site_lax = True\<rparr>, r))"

definition bootstrap_page :: "router_request \<Rightarrow> router_response" where
  "bootstrap_page rq = Page (rq_method rq \<noteq> ''HEAD'')"

text \<open>\<open>Rewrite\<close>: the request that goes out, from the one that came in.\<close>

definition outbound :: "router_config \<Rightarrow> router_request \<Rightarrow> service_target \<Rightarrow> upstream_request" where
  "outbound cfg rq target =
     \<lparr>ur_authority = target_authority target, ur_method = rq_method rq, ur_path = rq_path rq,
      ur_header = strip_session_cookie (strip_sensitive_headers (rq_header rq)),
      ur_body = take (nat (rc_body_limit cfg)) (rq_body rq)\<rparr>"

text \<open>
  The proxy with its transport: one new connection per request, tracked from the moment it is
  dialled and closed at the end. The second component is the request the upstream has seen.
\<close>

definition proxy_request ::
  "url_lib \<Rightarrow> router_config \<Rightarrow> router_inputs \<Rightarrow> router_request \<Rightarrow> exposure \<Rightarrow> service_target \<Rightarrow> registry
    \<Rightarrow> router_response \<times> upstream_request option \<times> registry" where
  "proxy_request ul cfg inp rq e target r =
     (case ro_dial inp of None \<Rightarrow> (upstream_unavailable, None, r)
      | Some c \<Rightarrow>
        if exp_id e = [] then (upstream_unavailable, None, r)
        else (case track_connection (ro_clock inp 8) e c r of
            (Inl _, r) \<Rightarrow> (upstream_unavailable, None, r)
          | (Inr tr, r) \<Rightarrow>
             let out = outbound cfg rq target; r = snd (tracked_close tr (ro_between inp 3 r))
             in ((case ro_upstream inp out of None \<Rightarrow> upstream_unavailable
                  | Some resp \<Rightarrow> (case rewrite_location ul (strip_reserved_headers (up_header resp)) (rq_host rq) target of
                        None \<Rightarrow> upstream_unavailable
                      | Some h \<Rightarrow> Relayed (up_status resp) h (up_body resp))), Some out, r)))"

definition safe_method :: "router_request \<Rightarrow> bool" where
  "safe_method rq = (rq_method rq = ''GET'' \<or> rq_method rq = ''HEAD'')"

text \<open>\<open>ServeHTTP\<close> from the authenticated exposure on.\<close>

definition serve_exposure ::
  "url_lib \<Rightarrow> router_config \<Rightarrow> router_inputs \<Rightarrow> router_request \<Rightarrow> exposure \<Rightarrow> registry
    \<Rightarrow> router_response \<times> upstream_request option \<times> registry" where
  "serve_exposure ul cfg inp rq e r =
     (if is_websocket (rq_header rq) \<and> \<not> allow_websocket e then (Plain 403 ''websocket disabled'', None, r)
      else if rq_content_length rq > rc_body_limit cfg then (Plain 413 ''request too large'', None, r)
      else case acquire (ro_clock inp 3) e (ro_between inp 1 r) of
          (Inl err, r) \<Rightarrow> (if err = ConnectionLimit then Plain 429 ''connection limit reached'' else authorization_required, None, r)
        | (Inr slot, r) \<Rightarrow>
           (case ro_resolve inp (exp_id e) of
              None \<Rightarrow> (upstream_unavailable, None, snd (release_slot slot r))
            | Some target \<Rightarrow>
               if \<not> target_valid (ro_label inp) target then (upstream_unavailable, None, snd (release_slot slot r))
               else case proxy_request ul cfg inp rq e target (ro_between inp 2 r) of
                   (resp, out, r) \<Rightarrow> (resp, out, snd (release_slot slot (ro_between inp 4 r)))))"

definition serve_router ::
  "router_env \<Rightarrow> url_lib \<Rightarrow> router_config \<Rightarrow> router_inputs \<Rightarrow> router_request \<Rightarrow> registry
    \<Rightarrow> router_response \<times> upstream_request option \<times> registry" where
  "serve_router env ul cfg inp rq r =
     (case canonical_host env (rq_host rq) of Inl _ \<Rightarrow> (Plain 404 ''not found'', None, r)
      | Inr host \<Rightarrow>
        (case lookup_host env (ro_clock inp 0) host r of
           (Inl _, r) \<Rightarrow> (Plain 404 ''not found'', None, r)
         | (Inr _, r) \<Rightarrow>
           let ws = is_websocket (rq_header rq) in
           if ws \<and> \<not> valid_websocket_origin env ul (rq_header rq) host then (Plain 403 ''invalid websocket origin'', None, r)
           else if \<not> ws \<and> rq_has_body rq \<and> \<not> ro_deadline inp then (Plain 503 ''request body unavailable'', None, r)
           else if rq_path rq = bootstrap_path then
             (if rq_method rq \<noteq> ''POST'' then (Plain 405 ''method not allowed'', None, r)
              else case exchange_session env inp rq host (ro_between inp 0 r) of (resp, r) \<Rightarrow> (resp, None, r))
           else (case session_credential (rq_header rq) of
               None \<Rightarrow> (if ws then authorization_required else if safe_method rq then bootstrap_page rq
                  else authorization_required, None, r)
             | Some session \<Rightarrow>
                (case authenticate env (ro_clock inp 1) (ro_clock inp 2) host session (ro_between inp 0 r) of
                   (Inl _, r) \<Rightarrow> (if ws \<or> \<not> safe_method rq then authorization_required else bootstrap_page rq, None, r)
                 | (Inr e, r) \<Rightarrow> serve_exposure ul cfg inp rq e r))))"

section \<open>Bootstrap links\<close>

text \<open>
  \<open>url.QueryEscape\<close> leaves letters, digits, \<open>-\<close>, \<open>_\<close>, \<open>.\<close> and \<open>~\<close> alone, turns a space into a plus
  sign and every other byte into a percent escape in upper-case hexadecimal.
\<close>

definition unreserved :: "char \<Rightarrow> bool" where
  "unreserved c = (let n = (of_char c :: nat) in
     48 \<le> n \<and> n \<le> 57 \<or> 65 \<le> n \<and> n \<le> 90 \<or> 97 \<le> n \<and> n \<le> 122 \<or> c \<in> {CHR ''-'', CHR ''_'', CHR ''.'', CHR ''~''})"

definition upper_hex :: "nat \<Rightarrow> char" where
  "upper_hex n = ''0123456789ABCDEF'' ! n"

definition query_escape :: "string \<Rightarrow> string" where
  "query_escape s = concat (map (\<lambda>c. if unreserved c then [c] else if c = CHR '' '' then ''+''
     else [CHR 0x25, upper_hex (byte_val c div 16), upper_hex (byte_val c mod 16)]) s)"

definition bootstrap_url :: "router_env \<Rightarrow> string \<Rightarrow> string \<Rightarrow> string option" where
  "bootstrap_url env host capability =
     (case canonical_host env host of Inl _ \<Rightarrow> None
      | Inr canonical \<Rightarrow> if length capability \<noteq> 43 then None
          else Some (''https://'' @ canonical @ ''/#asp='' @ query_escape capability))"

end
