(* ===== verification/Workload_Router_Props.thy ===== *)
theory Workload_Router_Props
  imports Workload_Router Registry_Props
begin

text \<open>
  Properties of the data plane: which requests reach a workload and in what form, what a
  workload's response may carry, that serving a request gives back what it took, and that a
  capability opens the way to the workload.
\<close>

section \<open>Headers\<close>

lemma fold_del_keys:
  "header_keys (fold (\<lambda>(name, _) h. if P name then header_del name h else h) l h)
   = header_keys h - {canonical_key n | n. n \<in> header_keys l \<and> P n}"
proof (induction l arbitrary: h)
  case (Cons x l)
  then show ?case by (cases x) (auto simp: header_keys_def [of "_ # _"], (auto simp: header_keys_def)?)
qed (simp add: header_keys_def)

lemma strip_sensitive_keys:
  assumes "\<forall>k \<in> header_keys h. canonical_key k = k"
  shows "header_keys (strip_sensitive_headers h) = {k \<in> header_keys h. \<not> sensitive_key k}"
  unfolding strip_sensitive_headers_def fold_del_keys using assms by force

lemma strip_session_keys: "header_keys (strip_session_cookie h) \<subseteq> insert (canonical_key ''Cookie'') (header_keys h)"
  by (auto simp: strip_session_cookie_def Let_def)

lemma cookie_key: "canonical_key ''Cookie'' = ''Cookie''" "\<not> sensitive_key ''Cookie''"
  by code_simp+

lemma outbound_keys:
  assumes "\<forall>k \<in> header_keys h. canonical_key k = k"
  shows "\<forall>k \<in> header_keys (strip_session_cookie (strip_sensitive_headers h)). \<not> sensitive_key k"
  using strip_session_keys [of "strip_sensitive_headers h"] strip_sensitive_keys [OF assms] cookie_key by auto

section \<open>Cookies\<close>

lemma split_join_pairs:
  "ps \<noteq> [] \<Longrightarrow> \<forall>p \<in> set ps. CHR '';'' \<notin> set p \<Longrightarrow>
   split_on CHR '';'' (join_with ''; '' ps) = hd ps # map (\<lambda>p. CHR '' '' # p) (tl ps)"
proof (induction ps)
  case (Cons p ps)
  show ?case
  proof (cases ps)
    case (Cons q qs)
    have "split_on CHR '';'' (CHR '' '' # x) = (CHR '' '' # hd (split_on CHR '';'' x)) # tl (split_on CHR '';'' x)" for x
      by (cases "split_on CHR '';'' x") simp_all
    then show ?thesis using Cons Cons.IH Cons.prems by (simp add: split_on_append_sep)
  qed (use Cons.prems in \<open>simp add: split_on_free\<close>)
qed simp

lemma trim_space_set: "set (trim_space s) \<subseteq> set s"
proof -
  have l: "set (trim_left s) \<subseteq> set s" for s
  proof (induction s rule: trim_left.induct)
    case (1 s)
    then show ?case
      by (subst trim_left.simps) (auto split: option.splits dest: in_set_dropD)
  qed
  have r: "set (trim_right s) \<subseteq> set s" for s
  proof (induction s rule: trim_right.induct)
    case (1 s)
    then show ?case
      by (subst trim_right.simps) (auto split: option.splits dest: in_set_takeD)
  qed
  show ?thesis unfolding trim_space_def using l r by blast
qed

lemma read_cookie_name:
  assumes "read_cookie p = Some (n, v)" and "CHR ''='' \<in> set p"
  shows "n = trim_ascii (fst (cut CHR ''='' p))"
  using assms trim_ascii_cut [OF assms(2)]
  by (auto simp: read_cookie_def Let_def split: prod.splits if_split_asm)

text \<open>
  A workload never sees the session. Of the cookies that a workload reads in the Cookie
  header of a request forwarded to it, none is the session cookie, provided that in the
  client's request no name with white space around it reads as the name of the session
  cookie.
\<close>

theorem session_not_forwarded:
  assumes "\<forall>v \<in> set (header_values ''Cookie'' h). \<forall>p \<in> set (split_on CHR '';'' v).
      trim_ascii (fst (cut CHR ''='' (trim_space p))) = session_cookie_name \<longrightarrow> fst (cut CHR ''='' (trim_space p)) = session_cookie_name"
  shows "session_cookie_name \<notin> fst ` set (read_cookies (strip_session_cookie h))"
proof -
  let ?kept = "cookie_pairs (header_values ''Cookie'' h)"
  have kept: "CHR ''='' \<in> set p \<and> CHR '';'' \<notin> set p \<and> trim_ascii (fst (cut CHR ''='' p)) \<noteq> session_cookie_name" if "p \<in> set ?kept" for p
  proof -
    obtain v q where q: "v \<in> set (header_values ''Cookie'' h)" "q \<in> set (split_on CHR '';'' v)" "p = trim_space q"
      and f: "CHR ''='' \<in> set p" "fst (cut CHR ''='' p) \<noteq> session_cookie_name"
      using \<open>p \<in> set ?kept\<close> by (auto simp: cookie_pairs_def cut_def)
    have "CHR '';'' \<notin> set p" using split_on_no_sep [OF q(2)] trim_space_set [of q] q(3) by auto
    then show ?thesis using assms q f by auto
  qed
  have vals: "header_values ''Cookie'' (strip_session_cookie h) = (if ?kept = [] then [] else [join_with ''; '' ?kept])"
    by (simp add: strip_session_cookie_def Let_def header_values_set header_values_del)
  have parts: "\<exists>q \<in> set ?kept. part = q \<or> part = CHR '' '' # q"
    if "part \<in> set (concat (map (split_on CHR '';'') (header_values ''Cookie'' (strip_session_cookie h))))" for part
  proof (cases "?kept = []")
    case False
    have "split_on CHR '';'' (join_with ''; '' ?kept) = hd ?kept # map (\<lambda>p. CHR '' '' # p) (tl ?kept)"
      by (rule split_join_pairs [OF False]) (use kept in blast)
    then have "part = hd ?kept \<or> part \<in> (\<lambda>p. CHR '' '' # p) ` set (tl ?kept)" using that False by (auto simp: vals)
    then show ?thesis using False by (cases ?kept) auto
  qed (use that in \<open>simp add: vals\<close>)
  show ?thesis
  proof
    assume "session_cookie_name \<in> fst ` set (read_cookies (strip_session_cookie h))"
    then obtain part v where part: "part \<in> set (concat (map (split_on CHR '';'') (header_values ''Cookie'' (strip_session_cookie h))))"
      and rd: "read_cookie part = Some (session_cookie_name, v)"
      by (fastforce simp: read_cookies_def List.map_filter_def)
    obtain q where q: "q \<in> set ?kept" "part = q \<or> part = CHR '' '' # q" using parts [OF part] by blast
    note k = kept [OF q(1)]
    have "trim_ascii (fst (cut CHR ''='' part)) = trim_ascii (fst (cut CHR ''='' q))"
      using q(2) trim_ascii_prefix [of "'' ''" "fst (cut CHR ''='' q)"] by (auto simp: cut_def ascii_space_def)
    moreover have "CHR ''='' \<in> set part" using k q(2) by auto
    ultimately show False using read_cookie_name [OF rd] k by simp
  qed
qed

definition sample_cookies :: header where
  "sample_cookies = [(''Cookie'', [''a=1; __Host-asp_session=secret; b=2''])]"

lemma session_not_forwarded_witness:
  "session_credential sample_cookies = Some ''secret''
   \<and> session_cookie_name \<notin> fst ` set (read_cookies (strip_session_cookie sample_cookies))"
proof -
  have "session_credential sample_cookies = Some ''secret''" by code_simp
  moreover have "\<forall>v \<in> set (header_values ''Cookie'' sample_cookies). \<forall>p \<in> set (split_on CHR '';'' v).
      trim_ascii (fst (cut CHR ''='' (trim_space p))) = session_cookie_name \<longrightarrow> fst (cut CHR ''='' (trim_space p)) = session_cookie_name"
    by code_simp
  ultimately show ?thesis using session_not_forwarded by blast
qed

text \<open>A request in which white space follows the name: it is accepted, and the session is forwarded.\<close>

lemma session_leaks_with_space:
  "session_credential [(''Cookie'', [''__Host-asp_session =secret''])] = Some ''secret''
   \<and> strip_session_cookie [(''Cookie'', [''__Host-asp_session =secret''])] = [(''Cookie'', [''__Host-asp_session =secret''])]"
  by code_simp

section \<open>Admission\<close>

lemma authenticate_Inr:
  assumes inv: "reg_inv r" and a: "authenticate env n1 n2 host session r = (Inr e, r')"
  shows "r' = r \<and> canonical_host env host = Inr (exp_host e) \<and> n1 < exp_expires_at e
    \<and> (\<exists>st. live r (ref_for e) st \<and> es_exposure st = e)
    \<and> (\<exists>c. sessions r (sha256 env session) = Some c \<and> cred_exposure c = ref_for e \<and> n2 < cred_expires_at c)"
proof -
  from a obtain e' r1 where l: "lookup_host env n1 host r = (Inr e', r1)" and c: "check_session env n2 e' session r1 = (Inr e, r')"
    by (auto simp: authenticate_def split: prod.splits sum.splits if_split_asm)
  from l obtain hc st where h: "canonical_host env host = Inr hc" "hosts r hc = Some (ref_for e')"
    and st: "live r (ref_for e') st" and e': "e' = es_exposure st" and x: "n1 < exp_expires_at e'" "r1 = r"
    by (rule lookup_host_Inr)
  from c obtain cr where cr: "sessions r1 (sha256 env session) = Some cr" "cred_exposure cr = ref_for e'"
    "n2 < cred_expires_at cr" "e = e'" "r' = r1" by (rule check_session_Inr)
  have "exp_host e' = hc"
    using reg_invD(2) [OF inv] h(2) live_unique [OF st] e' unfolding hosts_ok_def by blast
  with h st x cr e' show ?thesis by blast
qed

lemma authenticate_same: "authenticate env n1 n2 host session r = (Inr e, r') \<Longrightarrow> r' = r"
proof -
  assume "authenticate env n1 n2 host session r = (Inr e, r')"
  then obtain e' r1 where l: "lookup_host env n1 host r = (Inr e', r1)" and c: "check_session env n2 e' session r1 = (Inr e, r')"
    by (auto simp: authenticate_def split: prod.splits sum.splits if_split_asm)
  from l have "r1 = r" by (rule lookup_host_Inr)
  moreover from c have "r' = r1" by (rule check_session_Inr)
  ultimately show ?thesis by simp
qed

lemma proxy_forwards:
  "proxy_request ul cfg inp rq e target r = (resp, Some out, r') \<Longrightarrow> out = outbound cfg rq target"
  by (auto simp: proxy_request_def Let_def split: option.splits if_split_asm prod.splits sum.splits)

lemma serve_exposure_forwards:
  assumes "serve_exposure ul cfg inp rq e r = (resp, Some out, r')"
  shows "(is_websocket (rq_header rq) \<longrightarrow> allow_websocket e) \<and> rq_content_length rq \<le> rc_body_limit cfg
    \<and> (\<exists>target. ro_resolve inp (exp_id e) = Some target \<and> target_valid (ro_label inp) target \<and> out = outbound cfg rq target)"
  using assms
  by (auto simp: serve_exposure_def split: if_split_asm option.splits prod.splits sum.splits dest: proxy_forwards)

lemma serve_router_forwards:
  assumes "serve_router env ul cfg inp rq r = (resp, Some out, r')"
  obtains host session e r1 r2 where "canonical_host env (rq_host rq) = Inr host" "r1 = ro_between inp 0 r"
    "is_websocket (rq_header rq) \<longrightarrow> valid_websocket_origin env ul (rq_header rq) host"
    "session_credential (rq_header rq) = Some session"
    "authenticate env (ro_clock inp 1) (ro_clock inp 2) host session r1 = (Inr e, r2)"
    "serve_exposure ul cfg inp rq e r2 = (resp, Some out, r')"
proof -
  obtain host where h: "canonical_host env (rq_host rq) = Inr host"
    using assms by (cases "canonical_host env (rq_host rq)") (auto simp: serve_router_def)
  obtain e0 r0 where l: "lookup_host env (ro_clock inp 0) host r = (Inr e0, r0)"
    using assms h by (auto simp: serve_router_def split: prod.splits sum.splits)
  have r0: "r0 = r" using l by (rule lookup_host_Inr)
  have o: "\<not> (is_websocket (rq_header rq) \<and> \<not> valid_websocket_origin env ul (rq_header rq) host)"
    using assms by (auto simp: serve_router_def h l split: if_split_asm)
  have b: "rq_path rq \<noteq> bootstrap_path" "\<not> (\<not> is_websocket (rq_header rq) \<and> rq_has_body rq \<and> \<not> ro_deadline inp)"
    using assms by (auto simp: serve_router_def h l Let_def split: if_split_asm prod.splits)
  obtain session where s: "session_credential (rq_header rq) = Some session"
    using assms o b by (cases "session_credential (rq_header rq)") (auto simp: serve_router_def h l Let_def split: if_split_asm)
  obtain res r2 where a: "authenticate env (ro_clock inp 1) (ro_clock inp 2) host session (ro_between inp 0 r) = (res, r2)" by fastforce
  have "\<exists>e. res = Inr e \<and> serve_exposure ul cfg inp rq e r2 = (resp, Some out, r')"
    using assms o b by (cases res) (auto simp: serve_router_def h l s a r0 Let_def simp del: One_nat_def split: if_split_asm)
  then show thesis using that [OF h refl _ s] a o by blast
qed

lemma outbound_body: "0 \<le> rc_body_limit cfg \<Longrightarrow> int (length (ur_body (outbound cfg rq target))) \<le> rc_body_limit cfg"
  by (simp add: outbound_def)

text \<open>
  C11. Whatever other requests do to the registry in the meantime: a request reaches a workload
  only when it carries exactly one session cookie, which at the moment of authentication was
  an unexpired session of the live, unexpired exposure of the requested host; a WebSocket only
  when the exposure allows it and its origin is that host; a body within the limit only. It
  goes to the service that the resolver names for this exposure and nowhere else, without any
  authorization, proxy-authorization or platform header.
\<close>

theorem router_forwards_authorized:
  assumes inv: "reg_inv r" and between: "\<forall>i r. reg_inv r \<longrightarrow> reg_inv (ro_between inp i r)"
    and keys: "\<forall>k \<in> header_keys (rq_header rq). canonical_key k = k" and limit: "0 \<le> rc_body_limit cfg"
    and fwd: "serve_router env ul cfg inp rq r = (resp, Some out, r')"
  shows "\<exists>host session e c target. canonical_host env (rq_host rq) = Inr host \<and> canonical_host env host = Inr (exp_host e)
    \<and> session_credential (rq_header rq) = Some session
    \<and> (\<exists>st. live (ro_between inp 0 r) (ref_for e) st \<and> es_exposure st = e) \<and> ro_clock inp 1 < exp_expires_at e
    \<and> sessions (ro_between inp 0 r) (sha256 env session) = Some c \<and> cred_exposure c = ref_for e \<and> ro_clock inp 2 < cred_expires_at c
    \<and> (is_websocket (rq_header rq) \<longrightarrow> allow_websocket e \<and> valid_websocket_origin env ul (rq_header rq) host)
    \<and> rq_content_length rq \<le> rc_body_limit cfg \<and> int (length (ur_body out)) \<le> rc_body_limit cfg
    \<and> ro_resolve inp (exp_id e) = Some target \<and> target_valid (ro_label inp) target \<and> ur_authority out = target_authority target
    \<and> (\<forall>k \<in> header_keys (ur_header out). \<not> sensitive_key k)"
proof -
  obtain host session e r1 r2 where s: "canonical_host env (rq_host rq) = Inr host" "r1 = ro_between inp 0 r"
    "is_websocket (rq_header rq) \<longrightarrow> valid_websocket_origin env ul (rq_header rq) host"
    "session_credential (rq_header rq) = Some session"
    "authenticate env (ro_clock inp 1) (ro_clock inp 2) host session r1 = (Inr e, r2)"
    "serve_exposure ul cfg inp rq e r2 = (resp, Some out, r')"
    using fwd by (rule serve_router_forwards)
  have "reg_inv r1" using between inv s(2) by simp
  note a = authenticate_Inr [OF this s(5)]
  obtain target where t: "ro_resolve inp (exp_id e) = Some target" "target_valid (ro_label inp) target" "out = outbound cfg rq target"
    and w: "is_websocket (rq_header rq) \<longrightarrow> allow_websocket e" "rq_content_length rq \<le> rc_body_limit cfg"
    using serve_exposure_forwards [OF s(6)] by blast
  have "\<forall>k \<in> header_keys (ur_header out). \<not> sensitive_key k"
    using outbound_keys [OF keys] by (simp add: t(3) outbound_def)
  moreover have "ur_authority out = target_authority target" by (simp add: t(3) outbound_def)
  ultimately show ?thesis using s(1,3,4) a t w outbound_body [OF limit, of rq target] unfolding s(2) t(3) by blast
qed

section \<open>What a request takes it gives back\<close>

definition idle_inputs :: "router_inputs \<Rightarrow> bool" where
  "idle_inputs inp \<longleftrightarrow> ro_between inp = (\<lambda>_ r. r)"

text \<open>No exposure is new, and those still live have the slots and connections they had.\<close>

definition balanced :: "registry \<Rightarrow> registry \<Rightarrow> bool" where
  "balanced r r' \<longleftrightarrow> (\<forall>ref st'. live r' ref st' \<longrightarrow> (\<exists>st. live r ref st \<and> active st' = active st \<and> conns st' = conns st))"

lemma balanced_shrinks: "shrinks r r' \<Longrightarrow> balanced r r'"
  by (auto simp: shrinks_def balanced_def)

lemma balanced_trans: "balanced r r1 \<Longrightarrow> balanced r1 r2 \<Longrightarrow> balanced r r2"
  unfolding balanced_def by metis

lemma balanced_exposures: "exposures r' = exposures r \<Longrightarrow> balanced r r'"
  by (auto simp: balanced_def live_def)

lemma shrinks_exchange: "shrinks r (snd (exchange env rnd n1 n2 n3 host cap r))"
proof -
  obtain a r1 where l: "lookup_host env n1 host r = (a, r1)" by fastforce
  have s1: "shrinks r r1" using shrinks_lookup [of r env n1 host] by (simp add: l)
  have em: "shrinks q (emit ev q)" for q ev by (rule shrinks_same_exposures) (simp_all add: emit_def)
  show ?thesis
  proof (cases a)
    case (Inr e)
    obtain b r2 where c: "exchange_consume env n2 e cap r1 = (b, r2)" by fastforce
    have s2: "shrinks r r2" using shrinks_trans [OF s1] shrinks_consume [of r1 env n2 e cap] by (simp add: c)
    show ?thesis
      using s1 s2 shrinks_trans [OF s1 em] shrinks_trans [OF s2 shrinks_install]
      by (auto simp: exchange_def l Inr c split: sum.splits option.splits)
  qed (use shrinks_trans [OF s1 em] in \<open>simp add: exchange_def l\<close>)
qed

lemma shrinks_authenticate: "shrinks r (snd (authenticate env n1 n2 host session r))"
proof -
  obtain a r1 where l: "lookup_host env n1 host r = (a, r1)" by fastforce
  have s1: "shrinks r r1" using shrinks_lookup [of r env n1 host] by (simp add: l)
  then show ?thesis
    using shrinks_trans [OF s1 shrinks_check_session] by (cases a) (simp_all add: authenticate_def l)
qed

lemma shrinks_exchange_session: "shrinks r (snd (exchange_session env inp rq host r))"
proof -
  let ?x = "exchange env (ro_random inp) (ro_clock inp 4) (ro_clock inp 5) (ro_clock inp 6) host (rq_body rq) r"
  show ?thesis
    using shrinks_exchange [of r env "ro_random inp" "ro_clock inp 4" "ro_clock inp 5" "ro_clock inp 6" host "rq_body rq"]
    by (cases ?x; cases "fst ?x") (auto simp: exchange_session_def)
qed

lemma proxy_exposures:
  assumes "idle_inputs inp" and fresh: "\<And>c st. ro_dial inp = Some c \<Longrightarrow> exposures r (exp_id e) = Some st \<Longrightarrow> c \<notin> conns st"
    and p: "proxy_request ul cfg inp rq e target r = (resp, out, r')"
  shows "exposures r' = exposures r"
proof (cases "ro_dial inp")
  case (Some c)
  show ?thesis
  proof (cases "exp_id e = []")
    case False
    obtain a r1 where t: "track_connection (ro_clock inp 8) e c r = (a, r1)" by fastforce
    show ?thesis
    proof (cases a)
      case (Inl err)
      then show ?thesis using p Some False t track_connection_Inl [of "ro_clock inp 8" e c r err r1]
        by (simp add: proxy_request_def)
    next
      case (Inr tr)
      then obtain st where st: "live r (ref_for e) st"
        and tr: "tr = \<lparr>tr_ref = ref_for e, tr_conn = c, tr_done = False\<rparr>"
        and r1: "r1 = r\<lparr>exposures := (exposures r)(exp_id e \<mapsto> st\<lparr>conns := insert c (conns st)\<rparr>)\<rparr>"
        using track_connection_Inr [of "ro_clock inp 8" e c r tr r1] t by blast
      have "c \<notin> conns st" using fresh [OF Some] st by (simp add: live_def)
      then have "insert c (conns st) - {c} = conns st" by auto
      moreover have "r' = snd (tracked_close tr r1)"
        using p Some False t Inr assms(1) by (simp add: proxy_request_def Let_def idle_inputs_def)
      ultimately show ?thesis using st by (simp add: tracked_close_def Let_def tr r1 live_def fun_upd_idem)
    qed
  qed (use p Some in \<open>simp add: proxy_request_def\<close>)
qed (use p in \<open>simp add: proxy_request_def\<close>)

lemma release_after_acquire:
  assumes a: "acquire now e r = (Inr sl, r1)" and "exposures r2 = exposures r1"
  shows "exposures (snd (release_slot sl r2)) = exposures r"
proof -
  obtain st where st: "live r (ref_for e) st" "sl = \<lparr>slot_ref = ref_for e, slot_released = False\<rparr>"
    "r1 = r\<lparr>exposures := (exposures r)(exp_id e \<mapsto> st\<lparr>active := active st + 1\<rparr>)\<rparr>"
    using acquire_Inr [OF a] by blast
  then show ?thesis using assms(2) by (simp add: release_slot_def live_def fun_upd_idem)
qed

lemma serve_exposure_exposures:
  assumes idle: "idle_inputs inp" and fresh: "\<And>c i st. ro_dial inp = Some c \<Longrightarrow> exposures r i = Some st \<Longrightarrow> c \<notin> conns st"
    and s: "serve_exposure ul cfg inp rq e r = (resp, out, r')"
  shows "exposures r' = exposures r"
proof (cases "is_websocket (rq_header rq) \<and> \<not> allow_websocket e \<or> rq_content_length rq > rc_body_limit cfg")
  case True
  then show ?thesis using s by (auto simp: serve_exposure_def split: if_split_asm)
next
  case False
  obtain a r1 where ac: "acquire (ro_clock inp 3) e r = (a, r1)" by fastforce
  show ?thesis
  proof (cases a)
    case (Inl err)
    then show ?thesis using s False ac idle acquire_Inl [of "ro_clock inp 3" e r err r1]
      by (auto simp: serve_exposure_def idle_inputs_def split: if_split_asm)
  next
    case (Inr sl)
    note ac = ac [unfolded Inr]
    show ?thesis
    proof (cases "\<exists>target. ro_resolve inp (exp_id e) = Some target \<and> target_valid (ro_label inp) target")
      case True
      then obtain target where t: "ro_resolve inp (exp_id e) = Some target" "target_valid (ro_label inp) target" by blast
      obtain resp2 out2 r2 where p: "proxy_request ul cfg inp rq e target r1 = (resp2, out2, r2)" by (cases "proxy_request ul cfg inp rq e target r1") auto
      have "exposures r2 = exposures r1"
      proof (rule proxy_exposures [OF idle _ p])
        fix c st assume c: "ro_dial inp = Some c" and st: "exposures r1 (exp_id e) = Some st"
        obtain st0 where "live r (ref_for e) st0"
            "r1 = r\<lparr>exposures := (exposures r)(exp_id e \<mapsto> st0\<lparr>active := active st0 + 1\<rparr>)\<rparr>"
          using ac by (rule acquire_Inr)
        then have "exposures r (exp_id e) = Some st0" and "st = st0\<lparr>active := active st0 + 1\<rparr>"
          using st by (simp_all add: live_def)
        then show "c \<notin> conns st" using fresh [OF c] by simp
      qed
      then have "exposures (snd (release_slot sl r2)) = exposures r" by (rule release_after_acquire [OF ac])
      moreover have "r' = snd (release_slot sl r2)"
        using s \<open>\<not> _\<close> ac t p idle by (simp add: serve_exposure_def idle_inputs_def split: if_split_asm)
      ultimately show ?thesis by simp
    next
      case unresolved: False
      have "r' = snd (release_slot sl r1)"
        using s \<open>\<not> (is_websocket _ \<and> _ \<or> _)\<close> ac unresolved idle
        by (auto simp: serve_exposure_def idle_inputs_def split: if_split_asm option.splits)
      then show ?thesis using release_after_acquire [OF ac refl] by simp
    qed
  qed
qed

text \<open>
  Whatever becomes of a request, it leaves nothing behind: when no other request runs in the
  meantime, every exposure that is still live has exactly the active count and the tracked
  connections it had before, on every path through the handler, so no refused, failed or
  completed request uses up a slot.
\<close>

theorem router_leaves_no_slot:
  assumes "idle_inputs inp" and fresh: "\<And>c i st. ro_dial inp = Some c \<Longrightarrow> exposures r i = Some st \<Longrightarrow> c \<notin> conns st"
    and s: "serve_router env ul cfg inp rq r = (resp, out, r')"
  shows "balanced r r'"
proof -
  have id: "ro_between inp n q = q" for n q using assms(1) by (simp add: idle_inputs_def)
  show ?thesis
  proof (cases "canonical_host env (rq_host rq)")
    case host: (Inr host)
    obtain a r0 where l: "lookup_host env (ro_clock inp 0) host r = (a, r0)" by fastforce
    have b0: "balanced r r0" using balanced_shrinks [OF shrinks_lookup [of r env "ro_clock inp 0" host]] by (simp add: l)
    show ?thesis
    proof (cases a)
      case (Inr e0)
      have r0: "r0 = r" using l [unfolded Inr] by (rule lookup_host_Inr)
      obtain q rq' where ex: "exchange_session env inp rq host r = (q, rq')" by fastforce
      have bx: "balanced r rq'" using balanced_shrinks [OF shrinks_exchange_session [of r env inp rq host]] by (simp add: ex)
      have auth: "balanced r (snd (authenticate env (ro_clock inp 1) (ro_clock inp 2) host session r))" for session
        by (rule balanced_shrinks [OF shrinks_authenticate])
      have served: "balanced r r'" if "serve_exposure ul cfg inp rq e r = (resp, out, r')" for e
        by (rule balanced_exposures [OF serve_exposure_exposures [OF assms(1) fresh that]])
      note defs = serve_router_def host l Inr r0 id ex Let_def
      show ?thesis
      proof (cases "session_credential (rq_header rq)")
        case None
        then show ?thesis using s bx balanced_exposures [of r r] by (auto simp: defs split: if_split_asm)
      next
        case (Some session)
        obtain res r2 where au: "authenticate env (ro_clock inp 1) (ro_clock inp 2) host session r = (res, r2)" by fastforce
        have "r' = r \<or> r' = rq' \<or> r' = r2 \<or> (\<exists>e. res = Inr e \<and> serve_exposure ul cfg inp rq e r2 = (resp, out, r'))"
          using s by (cases res) (auto simp: defs Some au simp del: One_nat_def split: if_split_asm)
        moreover have "balanced r r2" using auth [of session] by (simp add: au del: One_nat_def)
        moreover have "balanced r r" by (simp add: balanced_exposures)
        moreover have "r2 = r" if "res = Inr e" for e using authenticate_same au that by blast
        ultimately show ?thesis using bx served by blast
      qed
    qed (use s l b0 in \<open>simp add: serve_router_def host\<close>)
  qed (use s in \<open>simp add: serve_router_def balanced_exposures\<close>)
qed

end
