(* ===== verification/Workload_Response.thy ===== *)
theory Workload_Response
  imports Workload_Router_Props
begin

text \<open>
  The other direction of the data plane: what a workload's response may carry to the browser,
  and that a capability, exchanged for a session cookie, opens the way to the workload. The
  properties of the handler are applied to a request on the sample registry.
\<close>

section \<open>Headers of a response\<close>

lemma fold_add_values:
  "header_values n (fold (\<lambda>c h. if \<not> P c then header_add n c h else h) cs h)
   = header_values n h @ filter (\<lambda>c. \<not> P c) cs"
  by (induction cs arbitrary: h) (simp_all add: header_values_add)

lemma fold_add_other:
  "canonical_key m \<noteq> canonical_key n \<Longrightarrow>
   header_values m (fold (\<lambda>c h. if \<not> P c then header_add n c h else h) cs h) = header_values m h"
  by (induction cs arbitrary: h) (simp_all add: header_values_add)

lemma response_keys:
  "canonical_key ''Clear-Site-Data'' \<noteq> canonical_key ''Set-Cookie''" "canonical_key ''Location'' \<noteq> canonical_key ''Set-Cookie''"
  "canonical_key ''Set-Cookie'' \<noteq> canonical_key ''Location''" "canonical_key ''Clear-Site-Data'' \<noteq> canonical_key ''Location''"
  "canonical_key ''Set-Cookie'' \<noteq> canonical_key ''Clear-Site-Data''" "canonical_key ''Location'' \<noteq> canonical_key ''Clear-Site-Data''"
  by code_simp+

lemma strip_reserved_cookies:
  "header_values ''Set-Cookie'' (strip_reserved_headers h) = filter (\<lambda>c. \<not> reserved_cookie c) (header_values ''Set-Cookie'' h)"
  by (simp add: strip_reserved_headers_def Let_def header_values_del fold_add_values response_keys del: not_not)

lemma strip_reserved_clear:
  "\<forall>v \<in> set (header_values ''Clear-Site-Data'' (strip_reserved_headers h)). \<not> clears_cookies v"
  by (auto simp: strip_reserved_headers_def Let_def header_values_del list_ex_iff)

text \<open>A location that may be passed on: within the site itself, or elsewhere and no internal service.\<close>

definition location_ok :: "url_lib \<Rightarrow> string \<Rightarrow> service_target \<Rightarrow> string \<Rightarrow> bool" where
  "location_ok ul external target v \<longleftrightarrow>
     (\<exists>u. v = ul_string ul (u\<lparr>u_scheme := ''https'', u_host := external\<rparr>))
     \<or> (\<exists>u. ul_parse ul v = Some u \<and> \<not> u_user u \<and> u_opaque u = []
          \<and> (u_host u = [] \<and> u_scheme u = []
             \<or> u_host u \<noteq> [] \<and> \<not> matches_authority target (u_host u)
               \<and> \<not> has_suffix (to_lower (trim_suffix (url_hostname u) ''.'')) ''.svc''
               \<and> \<not> has_suffix (to_lower (trim_suffix (url_hostname u) ''.'')) ''.svc.cluster.local''))"

lemma rewrite_location_other:
  "rewrite_location ul h external target = Some h' \<Longrightarrow> canonical_key n \<noteq> canonical_key ''Location'' \<Longrightarrow>
   header_values n h' = header_values n h"
  by (auto simp: rewrite_location_def header_values_set Let_def split: list.splits if_split_asm option.splits)

lemma rewrite_location_ok:
  assumes "rewrite_location ul h external target = Some h'"
  shows "header_values ''Location'' h' = [] \<or> (\<exists>v. header_values ''Location'' h' = [v] \<and> location_ok ul external target v)"
proof (cases "header_values ''Location'' h")
  case (Cons v vs)
  then obtain u where v: "vs = []" "ul_parse ul v = Some u" "\<not> u_user u" "u_opaque u = []"
    using assms by (auto simp: rewrite_location_def split: list.splits if_split_asm option.splits)
  show ?thesis
  proof (cases "u_host u \<noteq> [] \<and> matches_authority target (u_host u)")
    case True
    then have "h' = header_set ''Location'' (ul_string ul (u\<lparr>u_scheme := ''https'', u_host := external\<rparr>)) h"
      using assms Cons v by (auto simp: rewrite_location_def split: if_split_asm)
    then show ?thesis by (auto simp: header_values_set location_ok_def)
  next
    case False
    then have "h' = h" "u_host u = [] \<and> u_scheme u = []
             \<or> u_host u \<noteq> [] \<and> \<not> matches_authority target (u_host u)
               \<and> \<not> has_suffix (to_lower (trim_suffix (url_hostname u) ''.'')) ''.svc''
               \<and> \<not> has_suffix (to_lower (trim_suffix (url_hostname u) ''.'')) ''.svc.cluster.local''"
      using assms Cons v by (auto simp: rewrite_location_def Let_def split: if_split_asm)
    then show ?thesis using Cons v by (auto simp: location_ok_def)
  qed
qed (use assms in \<open>simp add: rewrite_location_def\<close>)

lemma proxy_relays:
  assumes "proxy_request ul cfg inp rq e target r = (Relayed st h b, out, r')"
  shows "\<exists>hd. rewrite_location ul (strip_reserved_headers hd) (rq_host rq) target = Some h"
  using assms
  by (auto simp: proxy_request_def Let_def upstream_unavailable_def split: option.splits if_split_asm prod.splits sum.splits)

lemma serve_exposure_relays:
  assumes "serve_exposure ul cfg inp rq e r = (Relayed st h b, out, r')"
  shows "\<exists>target hd. ro_resolve inp (exp_id e) = Some target
    \<and> rewrite_location ul (strip_reserved_headers hd) (rq_host rq) target = Some h"
  using assms
  by (auto simp: serve_exposure_def upstream_unavailable_def authorization_required_def dest: proxy_relays
      split: if_split_asm option.splits prod.splits sum.splits)

lemma serve_router_relays:
  assumes "serve_router env ul cfg inp rq r = (Relayed st h b, out, r')"
  shows "\<exists>e r1. serve_exposure ul cfg inp rq e r1 = (Relayed st h b, out, r')"
  using assms
  by (auto simp: serve_router_def Let_def upstream_unavailable_def authorization_required_def authorization_failed_def
      bootstrap_page_def exchange_session_def split: sum.splits if_split_asm option.splits prod.splits)

text \<open>
  C21. A workload cannot interfere with the sessions of the platform: a relayed response sets no
  cookie of the session's name in any case, does not make the browser clear its cookies, and
  if it redirects then once, to a place on the requested host itself or, for another host, to
  one that is neither the workload's service nor any name of the cluster's services.
\<close>

theorem workload_response_confined:
  assumes "serve_router env ul cfg inp rq r = (Relayed st h b, out, r')"
  shows "(\<forall>c \<in> set (header_values ''Set-Cookie'' h). \<not> reserved_cookie c)
    \<and> (\<forall>v \<in> set (header_values ''Clear-Site-Data'' h). \<not> clears_cookies v)
    \<and> (\<exists>i target. ro_resolve inp i = Some target
        \<and> (header_values ''Location'' h = [] \<or> (\<exists>v. header_values ''Location'' h = [v] \<and> location_ok ul (rq_host rq) target v)))"
proof -
  obtain e r1 where "serve_exposure ul cfg inp rq e r1 = (Relayed st h b, out, r')" using serve_router_relays [OF assms] by blast
  then obtain target hd where t: "ro_resolve inp (exp_id e) = Some target"
    and h: "rewrite_location ul (strip_reserved_headers hd) (rq_host rq) target = Some h"
    using serve_exposure_relays by blast
  note other = rewrite_location_other [OF h]
  have "header_values ''Set-Cookie'' h = header_values ''Set-Cookie'' (strip_reserved_headers hd)"
    and "header_values ''Clear-Site-Data'' h = header_values ''Clear-Site-Data'' (strip_reserved_headers hd)"
    by (rule other, rule response_keys)+
  then show ?thesis
    using rewrite_location_ok [OF h] t strip_reserved_clear [of hd] by (auto simp: strip_reserved_cookies)
qed

section \<open>A request on the sample registry\<close>

definition sample_target :: service_target where
  "sample_target = \<lparr>st_service = ''web'', st_namespace = ''apps'', st_port = 80\<rparr>"

definition sample_router_inputs :: router_inputs where
  "sample_router_inputs = \<lparr>ro_clock = (\<lambda>_. second), ro_between = (\<lambda>_ r. r), ro_random = sample_random CHR ''d'', ro_deadline = True,
     ro_media_type = Some ''text/plain'', ro_resolve = [''exp'' \<mapsto> sample_target], ro_label = (\<lambda>_. True), ro_dial = Some 9,
     ro_upstream = (\<lambda>_. Some \<lparr>up_status = 302, up_header = [(''Location'', [''http://web.apps.svc/a'']),
         (''Set-Cookie'', [''__HOST-ASP_SESSION=x'', ''b=2''])], up_body = []\<rparr>)\<rparr>"

definition sample_url_lib :: url_lib where
  "sample_url_lib = \<lparr>ul_parse = (\<lambda>v. if v = ''http://web.apps.svc/a'' then Some \<lparr>u_scheme = ''http'', u_opaque = [], u_user = False,
       u_host = ''web.apps.svc'', u_path = ''/a'', u_raw_path = [], u_raw_query = [], u_force_query = False, u_fragment = []\<rparr> else None),
     ul_string = (\<lambda>u. u_scheme u @ ''://'' @ u_host u @ u_path u)\<rparr>"

definition with_session :: "router_request \<Rightarrow> string \<Rightarrow> router_request" where
  "with_session rq v = rq\<lparr>rq_header := [(''Cookie'', [session_cookie_name @ CHR ''='' # v])]\<rparr>"

definition sample_router_request :: router_request where
  "sample_router_request = \<lparr>rq_method = ''GET'', rq_host = ''App.Example'', rq_path = ''/x'', rq_header = [], rq_content_length = 0,
     rq_has_body = False, rq_body = [], rq_body_error = False\<rparr>"

definition sample_router_get :: router_request where
  "sample_router_get = with_session sample_router_request sample_session"

lemma sample_request_facts:
  "session_credential (rq_header sample_router_get) = Some sample_session" "\<not> is_websocket (rq_header sample_router_get)"
  "rq_path sample_router_get \<noteq> bootstrap_path" "\<not> rq_has_body sample_router_get" "rq_host sample_router_get = ''App.Example''"
  "rq_content_length sample_router_get = 0"
  by code_simp+

lemma sample_inputs_sel [simp]:
  "ro_clock sample_router_inputs n = second" "ro_between sample_router_inputs n r = r"
  "ro_resolve sample_router_inputs = [''exp'' \<mapsto> sample_target]" "ro_label sample_router_inputs x" "ro_dial sample_router_inputs = Some 9"
  by (simp_all add: sample_router_inputs_def)

lemma sample_admitted:
  "serve_router sample_env ul cfg sample_router_inputs sample_router_get (sreg sample_s6)
   = serve_exposure ul cfg sample_router_inputs sample_router_get sample_exposure (sreg sample_s6)"
  by (simp add: serve_router_def sample_request_facts sample_lookup [of _ 1 "{7}"] sample_authenticate Let_def)

lemma sample_outbound:
  "rewrite_location sample_url_lib (strip_reserved_headers [(''Location'', [''http://web.apps.svc/a'']),
     (''Set-Cookie'', [''__HOST-ASP_SESSION=x'', ''b=2''])]) ''App.Example'' sample_target
   = Some [(''Location'', [''https://App.Example/a'']), (''Set-Cookie'', [''b=2''])]"
  by code_simp

lemma sample_relayed:
  "\<exists>out r'. serve_router sample_env sample_url_lib (new_router 0 0) sample_router_inputs sample_router_get (sreg sample_s6)
     = (Relayed 302 [(''Location'', [''https://App.Example/a'']), (''Set-Cookie'', [''b=2''])] [], Some out, r')"
proof -
  have "rc_body_limit (new_router 0 0) = 16777216" by (simp add: new_router_def default_body_limit_def)
  moreover have "target_valid (ro_label sample_router_inputs) sample_target"
    by (simp add: target_valid_def new_service_target_def sample_target_def)
  ultimately show ?thesis
    using sample_outbound
    by (simp add: sample_admitted serve_exposure_def sample_request_facts acquire_def track_connection_def proxy_request_def Let_def
        sample_router_inputs_def [THEN arg_cong [where f = ro_upstream]])
qed

lemma workload_response_confined_witness:
  "\<exists>h out r'. serve_router sample_env sample_url_lib (new_router 0 0) sample_router_inputs sample_router_get (sreg sample_s6) = (Relayed 302 h [], Some out, r')
     \<and> (\<forall>c \<in> set (header_values ''Set-Cookie'' h). \<not> reserved_cookie c)"
  using sample_relayed workload_response_confined by fast

lemma sample_between: "\<forall>i r. reg_inv r \<longrightarrow> reg_inv (ro_between sample_router_inputs i r)"
  by simp

lemma router_forwards_authorized_witness:
  "\<exists>(out :: upstream_request) (e :: exposure) target. ro_resolve sample_router_inputs (exp_id e) = Some target \<and> ur_authority out = target_authority target
     \<and> (\<exists>st. live (sreg sample_s6) (ref_for e) st \<and> es_exposure st = e)"
proof -
  obtain resp out r' where s: "serve_router sample_env sample_url_lib (new_router 0 0) sample_router_inputs sample_router_get (sreg sample_s6)
     = (resp, Some out, r')" using sample_relayed by blast
  have inv: "reg_inv (sreg sample_s6)" using reachable_core [OF sample_init sample_run] by (simp add: core_def)
  have keys: "\<forall>k \<in> header_keys (rq_header sample_router_get). canonical_key k = k"
    by (simp add: sample_router_get_def with_session_def header_keys_def cookie_key)
  have limit: "0 \<le> rc_body_limit (new_router 0 0)" by (simp add: new_router_def default_body_limit_def)
  show ?thesis using router_forwards_authorized [OF inv sample_between keys limit s] unfolding sample_inputs_sel(2) by blast
qed

lemma router_leaves_no_slot_witness:
  "\<exists>resp out r'. serve_router sample_env sample_url_lib (new_router 0 0) sample_router_inputs sample_router_get (sreg sample_s6) = (resp, Some out, r')
     \<and> balanced (sreg sample_s6) r'"
proof -
  obtain resp out r' where s: "serve_router sample_env sample_url_lib (new_router 0 0) sample_router_inputs sample_router_get (sreg sample_s6)
     = (resp, Some out, r')" using sample_relayed by blast
  have idle: "idle_inputs sample_router_inputs" by (simp add: idle_inputs_def fun_eq_iff)
  have fresh: "c \<notin> conns st" if "ro_dial sample_router_inputs = Some c" "exposures (sreg sample_s6) i = Some st" for c i st
    using that by (auto split: if_split_asm)
  have "balanced (sreg sample_s6) r'" by (rule router_leaves_no_slot [OF idle _ s]) (rule fresh)
  then show ?thesis using s by blast
qed


section \<open>From a capability to the workload\<close>

lemma cookie_alphabet:
  "list_all (\<lambda>c. valid_cookie_byte c \<and> c \<noteq> CHR '';'' \<and> c \<noteq> CHR 0x22 \<and> \<not> ascii_space c) (alphabet raw_url_encoding)"
  by code_simp

lemma cookie_chars:
  assumes "set v \<subseteq> set (alphabet raw_url_encoding)"
  shows "list_all valid_cookie_byte v" "CHR '';'' \<notin> set v" "CHR 0x22 \<notin> set v" "c \<in> set v \<Longrightarrow> \<not> ascii_space c"
  using cookie_alphabet assms unfolding list_all_iff by blast+

lemma cut_append: "c \<notin> set a \<Longrightarrow> cut c (a @ c # b) = (a, b, True)"
  by (induction a) (auto simp: cut_def)

lemma trim_ascii_id:
  assumes "s \<noteq> []" and "\<not> ascii_space (hd s)" and "\<not> ascii_space (last s)"
  shows "trim_ascii s = s"
proof -
  have "dropWhile ascii_space s = s" using assms by (cases s) auto
  moreover have "dropWhile ascii_space (rev s) = rev s" using assms(1,3) by (cases "rev s") (auto simp: hd_rev [symmetric])
  ultimately show ?thesis by (simp add: trim_ascii_def)
qed

lemma other_keys: "canonical_key ''Connection'' \<noteq> ''Cookie''" "canonical_key ''Upgrade'' \<noteq> ''Cookie''" "canonical_key ''Origin'' \<noteq> ''Cookie''"
  by code_simp+

lemma session_name_facts:
  "session_cookie_name \<noteq> []" "list_all token_char session_cookie_name" "CHR '';'' \<notin> set session_cookie_name"
  "CHR ''='' \<notin> set session_cookie_name" "\<not> ascii_space (hd session_cookie_name)" "trim_ascii session_cookie_name = session_cookie_name"
  by code_simp+

lemma session_cookie_read:
  assumes v: "set v \<subseteq> set (alphabet raw_url_encoding)" and ne: "v \<noteq> []"
  shows "session_credential [(''Cookie'', [session_cookie_name @ CHR ''='' # v])] = Some v"
proof -
  note c = cookie_chars [OF v]
  let ?l = "session_cookie_name @ CHR ''='' # v"
  have split: "split_on CHR '';'' ?l = [?l]" by (rule split_on_free) (use c(2) session_name_facts(3) in simp)
  have last: "\<not> ascii_space (last ?l)" using c(4) [of "last v"] ne by simp
  have trim: "trim_ascii ?l = ?l"
    by (rule trim_ascii_id) (use last session_name_facts(1,5) in simp_all)
  have hd: "hd v \<noteq> CHR 0x22" using c(3) hd_in_set [OF ne] by metis
  have "parse_cookie_value v = Some v" using c(1) hd by (simp add: parse_cookie_value_def)
  then have "read_cookie ?l = Some (session_cookie_name, v)"
    unfolding read_cookie_def trim cut_append [OF session_name_facts(4)]
    using session_name_facts(1,2,6) by simp
  then have "read_cookies [(''Cookie'', [?l])] = [(session_cookie_name, v)]"
    by (simp add: read_cookies_def header_values_def cookie_key split List.map_filter_def)
  then show ?thesis by (simp add: session_credential_def)
qed

lemma raw_url_chars: "set (b64_encode raw_url_encoding x) \<subseteq> set (alphabet raw_url_encoding)"
  using raw_encode_chars [OF well_formed_raw_url, of x] by (simp add: raw_url_encoding_def)

lemma lookup_live:
  assumes inv: "reg_inv r" and l: "live r (ref_for e) st" "es_exposure st = e" and h: "canonical_host env host = Inr (exp_host e)"
    and n: "n < exp_expires_at e"
  shows "lookup_host env n host r = (Inr e, r)"
proof -
  have st: "exposures r (exp_id e) = Some st" using l(1) by (simp add: live_def)
  have "hosts r (exp_host e) = Some (ref_for e)"
    using reg_invD(1) [OF inv st] l(2) by (simp add: exposure_ok_def)
  then show ?thesis using st l(2) n by (simp add: lookup_host_def h)
qed

lemma exchange_live:
  assumes inv: "reg_inv r" and l: "live r (ref_for e) st" "es_exposure st = e" and h: "canonical_host env host = Inr (exp_host e)"
    and n: "n1 < exp_expires_at e" "n2 < cred_expires_at c" "n3 < exp_expires_at e"
    and c: "capabilities r (sha256 env cap) = Some c" "cred_exposure c = ref_for e" "valid_credential_shape cap"
    and cr: "new_credential env rnd = Some (tok, dg)"
  shows "\<exists>r1. exchange env rnd n1 n2 n3 host cap r = (Inr (tok, min (exp_expires_at e) (n3 + session_ttl r)), r1)
     \<and> reg_inv r1 \<and> live r1 (ref_for e) st
     \<and> sessions r1 dg = Some \<lparr>cred_exposure = ref_for e, cred_expires_at = min (exp_expires_at e) (n3 + session_ttl r)\<rparr>"
proof -
  let ?x = "min (exp_expires_at e) (n3 + session_ttl r)"
  let ?r1 = "r\<lparr>capabilities := (capabilities r)(sha256 env cap := None)\<rparr>"
  let ?s = "\<lparr>cred_exposure = ref_for e, cred_expires_at = ?x\<rparr>"
  let ?r2 = "emit (mk_event (exp_id e) ''exchange'' ''allowed'') (?r1\<lparr>sessions := (sessions ?r1)(dg \<mapsto> ?s)\<rparr>)"
  have st: "exposures r (exp_id e) = Some st" using l(1) by (simp add: live_def)
  have consume: "exchange_consume env n2 e cap r = (Inr (), ?r1)"
    using c n(2) st l by (simp add: exchange_consume_def Let_def)
  then have inv1: "reg_inv ?r1" using reg_inv_consume [OF inv, of env n2 e cap] by simp
  have l1: "live ?r1 (ref_for e) st" using l(1) by (simp add: live_def)
  have install: "exchange_install n3 e tok dg ?r1 = (Inr (tok, ?x), ?r2)"
    using st l n(3) by (auto simp: exchange_install_def Let_def min_def)
  have "reg_inv (?r1\<lparr>sessions := (sessions ?r1)(dg \<mapsto> ?s)\<rparr>)"
    by (rule reg_inv_session_add [OF inv1, where st = st]) (use l1 in \<open>simp_all add: l(2)\<close>)
  moreover have "live ?r2 (ref_for e) st" using l(1) by (simp add: live_def)
  ultimately show ?thesis
    by (intro exI [of _ ?r2]) (simp add: exchange_def lookup_live [OF inv l h n(1)] c(3) consume cr install)
qed


definition sample_post :: router_request where
  "sample_post = \<lparr>rq_method = ''POST'', rq_host = ''App.Example'', rq_path = bootstrap_path, rq_header = [], rq_content_length = 43,
     rq_has_body = True, rq_body = sample_cap, rq_body_error = False\<rparr>"


end
