(* ===== verification/Sdk_Client.thy ===== *)
theory Sdk_Client
  imports Http_Api Workload_Router
begin

text \<open>
  The Go SDK (\<open>packages/sdk-go\<close>): errors, the client with its requests and responses, leases, lists
  of leases, commands and small files. The HTTP client is a function from a request and the
  state of the other side; JSON encoding and decoding, the parsing of URLs and the outcome of
  the credentials are inputs.
\<close>

section \<open>Errors\<close>

text \<open>
  \<open>Error\<close> with its status and code; \<open>Invalid_argument\<close> stands for an error made by \<open>errors.New\<close>
  on a bad argument, \<open>Command_failed\<close> for \<open>CommandFailedError\<close> and its exit status, \<open>Other_error\<close> for
  an error of a library that is passed on.
\<close>

datatype sdk_error = Sdk_error int string | Invalid_argument | Command_failed int | Other_error

definition client_closed :: sdk_error where "client_closed = Sdk_error 0 ''CLIENT_CLOSED''"
definition request_failed :: sdk_error where "request_failed = Sdk_error 0 ''REQUEST_FAILED''"
definition invalid_response :: sdk_error where "invalid_response = Sdk_error 0 ''INVALID_RESPONSE''"
definition integrity_error :: sdk_error where "integrity_error = Sdk_error 0 ''INTEGRITY_ERROR''"
definition aborted_error :: sdk_error where "aborted_error = Sdk_error 0 ''ABORTED''"
definition sdk_too_large :: sdk_error where "sdk_too_large = Sdk_error 0 ''TRANSFER_TOO_LARGE''"

text \<open>\<open>Error.Is\<close> against another \<open>Error\<close>, by codes.\<close>

definition error_is :: "string \<Rightarrow> string \<Rightarrow> bool" where
  "error_is code target =
     (target \<noteq> [] \<and>
      (if target = ''INTEGRITY_ERROR'' then code \<in> {''INTEGRITY_ERROR'', ''CONTENT_LENGTH_MISMATCH'', ''CONTENT_DIGEST_MISMATCH'', ''INVALID_CONTENT_DIGEST''}
       else code = target))"

text \<open>\<open>operationError\<close>: an error of the SDK passes through, any other (\<open>None\<close>) is a failed request.\<close>

definition operation_error :: "sdk_error option \<Rightarrow> sdk_error" where
  "operation_error e = (case e of Some err \<Rightarrow> err | None \<Rightarrow> request_failed)"

section \<open>Requests and responses\<close>

record client_request =
  cq_method :: string
  cq_path :: string
  cq_query :: "(string \<times> string) list"
  cq_token :: string
  cq_accept :: string
  cq_content_type :: string
  cq_idempotency_key :: string
  cq_content_length :: int
  cq_content_digest :: string
  cq_body :: bytes

record client_response =
  cr_status :: int
  cr_content_type :: string
  cr_content_length :: string
  cr_content_digest :: string
  cr_body :: bytes
  cr_body_error :: bool

datatype sdk_body =
    Acquire_json string "int option"
  | Exec_json string "string option" "(string \<times> string) list option" "int option"
  | Read_json string string
  | Write_json string string string

text \<open>A time of zero is the zero value of a Go time.\<close>

record sdk_lease =
  sl_id :: string
  sl_pool :: string
  sl_status :: string
  sl_created :: "time option"
  sl_expires :: "time option"
  sl_last_used :: "time option"

record sdk_codec =
  sc_encode :: "sdk_body \<Rightarrow> bytes option"
  sc_acquire :: "bytes \<Rightarrow> (sdk_lease \<times> bool) decoded"
  sc_lease :: "bytes \<Rightarrow> sdk_lease decoded"
  sc_list :: "bytes \<Rightarrow> (sdk_lease list \<times> string option) decoded"
  sc_exec :: "bytes \<Rightarrow> exec_result decoded"
  sc_read :: "bytes \<Rightarrow> (string \<times> string) decoded"
  sc_error :: "bytes \<Rightarrow> (string \<times> string) decoded"

text \<open>
  A client at one call: its base path (escaped, ending in a slash), whether it is closed, what
  its credentials yield, the HTTP client, and whether the context is done when a call fails.
\<close>

record 's sdk_client =
  sd_base :: string
  sd_closed :: bool
  sd_token :: "sdk_error option + string"
  sd_send :: "client_request \<Rightarrow> 's \<Rightarrow> (sdk_error option + client_response) \<times> 's"
  sd_ctx_done :: bool
  sd_codec :: sdk_codec

definition sdk_lease_path :: string where "sdk_lease_path = ''v1/leases''"
definition max_json_request_bytes :: nat where "max_json_request_bytes = 1048576"
definition max_json_response_bytes :: nat where "max_json_response_bytes = 16777216"

section \<open>Construction\<close>

text \<open>\<open>strings.TrimRight\<close> with one character.\<close>

definition trim_right_char :: "char \<Rightarrow> string \<Rightarrow> string" where
  "trim_right_char c s = rev (dropWhile (\<lambda>d. d = c) (rev s))"

definition new_client_base :: "(string \<Rightarrow> url option) \<Rightarrow> bool \<Rightarrow> string \<Rightarrow> string option" where
  "new_client_base parse has_credentials base =
     (if \<not> has_credentials then None
      else case parse base of None \<Rightarrow> None
      | Some u \<Rightarrow>
         if u_scheme u = [] \<or> u_scheme u \<noteq> ''http'' \<and> u_scheme u \<noteq> ''https'' \<or> u_host u = [] then None
         else if u_user u \<or> u_raw_query u \<noteq> [] \<or> u_fragment u \<noteq> [] then None
         else Some (trim_right_char CHR ''/'' (u_path u) @ ''/''))"

definition static_token :: "string \<Rightarrow> sdk_error option + string" where
  "static_token t = (let v = trim_space t in if v = [] then Inl None else Inr v)"

text \<open>\<open>Close\<close>, for good.\<close>

definition sdk_close :: "'s sdk_client \<Rightarrow> 's sdk_client" where
  "sdk_close cl = cl\<lparr>sd_closed := True\<rparr>"

section \<open>Paths\<close>

text \<open>\<open>url.PathEscape\<close>.\<close>

definition path_safe :: "char \<Rightarrow> bool" where
  "path_safe c = (unreserved c \<or> c \<in> {CHR ''$'', CHR ''&'', CHR ''+'', CHR '':'', CHR ''='', CHR ''@''})"

definition path_escape :: "string \<Rightarrow> string" where
  "path_escape s = concat (map (\<lambda>c. if path_safe c then [c]
     else [CHR 0x25, upper_hex (byte_val c div 16), upper_hex (byte_val c mod 16)]) s)"

text \<open>
  \<open>URL.ResolveReference\<close> of a relative path: it replaces what follows the last slash of the
  base, then dot segments are removed.
\<close>

definition dot_segment :: "string \<Rightarrow> bool" where
  "dot_segment e = (e = ''.'' \<or> e = ''..'')"

fun resolve_segments :: "string list \<Rightarrow> string list \<Rightarrow> string list" where
  "resolve_segments acc [] = acc"
| "resolve_segments acc (e # es) =
     (if e = ''.'' then resolve_segments acc es
      else if e = ''..'' then resolve_segments (butlast acc) es
      else resolve_segments (acc @ [e]) es)"

definition resolve_path :: "string \<Rightarrow> string \<Rightarrow> string" where
  "resolve_path base ref =
     (let full = rev (dropWhile (\<lambda>c. c \<noteq> CHR ''/'') (rev base)) @ ref;
          segs = split_on CHR ''/'' full;
          r = CHR ''/'' # join_with ''/'' (resolve_segments [] segs) @ (if dot_segment (last segs) then ''/'' else [])
      in if has_prefix r ''//'' then tl r else r)"

section \<open>Calls\<close>

definition bare_request :: "string \<Rightarrow> string \<Rightarrow> (string \<times> string) list \<Rightarrow> string \<Rightarrow> client_request" where
  "bare_request meth path query token =
     \<lparr>cq_method = meth, cq_path = path, cq_query = query, cq_token = token, cq_accept = [], cq_content_type = [],
      cq_idempotency_key = [], cq_content_length = 0, cq_content_digest = [], cq_body = []\<rparr>"

definition new_request :: "'s sdk_client \<Rightarrow> string \<Rightarrow> string \<Rightarrow> (string \<times> string) list \<Rightarrow> sdk_error + client_request" where
  "new_request cl meth path query =
     (if sd_closed cl then Inl client_closed
      else case sd_token cl of
          Inl e \<Rightarrow> Inl (if sd_ctx_done cl then aborted_error else operation_error e)
        | Inr token \<Rightarrow> if blank token then Inl Invalid_argument
            else Inr (bare_request meth (resolve_path (sd_base cl) path) query token))"

definition decode_json_response :: "(bytes \<Rightarrow> 'a decoded) \<Rightarrow> bytes \<Rightarrow> bool \<Rightarrow> sdk_error + 'a" where
  "decode_json_response decode body failed =
     (case decode (take (max_json_response_bytes + 1) body) of
        Decoded v rest \<Rightarrow> if failed \<or> \<not> list_all json_space rest \<or> length body > max_json_response_bytes then Inl invalid_response else Inr v
      | _ \<Rightarrow> Inl invalid_response)"

definition decode_platform_error :: "sdk_codec \<Rightarrow> client_response \<Rightarrow> sdk_error" where
  "decode_platform_error codec resp =
     (case decode_json_response (sc_error codec) (take 1048576 (cr_body resp)) (cr_body_error resp \<and> length (cr_body resp) < 1048576) of
        Inl _ \<Rightarrow> Sdk_error (cr_status resp) []
      | Inr (code, message) \<Rightarrow> if message = [] then Sdk_error (cr_status resp) [] else Sdk_error (cr_status resp) code)"

definition send_error :: "'s sdk_client \<Rightarrow> sdk_error option \<Rightarrow> sdk_error" where
  "send_error cl e = (if sd_ctx_done cl then aborted_error else operation_error e)"

text \<open>\<open>doJSON\<close>, from its response on and as a whole; \<open>decode\<close> is \<open>None\<close> when there is no target.\<close>

definition json_answer :: "sdk_codec \<Rightarrow> (bytes \<Rightarrow> 'a decoded) option \<Rightarrow> int \<Rightarrow> client_response \<Rightarrow> sdk_error + 'a option" where
  "json_answer codec decode expected resp =
     (if cr_status resp \<noteq> expected then Inl (decode_platform_error codec resp)
      else case decode of
          None \<Rightarrow> if cr_body_error resp \<and> length (cr_body resp) \<le> max_json_response_bytes then Inl Other_error else Inr None
        | Some d \<Rightarrow> map_sum id Some (decode_json_response d (cr_body resp) (cr_body_error resp)))"

definition do_json ::
  "'s sdk_client \<Rightarrow> string \<Rightarrow> string \<Rightarrow> (string \<times> string) list \<Rightarrow> string \<Rightarrow> sdk_body option \<Rightarrow> (bytes \<Rightarrow> 'a decoded) option \<Rightarrow> int
    \<Rightarrow> 's \<Rightarrow> (sdk_error + 'a option) \<times> 's" where
  "do_json cl meth path query key body decode expected s =
     (case (case body of None \<Rightarrow> Inr [] | Some b \<Rightarrow> (case sc_encode (sd_codec cl) b of None \<Rightarrow> Inl Other_error
          | Some bs \<Rightarrow> if length bs > max_json_request_bytes then Inl (Sdk_error 0 ''BODY_TOO_LARGE'') else Inr bs)) of
        Inl e \<Rightarrow> (Inl e, s)
      | Inr bs \<Rightarrow>
        (case new_request cl meth path query of Inl e \<Rightarrow> (Inl e, s)
         | Inr rq \<Rightarrow>
           (case sd_send cl (rq\<lparr>cq_accept := ''application/json'', cq_content_type := (if body = None then [] else ''application/json''),
                cq_idempotency_key := key, cq_content_length := int (length bs), cq_body := bs\<rparr>) s of
              (Inl e, s) \<Rightarrow> (Inl (send_error cl e), s)
            | (Inr resp, s) \<Rightarrow> (json_answer (sd_codec cl) decode expected resp, s))))"

definition validate_record :: "sdk_lease \<Rightarrow> sdk_error option" where
  "validate_record r =
     (if sl_id r = [] \<or> sl_pool r = [] \<or> sl_created r = None \<or> sl_expires r = None \<or> sl_last_used r = None then Some invalid_response
      else if sl_status r \<in> {''active'', ''released'', ''expired''} then None else Some invalid_response)"

definition checked_lease :: "sdk_lease \<Rightarrow> sdk_error + sdk_lease" where
  "checked_lease r = (case validate_record r of Some e \<Rightarrow> Inl e | None \<Rightarrow> Inr r)"

text \<open>\<open>newIdempotencyKey\<close>: a random UUID of version 4 from 16 random bytes.\<close>

definition idempotency_key :: "bytes \<Rightarrow> string" where
  "idempotency_key random =
     (let v = random[6 := char_of (byte_val (random ! 6) mod 16 + 64)];
          v = v[8 := char_of (byte_val (v ! 8) mod 64 + 128)];
          h = hex_encode v
      in take 8 h @ ''-'' @ take 4 (drop 8 h) @ ''-'' @ take 4 (drop 12 h) @ ''-'' @ take 4 (drop 16 h) @ ''-'' @ drop 20 h)"

text \<open>\<open>Acquire\<close>; \<open>random\<close> is \<open>None\<close> when the random source fails.\<close>

definition sdk_acquire ::
  "'s sdk_client \<Rightarrow> bytes option \<Rightarrow> string \<Rightarrow> int \<Rightarrow> string \<Rightarrow> 's \<Rightarrow> (sdk_error + sdk_lease \<times> bool \<times> string) \<times> 's" where
  "sdk_acquire cl random pool ttl key s =
     (if blank pool then (Inl Invalid_argument, s)
      else case (if key \<noteq> [] then Some key else map_option idempotency_key random) of
          None \<Rightarrow> (Inl Other_error, s)
        | Some key \<Rightarrow>
           if blank key then (Inl Invalid_argument, s)
           else if ttl < 0 then (Inl Invalid_argument, s)
           else case do_json cl ''POST'' sdk_lease_path [] key (Some (Acquire_json pool (if ttl = 0 then None else Some ttl)))
                (Some (sc_acquire (sd_codec cl))) 201 s of
               (Inl e, s) \<Rightarrow> (Inl e, s)
             | (Inr None, s) \<Rightarrow> (Inl invalid_response, s)
             | (Inr (Some (r, replayed)), s) \<Rightarrow> (map_sum id (\<lambda>r. (r, replayed, key)) (checked_lease r), s))"

definition lease_reference :: "string \<Rightarrow> string \<Rightarrow> string" where
  "lease_reference lid action = sdk_lease_path @ ''/'' @ path_escape lid @ action"

definition one_lease :: "(sdk_error + sdk_lease option) \<times> 's \<Rightarrow> (sdk_error + sdk_lease) \<times> 's" where
  "one_lease r = ((case fst r of Inl e \<Rightarrow> Inl e | Inr None \<Rightarrow> Inl invalid_response | Inr (Some l) \<Rightarrow> checked_lease l), snd r)"

definition sdk_connect :: "'s sdk_client \<Rightarrow> string \<Rightarrow> 's \<Rightarrow> (sdk_error + sdk_lease) \<times> 's" where
  "sdk_connect cl lid s =
     (if blank lid then (Inl Invalid_argument, s)
      else one_lease (do_json cl ''GET'' (lease_reference lid []) [] [] None (Some (sc_lease (sd_codec cl))) 200 s))"

text \<open>Lists of leases.\<close>

record list_options =
  lo_pool :: string
  lo_limit :: int
  lo_cursor :: string

record 'a sdk_page =
  pg_items :: "'a list"
  pg_next :: string

definition list_query :: "list_options \<Rightarrow> (string \<times> string) list" where
  "list_query opt = (if lo_pool opt \<noteq> [] then [(''pool'', lo_pool opt)] else [])
     @ (if lo_limit opt \<noteq> 0 then [(''limit'', itoa (lo_limit opt))] else [])
     @ (if lo_cursor opt \<noteq> [] then [(''cursor'', lo_cursor opt)] else [])"

fun check_leases :: "sdk_lease list \<Rightarrow> sdk_error + sdk_lease list" where
  "check_leases [] = Inr []"
| "check_leases (r # rs) = (case validate_record r of Some e \<Rightarrow> Inl e | None \<Rightarrow> map_sum id (\<lambda>l. r # l) (check_leases rs))"

definition sdk_list_page :: "'s sdk_client \<Rightarrow> list_options \<Rightarrow> 's \<Rightarrow> (sdk_error + sdk_lease sdk_page) \<times> 's" where
  "sdk_list_page cl opt s =
     (if lo_limit opt \<noteq> 0 \<and> (lo_limit opt < 1 \<or> lo_limit opt > 100) then (Inl Invalid_argument, s)
      else case do_json cl ''GET'' sdk_lease_path (list_query opt) [] None (Some (sc_list (sd_codec cl))) 200 s of
          (Inl e, s) \<Rightarrow> (Inl e, s)
        | (Inr None, s) \<Rightarrow> (Inl invalid_response, s)
        | (Inr (Some (rs, next)), s) \<Rightarrow>
            (map_sum id (\<lambda>l. \<lparr>pg_items = l, pg_next = (case next of None \<Rightarrow> [] | Some c \<Rightarrow> c)\<rparr>) (check_leases rs), s))"

section \<open>Commands and small files\<close>

record run_options =
  rn_cwd :: string
  rn_env :: "(string \<times> string) list option"
  rn_timeout :: int
  rn_check :: bool

definition sdk_run :: "'s sdk_client \<Rightarrow> string \<Rightarrow> string \<Rightarrow> run_options \<Rightarrow> 's \<Rightarrow> (sdk_error + exec_result) \<times> 's" where
  "sdk_run cl lid command opt s =
     (if blank command \<or> rn_timeout opt < 0 then (Inl Invalid_argument, s)
      else case do_json cl ''POST'' (lease_reference lid ''/exec'') [] []
             (Some (Exec_json command (if rn_cwd opt = [] then None else Some (rn_cwd opt)) (rn_env opt)
                (if rn_timeout opt > 0 then Some (rn_timeout opt) else None)))
             (Some (sc_exec (sd_codec cl))) 200 s of
          (Inl e, s) \<Rightarrow> (Inl e, s)
        | (Inr None, s) \<Rightarrow> (Inl invalid_response, s)
        | (Inr (Some r), s) \<Rightarrow> (if rn_check opt \<and> xr_code r \<noteq> 0 then Inl (Command_failed (xr_code r)) else Inr r, s))"

definition sdk_read :: "'s sdk_client \<Rightarrow> string \<Rightarrow> string \<Rightarrow> string \<Rightarrow> 's \<Rightarrow> (sdk_error + string \<times> string) \<times> 's" where
  "sdk_read cl lid path enc s =
     (if blank path then (Inl Invalid_argument, s)
      else case do_json cl ''POST'' (lease_reference lid ''/files/read'') [] [] (Some (Read_json path enc)) (Some (sc_read (sd_codec cl))) 200 s of
          (Inl e, s) \<Rightarrow> (Inl e, s) | (Inr None, s) \<Rightarrow> (Inl invalid_response, s) | (Inr (Some r), s) \<Rightarrow> (Inr r, s))"

definition sdk_write :: "'s sdk_client \<Rightarrow> string \<Rightarrow> string \<Rightarrow> string \<Rightarrow> string \<Rightarrow> 's \<Rightarrow> (sdk_error + unit) \<times> 's" where
  "sdk_write cl lid path content enc s =
     (if blank path then (Inl Invalid_argument, s)
      else case do_json cl ''POST'' (lease_reference lid ''/files/write'') [] [] (Some (Write_json path content enc))
             (None :: (bytes \<Rightarrow> unit decoded) option) 200 s of
          (Inl e, s) \<Rightarrow> (Inl e, s) | (Inr _, s) \<Rightarrow> (Inr (), s))"

definition read_text :: "'s sdk_client \<Rightarrow> string \<Rightarrow> string \<Rightarrow> 's \<Rightarrow> (sdk_error + string) \<times> 's" where
  "read_text cl lid path s = (case sdk_read cl lid path ''utf8'' s of (Inl e, s) \<Rightarrow> (Inl e, s)
     | (Inr (content, enc), s) \<Rightarrow> (if enc \<noteq> ''utf8'' then Inl invalid_response else Inr content, s))"

definition read_bytes :: "'s sdk_client \<Rightarrow> string \<Rightarrow> string \<Rightarrow> 's \<Rightarrow> (sdk_error + bytes) \<times> 's" where
  "read_bytes cl lid path s = (case sdk_read cl lid path ''base64'' s of (Inl e, s) \<Rightarrow> (Inl e, s)
     | (Inr (content, enc), s) \<Rightarrow>
        (if enc \<noteq> ''base64'' then Inl invalid_response
         else case b64_decode (strict_form std_encoding) content of None \<Rightarrow> Inl integrity_error
            | Some v \<Rightarrow> if b64_encode std_encoding v \<noteq> content then Inl integrity_error else Inr v, s))"

definition write_text :: "'s sdk_client \<Rightarrow> string \<Rightarrow> string \<Rightarrow> string \<Rightarrow> 's \<Rightarrow> (sdk_error + unit) \<times> 's" where
  "write_text cl lid path content s = sdk_write cl lid path content ''utf8'' s"

definition write_bytes :: "'s sdk_client \<Rightarrow> string \<Rightarrow> string \<Rightarrow> bytes \<Rightarrow> 's \<Rightarrow> (sdk_error + unit) \<times> 's" where
  "write_bytes cl lid path content s = sdk_write cl lid path (b64_encode std_encoding content) ''base64'' s"

end
