(* ===== verification/Sdk_Pager.thy ===== *)
theory Sdk_Pager
  imports Sdk_Client
begin

text \<open>
  The pager of the SDK (\<open>client.go\<close>): \<open>Next\<close> fetches pages until it has a sandbox to give, the
  last page is used up, a cursor comes back a second time, or a request fails. Its loop need
  not end, so it is a partial function; the calls of \<open>ListPage\<close> are a function on a state.
\<close>

section \<open>The pager\<close>

record 'a pager =
  pp_options :: list_options
  pp_seen :: "string list"
  pp_page :: "'a sdk_page"
  pp_index :: nat
  pp_started :: bool
  pp_done :: bool
  pp_current :: "'a option"
  pp_err :: "sdk_error option"

definition empty_page :: "'a sdk_page" where
  "empty_page = \<lparr>pg_items = [], pg_next = []\<rparr>"

definition new_pager :: "list_options \<Rightarrow> 'a pager" where
  "new_pager opt = \<lparr>pp_options = opt, pp_seen = [], pp_page = empty_page, pp_index = 0, pp_started = False, pp_done = False,
     pp_current = None, pp_err = None\<rparr>"

text \<open>What happens before a page is fetched: a cursor already followed is an error.\<close>

definition follow_cursor :: "'a pager \<Rightarrow> 'a pager option" where
  "follow_cursor p =
     (if \<not> pp_started p then Some p
      else if pg_next (pp_page p) \<in> set (pp_seen p) then None
      else Some (p\<lparr>pp_seen := pg_next (pp_page p) # pp_seen p, pp_options := (pp_options p)\<lparr>lo_cursor := pg_next (pp_page p)\<rparr>\<rparr>))"

definition put_page :: "sdk_error + 'a sdk_page \<Rightarrow> 'a pager \<Rightarrow> 'a pager" where
  "put_page r p = p\<lparr>pp_page := (case r of Inl _ \<Rightarrow> empty_page | Inr pg \<Rightarrow> pg),
     pp_err := (case r of Inl e \<Rightarrow> Some e | Inr _ \<Rightarrow> None), pp_started := True, pp_index := 0\<rparr>"

partial_function (option) pager_loop ::
  "(list_options \<Rightarrow> 's \<Rightarrow> (sdk_error + 'a sdk_page) \<times> 's) \<Rightarrow> 'a pager \<Rightarrow> 's \<Rightarrow> ((bool \<times> 'a pager) \<times> 's) option" where
  "pager_loop fetch p s =
     (if pp_index p < length (pg_items (pp_page p))
      then Some ((True, p\<lparr>pp_current := Some (pg_items (pp_page p) ! pp_index p), pp_index := pp_index p + 1\<rparr>), s)
      else if pp_started p \<and> pg_next (pp_page p) = [] then Some ((False, p\<lparr>pp_done := True\<rparr>), s)
      else case follow_cursor p of
          None \<Rightarrow> Some ((False, p\<lparr>pp_err := Some invalid_response\<rparr>), s)
        | Some q \<Rightarrow> pager_loop fetch (put_page (fst (fetch (pp_options q) s)) q) (snd (fetch (pp_options q) s)))"

definition pager_next ::
  "(list_options \<Rightarrow> 's \<Rightarrow> (sdk_error + 'a sdk_page) \<times> 's) \<Rightarrow> 'a pager \<Rightarrow> 's \<Rightarrow> ((bool \<times> 'a pager) \<times> 's) option" where
  "pager_next fetch p s = (if pp_done p \<or> pp_err p \<noteq> None then Some ((False, p), s) else pager_loop fetch p s)"

text \<open>The way a pager is used: call \<open>Next\<close> until it says no, and keep what it gives.\<close>

partial_function (option) pager_drain ::
  "(list_options \<Rightarrow> 's \<Rightarrow> (sdk_error + 'a sdk_page) \<times> 's) \<Rightarrow> 'a pager \<Rightarrow> 's \<Rightarrow> ('a list \<times> 'a pager \<times> 's) option" where
  "pager_drain fetch p s = Option.bind (pager_next fetch p s) (\<lambda>((more, q), s1).
     if more then Option.bind (pager_drain fetch q s1) (\<lambda>(xs, e, s2). Some (the (pp_current q) # xs, e, s2))
     else Some ([], q, s1))"

section \<open>Steps of the loop\<close>

definition running :: "'a pager \<Rightarrow> bool" where
  "running p \<longleftrightarrow> \<not> pp_done p \<and> pp_err p = None"

lemma loop_item:
  "pp_index p < length (pg_items (pp_page p)) \<Longrightarrow> pager_loop fetch p s
   = Some ((True, p\<lparr>pp_current := Some (pg_items (pp_page p) ! pp_index p), pp_index := pp_index p + 1\<rparr>), s)"
  by (subst pager_loop.simps) simp

lemma loop_last:
  "\<not> pp_index p < length (pg_items (pp_page p)) \<Longrightarrow> pp_started p \<Longrightarrow> pg_next (pp_page p) = [] \<Longrightarrow>
   pager_loop fetch p s = Some ((False, p\<lparr>pp_done := True\<rparr>), s)"
  by (subst pager_loop.simps) simp

lemma loop_repeated:
  "\<not> pp_index p < length (pg_items (pp_page p)) \<Longrightarrow> pp_started p \<Longrightarrow> pg_next (pp_page p) \<noteq> [] \<Longrightarrow>
   pg_next (pp_page p) \<in> set (pp_seen p) \<Longrightarrow> pager_loop fetch p s = Some ((False, p\<lparr>pp_err := Some invalid_response\<rparr>), s)"
  by (subst pager_loop.simps) (simp add: follow_cursor_def)

lemma loop_fetch:
  "\<not> pp_index p < length (pg_items (pp_page p)) \<Longrightarrow> \<not> (pp_started p \<and> pg_next (pp_page p) = []) \<Longrightarrow> follow_cursor p = Some q \<Longrightarrow>
   fetch (pp_options q) s = (r, s1) \<Longrightarrow> pager_loop fetch p s = pager_loop fetch (put_page r q) s1"
  by (subst pager_loop.simps) auto

lemma drain_item:
  assumes "running p" and "pp_index p < length (pg_items (pp_page p))"
  shows "pager_drain fetch p s = Option.bind (pager_drain fetch
      (p\<lparr>pp_current := Some (pg_items (pp_page p) ! pp_index p), pp_index := pp_index p + 1\<rparr>) s)
      (\<lambda>(xs, e, s2). Some (pg_items (pp_page p) ! pp_index p # xs, e, s2))"
  using assms by (subst pager_drain.simps) (simp add: pager_next_def running_def loop_item)

lemma drain_last:
  "running p \<Longrightarrow> \<not> pp_index p < length (pg_items (pp_page p)) \<Longrightarrow> pp_started p \<Longrightarrow> pg_next (pp_page p) = [] \<Longrightarrow>
   pager_drain fetch p s = Some ([], p\<lparr>pp_done := True\<rparr>, s)"
  by (subst pager_drain.simps) (simp add: pager_next_def running_def loop_last)

lemma drain_repeated:
  "running p \<Longrightarrow> \<not> pp_index p < length (pg_items (pp_page p)) \<Longrightarrow> pp_started p \<Longrightarrow> pg_next (pp_page p) \<noteq> [] \<Longrightarrow>
   pg_next (pp_page p) \<in> set (pp_seen p) \<Longrightarrow> pager_drain fetch p s = Some ([], p\<lparr>pp_err := Some invalid_response\<rparr>, s)"
  by (subst pager_drain.simps) (simp add: pager_next_def running_def loop_repeated)

lemma drain_page:
  assumes "running p" and "\<not> pp_index p < length (pg_items (pp_page p))" and "\<not> (pp_started p \<and> pg_next (pp_page p) = [])"
    and "follow_cursor p = Some q" and "fetch (pp_options q) s = (Inr pg, s1)"
  shows "pager_drain fetch p s = pager_drain fetch (put_page (Inr pg) q) s1"
proof -
  have run: "running (put_page (Inr pg) q)"
    using assms(1,4) by (auto simp: running_def put_page_def follow_cursor_def split: if_split_asm)
  have "pager_next fetch p s = pager_next fetch (put_page (Inr pg) q) s1"
    using assms(1) run loop_fetch [where fetch = fetch and q = q and s = s, OF assms(2-5)] by (simp add: pager_next_def running_def)
  then show ?thesis by (simp add: pager_drain.simps [of fetch p] pager_drain.simps [of fetch "put_page (Inr pg) q"])
qed

lemma drain_failed:
  assumes "running p" and "\<not> pp_index p < length (pg_items (pp_page p))" and "\<not> (pp_started p \<and> pg_next (pp_page p) = [])"
    and "follow_cursor p = Some q" and "fetch (pp_options q) s = (Inl e, s1)"
  shows "\<exists>r. pager_drain fetch p s = Some ([], r, s1) \<and> pp_err r = Some e"
proof -
  let ?q = "put_page (Inl e) q"
  have "pager_loop fetch ?q s1 = Some ((False, ?q\<lparr>pp_done := True\<rparr>), s1)"
    by (rule loop_last) (simp_all add: put_page_def empty_page_def)
  then have "pager_next fetch p s = Some ((False, ?q\<lparr>pp_done := True\<rparr>), s1)"
    using assms(1) loop_fetch [where fetch = fetch and q = q and s = s, OF assms(2-5)] by (simp add: pager_next_def running_def)
  then show ?thesis by (subst pager_drain.simps) (simp add: put_page_def)
qed

section \<open>How iterations end\<close>

definition at_end :: "'a pager \<Rightarrow> bool" where
  "at_end p \<longleftrightarrow> pp_done p \<or> pp_err p \<noteq> None"

lemma loop_stopped:
  assumes "pager_loop fetch p s = Some r"
  shows "fst (fst r) \<or> at_end (snd (fst r))"
  by (rule pager_loop.raw_induct [where P = "\<lambda>_ _ _ r. fst (fst r) \<or> at_end (snd (fst r))", OF _ assms])
    (auto simp: at_end_def split: if_split_asm option.split_asm)

lemma next_stopped: "pager_next fetch p s = Some ((False, q), s') \<Longrightarrow> at_end q"
  by (auto simp: pager_next_def at_end_def split: if_split_asm dest!: loop_stopped)

lemma drain_stopped:
  assumes "pager_drain fetch p s = Some r"
  shows "at_end (fst (snd r))"
  by (rule pager_drain.raw_induct [where P = "\<lambda>_ _ _ r. at_end (fst (snd r))", OF _ assms])
    (auto simp: bind_eq_Some_conv dest: next_stopped split: if_split_asm)

section \<open>Termination\<close>

definition cursors_in :: "(list_options \<Rightarrow> 's \<Rightarrow> (sdk_error + 'a sdk_page) \<times> 's) \<Rightarrow> string set \<Rightarrow> bool" where
  "cursors_in fetch C \<longleftrightarrow> (\<forall>opt s pg s1. fetch opt s = (Inr pg, s1) \<longrightarrow> pg_next pg \<in> insert [] C)"

lemma cursors_inD: "cursors_in fetch C \<Longrightarrow> fetch opt s = (Inr pg, s1) \<Longrightarrow> pg_next pg \<in> insert [] C"
  unfolding cursors_in_def by blast

definition pager_measure :: "string set \<Rightarrow> 'a pager \<Rightarrow> nat \<times> nat \<times> nat" where
  "pager_measure C p = (if pp_started p then 0 else 1, card (C - set (pp_seen p)), length (pg_items (pp_page p)) - pp_index p)"

lemma drain_returns:
  assumes C: "finite C" "cursors_in fetch C"
  shows "running p \<Longrightarrow> pg_next (pp_page p) \<in> insert [] C \<Longrightarrow> \<exists>r. pager_drain fetch p s = Some r"
proof (induction "pager_measure C p" arbitrary: p s rule: wf_induct_rule [OF wf_lex_prod [OF wf_less_than wf_lex_prod [OF wf_less_than wf_less_than]]])
  case (1 p)
  note IH = "1.hyps" and run = "1.prems"(1) and cur = "1.prems"(2)
  show ?case
  proof (cases "pp_index p < length (pg_items (pp_page p))")
    case True
    let ?p = "p\<lparr>pp_current := Some (pg_items (pp_page p) ! pp_index p), pp_index := pp_index p + 1\<rparr>"
    have "\<exists>r. pager_drain fetch ?p s = Some r"
      by (rule IH) (use True run cur in \<open>auto simp: pager_measure_def running_def\<close>)
    then show ?thesis using drain_item [OF run True, of fetch s] by auto
  next
    case used: False
    show ?thesis
    proof (cases "pp_started p \<and> pg_next (pp_page p) = []")
      case True
      then show ?thesis using drain_last [OF run used, of fetch s] by simp
    next
      case more: False
      show ?thesis
      proof (cases "follow_cursor p")
        case None
        then show ?thesis using more drain_repeated [OF run used, of fetch s] by (auto simp: follow_cursor_def split: if_split_asm)
      next
        case (Some q)
        obtain r s1 where f: "fetch (pp_options q) s = (r, s1)" by fastforce
        show ?thesis
        proof (cases r)
          case (Inl e)
          then show ?thesis using drain_failed [where fetch = fetch and s = s, OF run used more Some f [unfolded Inl]] by auto
        next
          case (Inr pg)
          have "card (C - insert (pg_next (pp_page p)) (set (pp_seen p))) < card (C - set (pp_seen p))"
            if "pg_next (pp_page p) \<in> C" "pg_next (pp_page p) \<notin> set (pp_seen p)"
            by (rule psubset_card_mono) (use C(1) that in auto)
          then have dec: "(pager_measure C (put_page (Inr pg) q), pager_measure C p) \<in> less_than <*lex*> less_than <*lex*> less_than"
            using Some more cur by (auto simp: follow_cursor_def pager_measure_def put_page_def split: if_split_asm)
          have "\<exists>r. pager_drain fetch (put_page (Inr pg) q) s1 = Some r"
          proof (rule IH)
            show "running (put_page (Inr pg) q)"
              using run Some by (auto simp: running_def put_page_def follow_cursor_def split: if_split_asm)
            show "pg_next (pp_page (put_page (Inr pg) q)) \<in> insert [] C"
              using cursors_inD [where fetch = fetch, OF C(2) f [unfolded Inr]] by (simp add: put_page_def)
          qed (rule dec)
          then show ?thesis using drain_page [where fetch = fetch and s = s, OF run used more Some f [unfolded Inr]] by simp
        qed
      qed
    qed
  qed
qed

text \<open>
  C27. Going through a pager comes to an end whenever the cursors the server hands out come from a
  finite set, however often it repeats them and however many pages are empty: a repeated cursor
  ends the iteration instead of starting it again.
\<close>

theorem pager_terminates:
  assumes "finite C" and "cursors_in fetch C"
  shows "\<exists>xs p s'. pager_drain fetch (new_pager opt) s = Some (xs, p, s') \<and> (pp_done p \<or> pp_err p \<noteq> None)"
proof -
  obtain xs p s' where r: "pager_drain fetch (new_pager opt) s = Some (xs, p, s')"
    using drain_returns [OF assms, of "new_pager opt" s] by (auto simp: running_def new_pager_def empty_page_def)
  then show ?thesis using drain_stopped [OF r] by (auto simp: at_end_def)
qed

section \<open>Following the cursors\<close>

text \<open>The sandboxes of all pages, from a first request on, with the cursors followed.\<close>

inductive listing ::
  "(list_options \<Rightarrow> 's \<Rightarrow> (sdk_error + 'a sdk_page) \<times> 's) \<Rightarrow> list_options \<Rightarrow> 's \<Rightarrow> string list \<Rightarrow> 'a list \<Rightarrow> 's \<Rightarrow> bool"
  for fetch where
  listing_last: "fetch opt s = (Inr pg, s1) \<Longrightarrow> pg_next pg = [] \<Longrightarrow> listing fetch opt s [] (pg_items pg) s1"
| listing_more: "fetch opt s = (Inr pg, s1) \<Longrightarrow> pg_next pg \<noteq> [] \<Longrightarrow> listing fetch (opt\<lparr>lo_cursor := pg_next pg\<rparr>) s1 cs xs s2 \<Longrightarrow>
    listing fetch opt s (pg_next pg # cs) (pg_items pg @ xs) s2"

text \<open>What a pager that runs has still to give.\<close>

definition to_fetch ::
  "(list_options \<Rightarrow> 's \<Rightarrow> (sdk_error + 'a sdk_page) \<times> 's) \<Rightarrow> 'a pager \<Rightarrow> 's \<Rightarrow> 'a list \<Rightarrow> 's \<Rightarrow> bool" where
  "to_fetch fetch p s xs s' \<longleftrightarrow>
     (if pp_started p \<and> pg_next (pp_page p) = [] then xs = [] \<and> s' = s
      else \<exists>q cs. follow_cursor p = Some q \<and> listing fetch (pp_options q) s cs xs s' \<and> distinct cs \<and> set cs \<inter> set (pp_seen q) = {})"

definition remaining ::
  "(list_options \<Rightarrow> 's \<Rightarrow> (sdk_error + 'a sdk_page) \<times> 's) \<Rightarrow> 'a pager \<Rightarrow> 's \<Rightarrow> 'a list \<Rightarrow> 's \<Rightarrow> bool" where
  "remaining fetch p s xs s' \<longleftrightarrow> (\<exists>ys. xs = drop (pp_index p) (pg_items (pp_page p)) @ ys \<and> to_fetch fetch p s ys s')"

lemma to_fetch_moved [simp]: "to_fetch fetch (p\<lparr>pp_current := c, pp_index := n\<rparr>) s xs s' \<longleftrightarrow> to_fetch fetch p s xs s'"
  by (auto simp: to_fetch_def follow_cursor_def)

lemma remaining_item:
  assumes "pp_index p < length (pg_items (pp_page p))"
  shows "remaining fetch p s xs s' \<longleftrightarrow> (\<exists>ys. xs = pg_items (pp_page p) ! pp_index p # ys
     \<and> remaining fetch (p\<lparr>pp_current := c, pp_index := Suc (pp_index p)\<rparr>) s ys s')"
  unfolding remaining_def by (auto simp flip: Cons_nth_drop_Suc [OF assms])

lemma remaining_used:
  assumes "\<not> pp_index p < length (pg_items (pp_page p))"
  shows "remaining fetch p s xs s' \<longleftrightarrow> to_fetch fetch p s xs s'"
  using assms by (simp add: remaining_def)

lemma to_fetch_page:
  assumes "fetch (pp_options q) s = (Inr pg, s1)" and "remaining fetch (put_page (Inr pg) q) s1 xs s'"
  shows "\<exists>cs. listing fetch (pp_options q) s cs xs s' \<and> distinct cs \<and> set cs \<inter> set (pp_seen q) = {}"
proof (cases "pg_next pg = []")
  case True
  then have "xs = pg_items pg" "s' = s1" using assms(2) by (auto simp: remaining_def to_fetch_def put_page_def)
  then have "listing fetch (pp_options q) s [] xs s'" using listing_last [where fetch = fetch, OF assms(1) True] by simp
  then show ?thesis by (intro exI [of _ "[]"]) simp
next
  case False
  then obtain cs ys where cs: "xs = pg_items pg @ ys" "listing fetch ((pp_options q)\<lparr>lo_cursor := pg_next pg\<rparr>) s1 cs ys s'"
      "distinct cs" "set cs \<inter> set (pg_next pg # pp_seen q) = {}" "pg_next pg \<notin> set (pp_seen q)"
    using assms(2) by (auto simp: remaining_def to_fetch_def put_page_def follow_cursor_def split: if_split_asm)
  have "listing fetch (pp_options q) s (pg_next pg # cs) xs s'"
    unfolding cs(1) by (rule listing_more [where fetch = fetch, OF assms(1) False cs(2)])
  then show ?thesis using cs(3-5) by (intro exI [of _ "pg_next pg # cs"]) auto
qed

lemma remaining_page:
  assumes "\<not> pp_index p < length (pg_items (pp_page p))" and "\<not> (pp_started p \<and> pg_next (pp_page p) = [])"
    and "follow_cursor p = Some q" and "fetch (pp_options q) s = (Inr pg, s1)"
    and "remaining fetch (put_page (Inr pg) q) s1 xs s'"
  shows "remaining fetch p s xs s'"
  using to_fetch_page [where fetch = fetch, OF assms(4,5)] assms(2,3) by (auto simp: remaining_used [OF assms(1)] to_fetch_def)

lemma loop_gives:
  assumes "pager_loop fetch p s = Some r"
  shows "(\<forall>e. pp_err p = Some e \<and> pp_page p = empty_page \<and> pp_started p \<longrightarrow> \<not> fst (fst r) \<and> pp_err (snd (fst r)) = Some e)
    \<and> (running p \<and> fst (fst r) \<longrightarrow> running (snd (fst r)) \<and> (\<forall>xs s'. remaining fetch (snd (fst r)) (snd r) xs s'
          \<longrightarrow> remaining fetch p s (the (pp_current (snd (fst r))) # xs) s'))
    \<and> (running p \<and> \<not> fst (fst r) \<and> pp_err (snd (fst r)) = None \<longrightarrow> remaining fetch p s [] (snd r))"
    (is "?P fetch p s r")
proof (rule pager_loop.raw_induct [where P = ?P, OF _ assms])
  fix loop fetch p s r
  assume IH: "\<And>fetch p s r. loop fetch p s = Some r \<Longrightarrow> ?P fetch p s r"
  assume body: "(if pp_index p < length (pg_items (pp_page p))
      then Some ((True, p\<lparr>pp_current := Some (pg_items (pp_page p) ! pp_index p), pp_index := pp_index p + 1\<rparr>), s)
      else if pp_started p \<and> pg_next (pp_page p) = [] then Some ((False, p\<lparr>pp_done := True\<rparr>), s)
      else case follow_cursor p of
          None \<Rightarrow> Some ((False, p\<lparr>pp_err := Some invalid_response\<rparr>), s)
        | Some q \<Rightarrow> loop fetch (put_page (fst (fetch (pp_options q) s)) q) (snd (fetch (pp_options q) s))) = Some r"
  show "?P fetch p s r"
  proof (cases "pp_index p < length (pg_items (pp_page p))")
    case True
    then show ?thesis using body remaining_item [where fetch = fetch and s = s and c = "Some (pg_items (pp_page p) ! pp_index p)", OF True] by (auto simp: running_def empty_page_def)
  next
    case used: False
    show ?thesis
    proof (cases "pp_started p \<and> pg_next (pp_page p) = []")
      case True
      then show ?thesis using used body by (auto simp: remaining_used to_fetch_def)
    next
      case more: False
      show ?thesis
      proof (cases "follow_cursor p")
        case None
        then show ?thesis using used more body by (auto simp: empty_page_def)
      next
        case (Some q)
        obtain a s1 where f: "fetch (pp_options q) s = (a, s1)" by fastforce
        have "?P fetch (put_page a q) s1 r" using IH body used more Some f by simp
        then show ?thesis
          using remaining_page [where fetch = fetch, OF used more Some] f more Some
          by (cases a) (auto simp: running_def put_page_def empty_page_def follow_cursor_def split: if_split_asm)
      qed
    qed
  qed
qed

lemma drain_gives:
  assumes "pager_drain fetch p s = Some r"
  shows "running p \<and> pp_err (fst (snd r)) = None \<longrightarrow> remaining fetch p s (fst r) (snd (snd r))" (is "?P fetch p s r")
proof (rule pager_drain.raw_induct [where P = ?P, OF _ assms])
  fix drain fetch p s r
  assume IH: "\<And>fetch p s r. drain fetch p s = Some r \<Longrightarrow> ?P fetch p s r"
  assume body: "Option.bind (pager_next fetch p s) (\<lambda>((more, q), s1).
     if more then Option.bind (drain fetch q s1) (\<lambda>(xs, e, s2). Some (the (pp_current q) # xs, e, s2)) else Some ([], q, s1)) = Some r"
  then obtain more q s1 where nx: "pager_next fetch p s = Some ((more, q), s1)"
    and r: "(if more then Option.bind (drain fetch q s1) (\<lambda>(xs, e, s2). Some (the (pp_current q) # xs, e, s2)) else Some ([], q, s1)) = Some r"
    by (auto simp: bind_eq_Some_conv)
  show "?P fetch p s r"
  proof (intro impI, elim conjE)
    assume run: "running p" and ok: "pp_err (fst (snd r)) = None"
    have "pager_loop fetch p s = Some ((more, q), s1)" using nx run by (simp add: pager_next_def running_def)
    note gives = loop_gives [OF this]
    show "remaining fetch p s (fst r) (snd (snd r))"
    proof (cases more)
      case True
      then obtain xs e s2 where d: "drain fetch q s1 = Some (xs, e, s2)" "r = (the (pp_current q) # xs, e, s2)"
        using r by (auto simp: bind_eq_Some_conv)
      then have "remaining fetch q s1 xs s2" using IH [OF d(1)] gives run ok True by simp
      then show ?thesis using gives run True d(2) by simp
    next
      case False
      then show ?thesis using r gives run ok by auto
    qed
  qed
qed

lemma drain_items:
  "running p \<Longrightarrow> pp_index p \<le> length (pg_items (pp_page p)) \<Longrightarrow>
   \<exists>c. pager_drain fetch p s = Option.bind (pager_drain fetch (p\<lparr>pp_current := c, pp_index := length (pg_items (pp_page p))\<rparr>) s)
      (\<lambda>(xs, e, s2). Some (drop (pp_index p) (pg_items (pp_page p)) @ xs, e, s2))"
proof (induction "length (pg_items (pp_page p)) - pp_index p" arbitrary: p)
  case 0
  then have "p\<lparr>pp_current := pp_current p, pp_index := length (pg_items (pp_page p))\<rparr> = p" by simp
  then show ?case using 0 by (intro exI [of _ "pp_current p"]) (simp add: case_prod_unfold)
next
  case (Suc n)
  then have i: "pp_index p < length (pg_items (pp_page p))" by simp
  let ?p = "p\<lparr>pp_current := Some (pg_items (pp_page p) ! pp_index p), pp_index := pp_index p + 1\<rparr>"
  have "n = length (pg_items (pp_page ?p)) - pp_index ?p" "running ?p" "pp_index ?p \<le> length (pg_items (pp_page ?p))"
    using Suc.hyps(2) Suc.prems(1) i by (auto simp: running_def)
  from Suc.hyps(1) [OF this] obtain c where c: "pager_drain fetch ?p s
      = Option.bind (pager_drain fetch (?p\<lparr>pp_current := c, pp_index := length (pg_items (pp_page ?p))\<rparr>) s)
      (\<lambda>(xs, e, s2). Some (drop (pp_index ?p) (pg_items (pp_page ?p)) @ xs, e, s2))"
    by blast
  show ?case
    using drain_item [OF Suc.prems(1) i, of fetch s] Cons_nth_drop_Suc [OF i, symmetric] c
    by (intro exI [of _ c]) (simp add: case_prod_unfold bind_assoc)
qed

lemma drain_listing:
  "listing fetch opt s cs xs s' \<Longrightarrow> running p \<Longrightarrow> \<not> pp_index p < length (pg_items (pp_page p)) \<Longrightarrow>
   \<not> (pp_started p \<and> pg_next (pp_page p) = []) \<Longrightarrow> follow_cursor p = Some q \<Longrightarrow> pp_options q = opt \<Longrightarrow>
   distinct cs \<Longrightarrow> set cs \<inter> set (pp_seen q) = {} \<Longrightarrow> \<exists>r. pager_drain fetch p s = Some (xs, r, s') \<and> pp_err r = None"
proof (induction arbitrary: p q rule: listing.induct)
  case (listing_last opt s pg s1)
  let ?p = "put_page (Inr pg) q"
  have run: "running ?p" using listing_last.prems by (auto simp: running_def put_page_def follow_cursor_def split: if_split_asm)
  obtain c where c: "pager_drain fetch ?p s1 = Option.bind (pager_drain fetch (?p\<lparr>pp_current := c, pp_index := length (pg_items pg)\<rparr>) s1)
      (\<lambda>(xs, e, s2). Some (pg_items pg @ xs, e, s2))"
    using drain_items [OF run, of fetch s1] by (auto simp: put_page_def)
  have "pager_drain fetch (?p\<lparr>pp_current := c, pp_index := length (pg_items pg)\<rparr>) s1
      = Some ([], ?p\<lparr>pp_current := c, pp_index := length (pg_items pg), pp_done := True\<rparr>, s1)"
    by (subst drain_last) (use run listing_last.hyps(2) in \<open>auto simp: put_page_def running_def\<close>)
  then show ?case
    using c drain_page [where fetch = fetch, OF listing_last.prems(1-4), of s pg s1] listing_last.hyps(1) listing_last.prems(5)
    by (simp add: put_page_def)
next
  case (listing_more opt s pg s1 cs xs s2)
  let ?p = "put_page (Inr pg) q"
  have run: "running ?p" using listing_more.prems by (auto simp: running_def put_page_def follow_cursor_def split: if_split_asm)
  obtain c where c: "pager_drain fetch ?p s1 = Option.bind (pager_drain fetch (?p\<lparr>pp_current := c, pp_index := length (pg_items pg)\<rparr>) s1)
      (\<lambda>(xs, e, s2). Some (pg_items pg @ xs, e, s2))"
    using drain_items [OF run, of fetch s1] by (auto simp: put_page_def)
  let ?p1 = "?p\<lparr>pp_current := c, pp_index := length (pg_items pg)\<rparr>"
  let ?q1 = "?p1\<lparr>pp_seen := pg_next pg # pp_seen q, pp_options := (pp_options q)\<lparr>lo_cursor := pg_next pg\<rparr>\<rparr>"
  have "\<exists>r. pager_drain fetch ?p1 s1 = Some (xs, r, s2) \<and> pp_err r = None"
  proof (rule listing_more.IH)
    show "running ?p1" using run by (simp add: running_def)
    show "follow_cursor ?p1 = Some ?q1" using listing_more.prems(7) by (simp add: follow_cursor_def put_page_def)
  qed (use listing_more.hyps(2) listing_more.prems(5-7) in \<open>auto simp: put_page_def\<close>)
  then show ?case
    using c drain_page [where fetch = fetch, OF listing_more.prems(1-4), of s pg s1] listing_more.hyps(1) listing_more.prems(5)
    by auto
qed

text \<open>
  C6. Going through a pager is the same as following the cursors: it gives a list of sandboxes
  without an error exactly when a chain of pages with no cursor twice has these sandboxes, in
  order, none missing and none twice, and it leaves the server in the same state.
\<close>

theorem pager_follows_cursors:
  "(\<exists>p. pager_drain fetch (new_pager opt) s = Some (xs, p, s') \<and> pp_err p = None)
   \<longleftrightarrow> (\<exists>cs. listing fetch opt s cs xs s' \<and> distinct cs)"
proof -
  let ?p = "new_pager opt :: 'a pager"
  have new: "running ?p" "\<not> pp_index ?p < length (pg_items (pp_page ?p))" "\<not> (pp_started ?p \<and> pg_next (pp_page ?p) = [])"
    "follow_cursor ?p = Some ?p" "pp_options ?p = opt" "pp_seen ?p = []"
    by (auto simp: new_pager_def running_def empty_page_def follow_cursor_def)
  have "\<exists>cs. listing fetch opt s cs xs s' \<and> distinct cs" if "pager_drain fetch ?p s = Some (xs, p, s')" "pp_err p = None" for p
    using drain_gives [OF that(1)] that(2) new by (auto simp: remaining_used [OF new(2)] to_fetch_def)
  moreover have "\<exists>p. pager_drain fetch ?p s = Some (xs, p, s') \<and> pp_err p = None" if "listing fetch opt s cs xs s'" "distinct cs" for cs
    by (rule drain_listing [OF that(1) new(1-5) that(2)]) (simp add: new(6))
  ultimately show ?thesis by blast
qed

text \<open>A server with two pages, the first of which points at the second, which points at itself for ever.\<close>

definition circular_fetch :: "list_options \<Rightarrow> nat \<Rightarrow> (sdk_error + nat sdk_page) \<times> nat" where
  "circular_fetch opt n = (Inr \<lparr>pg_items = [n], pg_next = ''more''\<rparr>, n + 1)"

lemma pager_terminates_witness:
  "\<exists>xs p s'. pager_drain circular_fetch (new_pager \<lparr>lo_pool = [], lo_limit = 0, lo_cursor = []\<rparr>) 0 = Some (xs, p, s')
     \<and> (pp_done p \<or> pp_err p \<noteq> None)"
  by (rule pager_terminates [of "{''more''}"]) (auto simp: cursors_in_def circular_fetch_def)

end
