(* ===== verification/Sdk_Sandbox.thy ===== *)
theory Sdk_Sandbox
  imports Sdk_Client Transition
begin

text \<open>
  The end of a sandbox handle of the SDK (\<open>sandbox.go\<close>): any number of goroutines call
  \<open>Release\<close>, \<open>Delete\<close> or \<open>Close\<close> on one handle. The first to find no transition under way leads
  it: it sends the request, and its outcome is given to all who have joined in the meantime;
  a failed transition is forgotten so that a later call can try again.
\<close>

section \<open>The handle\<close>

datatype end_kind = Release_lease | Delete_lease

text \<open>
  A transition: its kind, and its outcome once its channel is closed. Transitions are numbered
  in the order in which they are created.
\<close>

record transition =
  tn_kind :: end_kind
  tn_result :: "(sdk_error + sdk_lease) option"

record sandbox =
  sb_record :: sdk_lease
  sb_transition :: "nat option"
  sb_all :: "transition list"

definition new_sandbox :: "sdk_lease \<Rightarrow> sandbox" where
  "new_sandbox r = \<lparr>sb_record = r, sb_transition = None, sb_all = []\<rparr>"

text \<open>
  The first critical section of \<open>terminal\<close>: join the transition under way, or start one. The
  second: record the outcome. Between them the leader sends its request.
\<close>

datatype end_role = Joins nat | Leads nat

definition terminal_enter :: "end_kind \<Rightarrow> sandbox \<Rightarrow> end_role \<times> sandbox" where
  "terminal_enter k b = (case sb_transition b of
     Some i \<Rightarrow> (Joins i, b)
   | None \<Rightarrow> (Leads (length (sb_all b)),
       b\<lparr>sb_transition := Some (length (sb_all b)), sb_all := sb_all b @ [\<lparr>tn_kind = k, tn_result = None\<rparr>]\<rparr>))"

text \<open>The request of a leader, and the record its success gives.\<close>

definition terminal_request :: "'s sdk_client \<Rightarrow> end_kind \<Rightarrow> sandbox \<Rightarrow> 's \<Rightarrow> (sdk_error + sdk_lease) \<times> 's" where
  "terminal_request cl k b s = (case k of
     Delete_lease \<Rightarrow> (case do_json cl ''DELETE'' (lease_reference (sl_id (sb_record b)) []) [] [] None (None :: (bytes \<Rightarrow> unit decoded) option) 204 s of
         (Inl e, s) \<Rightarrow> (Inl e, s) | (Inr _, s) \<Rightarrow> (Inr (sb_record b), s))
   | Release_lease \<Rightarrow> one_lease (do_json cl ''POST'' (lease_reference (sl_id (sb_record b)) ''/release'') [] [] None
         (Some (sc_lease (sd_codec cl))) 200 s))"

definition terminal_leave :: "nat \<Rightarrow> sdk_error + sdk_lease \<Rightarrow> sandbox \<Rightarrow> sandbox" where
  "terminal_leave i res b =
     (let b = (case res of Inl _ \<Rightarrow> b\<lparr>sb_transition := None\<rparr> | Inr r \<Rightarrow> b\<lparr>sb_record := r\<rparr>)
      in b\<lparr>sb_all := (sb_all b)[i := (sb_all b ! i)\<lparr>tn_result := Some res\<rparr>]\<rparr>)"

text \<open>\<open>Refresh\<close> replaces the record whenever it succeeds.\<close>

definition sandbox_refresh :: "sdk_lease \<Rightarrow> sandbox \<Rightarrow> sandbox" where
  "sandbox_refresh r b = b\<lparr>sb_record := r\<rparr>"

section \<open>All interleavings\<close>

text \<open>
  The leaders between their two critical sections are \<open>hs_leading\<close>; \<open>hs_answers\<close> lists what
  callers have returned, as the transition and the outcome; a caller that gives up waiting
  leaves no trace.
\<close>

record handle_system =
  hs_sandbox :: sandbox
  hs_leading :: "nat list"
  hs_joined :: "nat list"
  hs_answers :: "(nat \<times> (sdk_error + sdk_lease)) list"

inductive handle_step :: "handle_system \<Rightarrow> handle_system \<Rightarrow> bool" where
  hs_lead: "terminal_enter k (hs_sandbox s) = (Leads i, b) \<Longrightarrow>
    handle_step s (s\<lparr>hs_sandbox := b, hs_leading := i # hs_leading s\<rparr>)"
| hs_join: "terminal_enter k (hs_sandbox s) = (Joins i, b) \<Longrightarrow>
    handle_step s (s\<lparr>hs_sandbox := b, hs_joined := i # hs_joined s\<rparr>)"
| hs_leave: "i \<in> set (hs_leading s) \<Longrightarrow>
    handle_step s (s\<lparr>hs_sandbox := terminal_leave i res (hs_sandbox s), hs_leading := remove1 i (hs_leading s),
      hs_answers := (i, res) # hs_answers s\<rparr>)"
| hs_wake: "i \<in> set (hs_joined s) \<Longrightarrow> tn_result (sb_all (hs_sandbox s) ! i) = Some res \<Longrightarrow>
    handle_step s (s\<lparr>hs_joined := remove1 i (hs_joined s), hs_answers := (i, res) # hs_answers s\<rparr>)"
| hs_abort: "i \<in> set (hs_joined s) \<Longrightarrow> handle_step s (s\<lparr>hs_joined := remove1 i (hs_joined s)\<rparr>)"
| hs_refresh: "handle_step s (s\<lparr>hs_sandbox := sandbox_refresh r (hs_sandbox s)\<rparr>)"

inductive_cases handle_stepE: "handle_step s t"

definition handle_init :: "handle_system \<Rightarrow> bool" where
  "handle_init s \<longleftrightarrow> (\<exists>r. s = \<lparr>hs_sandbox = new_sandbox r, hs_leading = [], hs_joined = [], hs_answers = []\<rparr>)"

definition outcome :: "sandbox \<Rightarrow> nat \<Rightarrow> (sdk_error + sdk_lease) option" where
  "outcome b i = (if i < length (sb_all b) then tn_result (sb_all b ! i) else None)"

text \<open>
  The invariant: a transition is the current one exactly while it is led or after it has
  succeeded; every other one has failed; every answer is the outcome of its transition.
\<close>

definition handle_inv :: "handle_system \<Rightarrow> bool" where
  "handle_inv s \<longleftrightarrow>
     (let b = hs_sandbox s; n = length (sb_all b) in
      (hs_leading s = [] \<or> (\<exists>i. hs_leading s = [i] \<and> sb_transition b = Some i \<and> outcome b i = None))
      \<and> (\<forall>i. sb_transition b = Some i \<longrightarrow> i < n \<and> (i \<in> set (hs_leading s) \<or> (\<exists>r. outcome b i = Some (Inr r))))
      \<and> (\<forall>i < n. sb_transition b \<noteq> Some i \<longrightarrow> (\<exists>e. outcome b i = Some (Inl e)))
      \<and> (\<forall>i \<in> set (hs_joined s). i < n)
      \<and> (\<forall>(i, res) \<in> set (hs_answers s). outcome b i = Some res))"

lemma outcome_simps [simp]:
  "outcome (b\<lparr>sb_transition := x\<rparr>) i = outcome b i" "outcome (b\<lparr>sb_record := r\<rparr>) i = outcome b i"
  "outcome (new_sandbox r) i = None"
  by (simp_all add: outcome_def new_sandbox_def)

lemma outcome_enter:
  "terminal_enter k b = (role, b') \<Longrightarrow> outcome b' i = outcome b i"
  by (auto simp: terminal_enter_def outcome_def nth_append less_Suc_eq split: option.splits)

lemma leave_sel [simp]:
  "length (sb_all (terminal_leave i res b)) = length (sb_all b)"
  "sb_transition (terminal_leave i res b) = (if is_ok res then sb_transition b else None)"
  by (auto simp: terminal_leave_def Let_def is_ok_iff split: sum.splits)

lemma outcome_leave:
  "i < length (sb_all b) \<Longrightarrow> outcome (terminal_leave i res b) j = (if j = i then Some res else outcome b j)"
  by (auto simp: terminal_leave_def Let_def outcome_def split: sum.splits)

lemma handle_inv_init: "handle_init s \<Longrightarrow> handle_inv s"
  by (auto simp: handle_init_def handle_inv_def new_sandbox_def)

lemma handle_inv_step: "handle_inv s \<Longrightarrow> handle_step s t \<Longrightarrow> handle_inv t"
proof (erule handle_stepE)
  fix k i b assume inv: "handle_inv s" and e: "terminal_enter k (hs_sandbox s) = (Leads i, b)"
    and t: "t = s\<lparr>hs_sandbox := b, hs_leading := i # hs_leading s\<rparr>"
  from e have tr: "sb_transition (hs_sandbox s) = None" and i: "i = length (sb_all (hs_sandbox s))"
    and b: "sb_transition b = Some i" "length (sb_all b) = Suc i"
    by (auto simp: terminal_enter_def split: option.splits)
  have "outcome (hs_sandbox s) i = None" by (simp add: outcome_def i)
  then show "handle_inv t"
    using inv tr b outcome_enter [OF e] by (fastforce simp: handle_inv_def t Let_def less_Suc_eq i [symmetric])
next
  fix i res assume inv: "handle_inv s" and l: "i \<in> set (hs_leading s)"
    and t: "t = s\<lparr>hs_sandbox := terminal_leave i res (hs_sandbox s), hs_leading := remove1 i (hs_leading s),
      hs_answers := (i, res) # hs_answers s\<rparr>"
  have cur: "hs_leading s = [i]" "sb_transition (hs_sandbox s) = Some i" "outcome (hs_sandbox s) i = None"
    using inv l by (auto simp: handle_inv_def Let_def)
  then have i: "i < length (sb_all (hs_sandbox s))" using inv by (auto simp: handle_inv_def Let_def)
  have old: "(j, r) \<in> set (hs_answers s) \<Longrightarrow> outcome (hs_sandbox s) j = Some r" for j r
    using inv by (auto simp: handle_inv_def Let_def)
  then have "(i, r) \<notin> set (hs_answers s)" for r using cur(3) by fastforce
  then show "handle_inv t"
    using inv cur i old by (cases res) (auto simp: handle_inv_def t Let_def outcome_leave)
next
  fix i res assume inv: "handle_inv s" and j: "i \<in> set (hs_joined s)" and r: "tn_result (sb_all (hs_sandbox s) ! i) = Some res"
    and t: "t = s\<lparr>hs_joined := remove1 i (hs_joined s), hs_answers := (i, res) # hs_answers s\<rparr>"
  have "i < length (sb_all (hs_sandbox s))" using inv j by (auto simp: handle_inv_def Let_def)
  then have "outcome (hs_sandbox s) i = Some res" using r by (simp add: outcome_def)
  then show "handle_inv t" using inv by (auto simp: handle_inv_def t Let_def dest: notin_set_remove1)
qed (auto simp: handle_inv_def Let_def terminal_enter_def sandbox_refresh_def split: option.splits dest: notin_set_remove1)

interpretation hs: transition_system handle_init handle_step handle_inv
  by unfold_locales (auto intro: handle_inv_init handle_inv_step)

text \<open>A transition that has succeeded stays current, with its outcome, and nothing is led any more.\<close>

definition ended :: "nat \<Rightarrow> sdk_lease \<Rightarrow> nat \<Rightarrow> handle_system \<Rightarrow> bool" where
  "ended i r n s \<longleftrightarrow> sb_transition (hs_sandbox s) = Some i \<and> outcome (hs_sandbox s) i = Some (Inr r) \<and> hs_leading s = []
     \<and> length (sb_all (hs_sandbox s)) = n"

lemma ended_step: "handle_inv s \<Longrightarrow> ended i r n s \<Longrightarrow> handle_step s t \<Longrightarrow> ended i r n t"
  by (erule handle_stepE) (auto simp: ended_def terminal_enter_def sandbox_refresh_def split: option.splits)

interpretation ended: stable_property handle_init handle_step handle_inv "ended i r n" for i r n
  by unfold_locales (rule ended_step)

text \<open>
  C26. The end of a sandbox is requested at most once at a time, and once it has succeeded never
  again: in every interleaving at most one caller has a request under way; callers of one
  transition all get its one outcome; whoever waits for a transition that has no outcome yet
  waits for a caller whose request is under way; and after a success no later caller sends a
  request, every one joins the transition that succeeded and gets its record.
\<close>

theorem terminal_once:
  assumes "handle_init s0" and "handle_step\<^sup>*\<^sup>* s0 s"
  shows "length (hs_leading s) \<le> 1
    \<and> (\<forall>i res res'. (i, res) \<in> set (hs_answers s) \<and> (i, res') \<in> set (hs_answers s) \<longrightarrow> res = res')
    \<and> (\<forall>i \<in> set (hs_joined s). outcome (hs_sandbox s) i = None \<longrightarrow> hs_leading s = [i])
    \<and> (\<forall>i r t. (i, Inr r) \<in> set (hs_answers s) \<and> handle_step\<^sup>*\<^sup>* s t \<longrightarrow>
        hs_leading t = [] \<and> length (sb_all (hs_sandbox t)) = length (sb_all (hs_sandbox s))
        \<and> (\<forall>k. terminal_enter k (hs_sandbox t) = (Joins i, hs_sandbox t)) \<and> outcome (hs_sandbox t) i = Some (Inr r))"
proof -
  have inv: "handle_inv s" by (rule hs.reachable_inv [OF assms])
  have answers: "(i, res) \<in> set (hs_answers s) \<Longrightarrow> outcome (hs_sandbox s) i = Some res" for i res
    using inv by (auto simp: handle_inv_def Let_def)
  have "outcome (hs_sandbox s) i = None \<longrightarrow> hs_leading s = [i]" if "i \<in> set (hs_joined s)" for i
    using inv that by (auto simp: handle_inv_def Let_def)
  moreover have "length (hs_leading s) \<le> 1" using inv by (auto simp: handle_inv_def Let_def)
  moreover have "res = res'" if "(i, res) \<in> set (hs_answers s)" "(i, res') \<in> set (hs_answers s)" for i res res'
    using answers [OF that(1)] answers [OF that(2)] by simp
  moreover have "hs_leading t = [] \<and> length (sb_all (hs_sandbox t)) = length (sb_all (hs_sandbox s))
        \<and> (\<forall>k. terminal_enter k (hs_sandbox t) = (Joins i, hs_sandbox t)) \<and> outcome (hs_sandbox t) i = Some (Inr r)"
    if "(i, Inr r) \<in> set (hs_answers s)" "handle_step\<^sup>*\<^sup>* s t" for i r t
  proof -
    have o: "outcome (hs_sandbox s) i = Some (Inr r)" by (rule answers [OF that(1)])
    then have "i < length (sb_all (hs_sandbox s))" by (simp add: outcome_def split: if_split_asm)
    then have tr: "sb_transition (hs_sandbox s) = Some i"
      using inv o by (auto simp: handle_inv_def Let_def)
    have "hs_leading s = []" using inv o tr by (auto simp: handle_inv_def Let_def)
    then have "ended i r (length (sb_all (hs_sandbox s))) s" using o tr by (simp add: ended_def)
    then have "ended i r (length (sb_all (hs_sandbox s))) t" using ended.run_stable [OF that(2) inv] by blast
    then show ?thesis by (auto simp: ended_def terminal_enter_def)
  qed
  ultimately show ?thesis by blast
qed

definition sample_handle :: sdk_lease where
  "sample_handle = \<lparr>sl_id = ''lease-61'', sl_pool = ''p'', sl_status = ''released'', sl_created = Some 1, sl_expires = Some 2, sl_last_used = Some 1\<rparr>"

text \<open>A release succeeds; a \<open>Delete\<close> that comes afterwards joins it, and sends nothing.\<close>

lemma terminal_once_witness:
  "\<exists>s0 s. handle_init s0 \<and> handle_step\<^sup>*\<^sup>* s0 s
     \<and> terminal_enter Delete_lease (hs_sandbox s) = (Joins 0, hs_sandbox s) \<and> outcome (hs_sandbox s) 0 = Some (Inr sample_handle)"
proof -
  let ?s0 = "\<lparr>hs_sandbox = new_sandbox sample_handle, hs_leading = [], hs_joined = [], hs_answers = []\<rparr>"
  let ?b = "snd (terminal_enter Release_lease (new_sandbox sample_handle))"
  let ?s1 = "?s0\<lparr>hs_sandbox := ?b, hs_leading := [0]\<rparr>"
  let ?s2 = "?s1\<lparr>hs_sandbox := terminal_leave 0 (Inr sample_handle) ?b, hs_leading := [], hs_answers := [(0, Inr sample_handle)]\<rparr>"
  have init: "handle_init ?s0" by (auto simp: handle_init_def)
  have "handle_step ?s0 ?s1" using hs_lead [of Release_lease ?s0 0 ?b] by (simp add: terminal_enter_def new_sandbox_def)
  moreover have "handle_step ?s1 ?s2" using hs_leave [of 0 ?s1 "Inr sample_handle"] by simp
  ultimately have run: "handle_step\<^sup>*\<^sup>* ?s0 ?s2" by (meson rtranclp.rtrancl_refl rtranclp.rtrancl_into_rtrancl)
  have "(0, Inr sample_handle) \<in> set (hs_answers ?s2)" by simp
  then have "terminal_enter Delete_lease (hs_sandbox ?s2) = (Joins 0, hs_sandbox ?s2)" "outcome (hs_sandbox ?s2) 0 = Some (Inr sample_handle)"
    using terminal_once [OF init run] by blast+
  then show ?thesis using init run by blast
qed

end
