(* ===== verification/Sdk_Stream.thy ===== *)
theory Sdk_Stream
  imports Sdk_Client
begin

text \<open>
  Streaming transfers of the SDK (\<open>stream.go\<close>): the request of an upload, the checks on the
  response of a download, and the reader that verifies what it delivers.
\<close>

section \<open>Uploads\<close>

definition sha256_hex :: "string \<Rightarrow> bool" where
  "sha256_hex v = (length v = 64 \<and> list_all (\<lambda>c. c \<in> set ''0123456789abcdef'') v)"

definition sdk_write_stream ::
  "'s sdk_client \<Rightarrow> string \<Rightarrow> string \<Rightarrow> bytes \<Rightarrow> int \<Rightarrow> string \<Rightarrow> 's \<Rightarrow> (sdk_error + unit) \<times> 's" where
  "sdk_write_stream cl lid path source n sha s =
     (if blank path then (Inl Invalid_argument, s)
      else if n < 0 then (Inl Invalid_argument, s)
      else if n > max_file_transfer_bytes then (Inl sdk_too_large, s)
      else if \<not> sha256_hex sha then (Inl Invalid_argument, s)
      else let digest = (case hex_decode sha of None \<Rightarrow> [] | Some d \<Rightarrow> d) in
        (case new_request cl ''PUT'' (lease_reference lid ''/files/content'') [(''path'', path)] of Inl e \<Rightarrow> (Inl e, s)
         | Inr rq \<Rightarrow>
           (case sd_send cl (rq\<lparr>cq_content_type := ''application/octet-stream'', cq_content_length := n,
                cq_content_digest := ''sha-256=:'' @ b64_encode std_encoding digest @ '':'', cq_body := take (nat (n + 1)) source\<rparr>) s of
              (Inl e, s) \<Rightarrow> (Inl (send_error cl e), s)
            | (Inr resp, s) \<Rightarrow>
               (if cr_status resp \<ge> 400 then Inl (decode_platform_error (sd_codec cl) resp)
                else if cr_status resp \<noteq> 204 then Inl (Sdk_error (cr_status resp) ''INVALID_RESPONSE'') else Inr (), s))))"

section \<open>Downloads\<close>

definition sdk_content_digest :: "string \<Rightarrow> sdk_error + bytes" where
  "sdk_content_digest v =
     (if \<not> has_prefix v ''sha-256=:'' \<or> \<not> has_suffix v '':'' then Inl integrity_error
      else case b64_decode (strict_form std_encoding) (trim_suffix (trim_prefix v ''sha-256=:'') '':'') of
          None \<Rightarrow> Inl integrity_error
        | Some d \<Rightarrow> if length d \<noteq> 32 then Inl integrity_error else Inr d)"

record sdk_download =
  sk_size :: int
  sk_digest :: bytes
  sk_body :: bytes
  sk_body_error :: bool

definition sdk_read_stream :: "'s sdk_client \<Rightarrow> string \<Rightarrow> string \<Rightarrow> 's \<Rightarrow> (sdk_error + sdk_download) \<times> 's" where
  "sdk_read_stream cl lid path s =
     (if blank path then (Inl Invalid_argument, s)
      else case new_request cl ''GET'' (lease_reference lid ''/files/content'') [(''path'', path)] of Inl e \<Rightarrow> (Inl e, s)
      | Inr rq \<Rightarrow>
        (case sd_send cl (rq\<lparr>cq_accept := ''application/octet-stream''\<rparr>) s of
           (Inl e, s) \<Rightarrow> (Inl (send_error cl e), s)
         | (Inr resp, s) \<Rightarrow>
            (if cr_status resp \<ge> 400 then Inl (decode_platform_error (sd_codec cl) resp)
             else if cr_status resp \<noteq> 200 \<or> hd (split_on CHR '';'' (cr_content_type resp)) \<noteq> ''application/octet-stream'' then Inl invalid_response
             else case parse_int64 (cr_content_length resp) of None \<Rightarrow> Inl invalid_response
             | Some n \<Rightarrow> if n < 0 then Inl invalid_response else if n > max_file_transfer_bytes then Inl sdk_too_large
                 else map_sum id (\<lambda>d. \<lparr>sk_size = n, sk_digest = d, sk_body = cr_body resp, sk_body_error = cr_body_error resp\<rparr>)
                   (sdk_content_digest (cr_content_digest resp)), s)))"

section \<open>The verifying reader\<close>

text \<open>
  One call of the body's \<open>Read\<close> yields some bytes and possibly the end of the file or another
  error; \<open>seen\<close> is what has gone into the digest.
\<close>

datatype read_end = More | Eof | Read_failed

record verified_reader =
  vr_size :: int
  vr_digest :: bytes
  vr_seen :: bytes
  vr_count :: int
  vr_closed :: bool
  vr_verified :: bool

datatype read_result = Read_more | Read_eof | Read_closed | Read_integrity | Read_error

definition new_reader :: "int \<Rightarrow> bytes \<Rightarrow> verified_reader" where
  "new_reader n d = \<lparr>vr_size = n, vr_digest = d, vr_seen = [], vr_count = 0, vr_closed = False, vr_verified = False\<rparr>"

definition reader_read :: "(bytes \<Rightarrow> bytes) \<Rightarrow> bytes \<Rightarrow> read_end \<Rightarrow> verified_reader \<Rightarrow> (bytes \<times> read_result) \<times> verified_reader" where
  "reader_read sha p fin r =
     (if vr_closed r then (([], Read_closed), r)
      else let r = (if p \<noteq> [] then r\<lparr>vr_count := vr_count r + int (length p), vr_seen := vr_seen r @ p\<rparr> else r) in
        if p \<noteq> [] \<and> vr_count r > vr_size r then ((p, Read_integrity), r\<lparr>vr_closed := True\<rparr>)
        else case fin of
          Eof \<Rightarrow> if vr_count r \<noteq> vr_size r \<or> sha (vr_seen r) \<noteq> vr_digest r then ((p, Read_integrity), r\<lparr>vr_closed := True\<rparr>)
            else ((p, Read_eof), r\<lparr>vr_verified := True, vr_closed := True\<rparr>)
        | More \<Rightarrow> ((p, Read_more), r)
        | Read_failed \<Rightarrow> ((p, Read_error), r))"

definition reader_close :: "verified_reader \<Rightarrow> verified_reader" where
  "reader_close r = r\<lparr>vr_closed := True\<rparr>"

text \<open>A whole sequence of calls: what each delivers and how it ends.\<close>

fun reader_run :: "(bytes \<Rightarrow> bytes) \<Rightarrow> (bytes \<times> read_end) list \<Rightarrow> verified_reader \<Rightarrow> (bytes \<times> read_result) list \<times> verified_reader" where
  "reader_run sha [] r = ([], r)"
| "reader_run sha ((p, fin) # cs) r =
     (let (x, r1) = reader_read sha p fin r; (xs, r2) = reader_run sha cs r1 in (x # xs, r2))"

definition delivered :: "(bytes \<times> read_result) list \<Rightarrow> bytes" where
  "delivered xs = concat (map fst xs)"

lemma delivered_simps [simp]: "delivered [] = []" "delivered (x # xs) = fst x @ delivered xs"
  by (simp_all add: delivered_def)

lemma reader_closed_run: "vr_closed r \<Longrightarrow> reader_run sha cs r = (map (\<lambda>_. ([], Read_closed)) cs, r)"
  by (induction cs arbitrary: r) (auto simp: reader_read_def)

definition reader_inv :: "(bytes \<Rightarrow> bytes) \<Rightarrow> verified_reader \<Rightarrow> bool" where
  "reader_inv sha r \<longleftrightarrow> vr_count r = int (length (vr_seen r)) \<and> (\<not> vr_closed r \<longrightarrow> vr_count r \<le> vr_size r \<and> \<not> vr_verified r)
     \<and> (vr_verified r \<longrightarrow> int (length (vr_seen r)) = vr_size r \<and> sha (vr_seen r) = vr_digest r)"

lemma reader_read_effect:
  assumes "reader_inv sha r" and "reader_read sha p fin r = ((q, res), r1)"
  shows "reader_inv sha r1 \<and> vr_seen r1 = vr_seen r @ q \<and> vr_size r1 = vr_size r \<and> vr_digest r1 = vr_digest r
    \<and> (res = Read_eof \<longrightarrow> vr_verified r1) \<and> (res = Read_integrity \<longrightarrow> vr_closed r1 \<and> \<not> vr_verified r1)
    \<and> (vr_verified r1 \<longrightarrow> vr_verified r \<or> res = Read_eof)"
proof (cases "vr_closed r")
  case True
  then show ?thesis using assms by (auto simp: reader_read_def)
next
  case False
  then show ?thesis
    using assms by (cases fin; cases "p = []") (auto simp: reader_read_def reader_inv_def Let_def split: if_split_asm)
qed

lemma reader_read_inv:
  assumes "reader_inv sha r" and "reader_read sha p fin r = ((q, res), r1)"
  shows "reader_inv sha r1" "vr_seen r1 = vr_seen r @ q" "vr_size r1 = vr_size r" "vr_digest r1 = vr_digest r"
    "res = Read_eof \<Longrightarrow> vr_verified r1" "res = Read_integrity \<Longrightarrow> vr_closed r1 \<and> \<not> vr_verified r1"
  using reader_read_effect [OF assms] by blast+

lemma reader_run_inv:
  "reader_inv sha r \<Longrightarrow> reader_inv sha (snd (reader_run sha cs r))
     \<and> vr_seen (snd (reader_run sha cs r)) = vr_seen r @ delivered (fst (reader_run sha cs r))
     \<and> vr_size (snd (reader_run sha cs r)) = vr_size r \<and> vr_digest (snd (reader_run sha cs r)) = vr_digest r
     \<and> (Read_eof \<in> snd ` set (fst (reader_run sha cs r)) \<longrightarrow> vr_verified (snd (reader_run sha cs r)))
     \<and> (vr_verified (snd (reader_run sha cs r)) \<longrightarrow> vr_verified r \<or> Read_integrity \<notin> snd ` set (fst (reader_run sha cs r)))"
proof (induction cs arbitrary: r)
  case (Cons c cs)
  obtain p fin where c: "c = (p, fin)" by fastforce
  obtain q res r1 where x: "reader_read sha p fin r = ((q, res), r1)" by (metis prod.collapse)
  obtain xs r2 where xs: "reader_run sha cs r1 = (xs, r2)" by fastforce
  note one = reader_read_inv [OF Cons.prems x]
  note rest = Cons.IH [OF one(1), unfolded xs fst_conv snd_conv]
  have closed: "vr_closed r1 \<Longrightarrow> r2 = r1 \<and> set xs \<subseteq> {([], Read_closed)}"
    using reader_closed_run [of r1 sha cs] xs by auto
  have v1: "vr_verified r1 \<Longrightarrow> vr_closed r1" using one(1) by (auto simp: reader_inv_def)
  have eof: "res = Read_eof \<Longrightarrow> vr_verified r2" using one(5) v1 closed by auto
  have int: "res = Read_integrity \<Longrightarrow> \<not> vr_verified r2" using one(6) closed by auto
  have keep: "vr_verified r2 \<Longrightarrow> \<not> vr_verified r \<Longrightarrow> Read_integrity \<notin> snd ` set xs"
  proof (cases "vr_verified r1")
    case True
    then have "set xs \<subseteq> {([], Read_closed)}" using closed v1 by blast
    then show ?thesis by auto
  next
    case False
    then show "vr_verified r2 \<Longrightarrow> Read_integrity \<notin> snd ` set xs" using rest by blast
  qed
  show ?case using one(2-4) rest eof int keep by (auto simp: c x xs)
qed simp

lemma reader_run_complete:
  "\<not> vr_closed r \<Longrightarrow> vr_count r = int (length (vr_seen r)) \<Longrightarrow>
   vr_size r = int (length (vr_seen r @ concat qs @ p)) \<Longrightarrow> sha (vr_seen r @ concat qs @ p) = vr_digest r \<Longrightarrow>
   fst (reader_run sha (map (\<lambda>q. (q, More)) qs @ [(p, Eof)]) r) = map (\<lambda>q. (q, Read_more)) qs @ [(p, Read_eof)]"
proof (induction qs arbitrary: r)
  case Nil
  then show ?case by (auto simp: reader_read_def Let_def)
next
  case (Cons q qs)
  define r1 where "r1 = (if q \<noteq> [] then r\<lparr>vr_count := vr_count r + int (length q), vr_seen := vr_seen r @ q\<rparr> else r)"
  have "reader_read sha q More r = ((q, Read_more), r1)"
    using Cons.prems by (auto simp: reader_read_def Let_def r1_def)
  moreover have "\<not> vr_closed r1" "vr_count r1 = int (length (vr_seen r1))" "vr_seen r1 = vr_seen r @ q" "vr_size r1 = vr_size r"
    "vr_digest r1 = vr_digest r" using Cons.prems by (auto simp: r1_def)
  ultimately show ?case using Cons.IH [of r1] Cons.prems by (simp add: prod.case_eq_if)
qed

text \<open>
  A download that ends is intact, however the caller reads it: when any call of a sequence
  of reads reports the end of the file, the bytes delivered by the whole sequence are exactly
  as many as announced and have the announced digest; no call of such a sequence reports an
  integrity error, and conversely after an integrity error nothing more is delivered and the
  end is never reported. An intact body, read in any pieces, is delivered to its end.
\<close>

theorem verified_reader_sound:
  assumes run: "reader_run sha cs (new_reader n d) = (xs, r)" and n: "0 \<le> n"
  shows "(Read_eof \<in> snd ` set xs \<longrightarrow> int (length (delivered xs)) = n \<and> sha (delivered xs) = d \<and> Read_integrity \<notin> snd ` set xs)
    \<and> (\<forall>ys p zs. xs = ys @ (p, Read_integrity) # zs \<longrightarrow> delivered zs = [] \<and> Read_eof \<notin> snd ` set zs)
    \<and> (\<forall>qs p. cs = map (\<lambda>q. (q, More)) qs @ [(p, Eof)] \<and> int (length (concat qs @ p)) = n \<and> sha (concat qs @ p) = d
        \<longrightarrow> delivered xs = concat qs @ p \<and> snd (last xs) = Read_eof)"
proof (intro conjI allI impI)
  have inv: "reader_inv sha (new_reader n d)" using n by (simp add: reader_inv_def new_reader_def)
  note all = reader_run_inv [OF inv, of cs, unfolded run fst_conv snd_conv]
  {
    assume "Read_eof \<in> snd ` set xs"
    then have v: "vr_verified r" using all by blast
    then have "int (length (vr_seen r)) = vr_size r" "sha (vr_seen r) = vr_digest r" using all by (auto simp: reader_inv_def)
    moreover have "vr_seen r = delivered xs" "vr_size r = n" "vr_digest r = d" using all by (simp_all add: new_reader_def)
    ultimately show "int (length (delivered xs)) = n" and "sha (delivered xs) = d" by simp_all
    show "Read_integrity \<notin> snd ` set xs" using all v by (simp add: new_reader_def)
  }
  {
    fix qs p assume c: "cs = map (\<lambda>q. (q, More)) qs @ [(p, Eof)] \<and> int (length (concat qs @ p)) = n \<and> sha (concat qs @ p) = d"
    then have "xs = map (\<lambda>q. (q, Read_more)) qs @ [(p, Read_eof)]"
      using reader_run_complete [of "new_reader n d" qs p sha] run by (simp add: new_reader_def)
    then show "delivered xs = concat qs @ p" and "snd (last xs) = Read_eof" by (simp_all add: delivered_def comp_def)
  }
  fix ys p zs assume xs: "xs = ys @ (p, Read_integrity) # zs"
  have "delivered zs = [] \<and> Read_eof \<notin> snd ` set zs"
    if "reader_inv sha q" "fst (reader_run sha cs q) = ys @ (p, Read_integrity) # zs" for q cs ys
    using that
  proof (induction cs arbitrary: q ys)
    case (Cons c cs)
    obtain p' fin where c: "c = (p', fin)" by fastforce
    obtain q' res q1 where x: "reader_read sha p' fin q = ((q', res), q1)" by (metis prod.collapse)
    note one = reader_read_inv [OF Cons.prems(1) x]
    have tail: "(q', res) # fst (reader_run sha cs q1) = ys @ (p, Read_integrity) # zs"
      using Cons.prems(2) by (simp add: c x split: prod.split_asm)
    show ?case
    proof (cases ys)
      case Nil
      then have "vr_closed q1" using one(6) tail by auto
      then have "fst (reader_run sha cs q1) = map (\<lambda>_. ([], Read_closed)) cs" by (simp add: reader_closed_run)
      then have "zs = map (\<lambda>_. ([], Read_closed)) cs" using tail Nil by simp
      then show ?thesis by (auto simp: delivered_def)
    next
      case (Cons y ys')
      then show ?thesis using Cons.IH [OF one(1), of ys'] tail by simp
    qed
  qed simp
  then show "delivered zs = []" and "Read_eof \<notin> snd ` set zs" using inv run xs by (metis fst_conv)+
qed

lemma verified_reader_sound_witness:
  "delivered (fst (reader_run id [(''ab'', More), (''c'', Eof)] (new_reader 3 ''abc''))) = ''abc''
   \<and> Read_eof \<in> snd ` set (fst (reader_run id [(''ab'', More), (''c'', Eof)] (new_reader 3 ''abc'')))"
proof -
  obtain xs r where x: "reader_run id [(''ab'', More), (''c'', Eof)] (new_reader 3 ''abc'') = (xs, r)" by fastforce
  have "Read_eof \<in> snd ` set (fst (reader_run id [(''ab'', More), (''c'', Eof)] (new_reader 3 ''abc'')))" by code_simp
  then have "Read_eof \<in> snd ` set xs" by (simp only: x fst_conv)
  then show ?thesis using verified_reader_sound [OF x] unfolding x fst_conv by simp
qed

end
