(* ===== verification/Sdk_Remote.thy ===== *)
theory Sdk_Remote
  imports Sdk_Sandbox Sdk_Stream Http_Props Workload_Response
begin

text \<open>
  The SDK over the server of the control plane: a transport that carries requests of the SDK
  to \<open>serve_http\<close> and its responses back, with the JSON text of the responses as a parameter,
  and the equivalence of the calls of the SDK with the operations of the backend.
\<close>

section \<open>The transport\<close>

text \<open>What \<open>encoding/json\<close> writes on the server, and how much of an aborted content arrives.\<close>

record wire =
  wr_body :: "api_body \<Rightarrow> bytes"
  wr_error :: "string \<Rightarrow> bytes"
  wr_arrives :: nat

text \<open>Header values that the HTTP client sends (\<open>httpguts.ValidHeaderFieldValue\<close>).\<close>

definition header_value_ok :: "string \<Rightarrow> bool" where
  "header_value_ok v = list_all (\<lambda>c. (32 \<le> byte_val c \<or> c = CHR 0x09) \<and> byte_val c \<noteq> 127) v"

definition bearer :: "string \<Rightarrow> string" where
  "bearer token = trim_ascii (''Bearer '' @ token)"

definition encode_query :: "(string \<times> string) list \<Rightarrow> string" where
  "encode_query q = join_with ''&'' (map (\<lambda>(k, v). query_escape k @ ''='' @ query_escape v) q)"

definition delivered_request :: "client_request \<Rightarrow> http_request option" where
  "delivered_request rq = map_option (\<lambda>path.
     \<lparr>hr_method = cq_method rq, hr_path = path, hr_raw_query = encode_query (cq_query rq),
      hr_query = Some (map (\<lambda>(k, v). (k, [v])) (cq_query rq)), hr_values = map (\<lambda>(k, v). (k, [v])) (cq_query rq),
      hr_authorization = bearer (cq_token rq), hr_idempotency_key = trim_ascii (cq_idempotency_key rq),
      hr_media_type = (if cq_content_type rq = [] then None else Some (cq_content_type rq)),
      hr_content_length = cq_content_length rq, hr_content_digest = trim_ascii (cq_content_digest rq), hr_body = cq_body rq\<rparr>)
     (path_unescape (cq_path rq))"

definition render :: "wire \<Rightarrow> http_response \<Rightarrow> client_response" where
  "render w r = (case r of
     Ok_json st b \<Rightarrow> \<lparr>cr_status = st, cr_content_type = ''application/json'', cr_content_length = [], cr_content_digest = [],
       cr_body = wr_body w b, cr_body_error = False\<rparr>
   | Error_json st code \<Rightarrow> \<lparr>cr_status = st, cr_content_type = ''application/json'', cr_content_length = [], cr_content_digest = [],
       cr_body = wr_error w code, cr_body_error = False\<rparr>
   | No_content \<Rightarrow> \<lparr>cr_status = 204, cr_content_type = [], cr_content_length = [], cr_content_digest = [], cr_body = [], cr_body_error = False\<rparr>
   | Content n d sent ok \<Rightarrow> \<lparr>cr_status = 200, cr_content_type = ''application/octet-stream'', cr_content_length = itoa n,
       cr_content_digest = format_content_digest d, cr_body = (if ok then sent else take (wr_arrives w) sent), cr_body_error = \<not> ok\<rparr>)"

definition served_by :: "wire \<Rightarrow> 's lease_api \<Rightarrow> http_env \<Rightarrow> client_request \<Rightarrow> 's \<Rightarrow> (sdk_error option + client_response) \<times> 's" where
  "served_by w api env rq s =
     (if \<not> header_value_ok (cq_token rq) \<or> \<not> header_value_ok (cq_idempotency_key rq) then (Inl None, s)
      else case delivered_request rq of None \<Rightarrow> (Inl None, s)
      | Some hr \<Rightarrow> (case serve_http api env hr s of (resp, s') \<Rightarrow> (Inr (render w resp), s')))"

text \<open>A client of the server at the root of a host, whose token the server accepts for a scope.\<close>

definition connected :: "'s sdk_client \<Rightarrow> wire \<Rightarrow> 's lease_api \<Rightarrow> http_env \<Rightarrow> lease_scope \<Rightarrow> bool" where
  "connected cl w api env scope \<longleftrightarrow>
     sd_base cl = ''/'' \<and> \<not> sd_closed cl \<and> sd_send cl = served_by w api env
     \<and> (\<exists>token. sd_token cl = Inr token \<and> \<not> blank token \<and> header_value_ok token \<and> has_prefix (bearer token) ''Bearer ''
         \<and> verify_subject_token (he_tokens env) (drop 7 (bearer token)) (he_now env) (5 * minute) = Inr scope)"

section \<open>What both sides make of the same text\<close>

fun status_text :: "lease_status \<Rightarrow> string" where
  "status_text Active = ''active''"
| "status_text Released = ''released''"
| "status_text Expired = ''expired''"

definition lease_view :: "lease_record \<Rightarrow> sdk_lease" where
  "lease_view r = \<lparr>sl_id = lease_id r, sl_pool = lease_pool r, sl_status = status_text (lease_status r),
     sl_created = Some (lease_created_at r), sl_expires = Some (lease_expires_at r), sl_last_used = Some (last_used_at r)\<rparr>"

definition means :: "(bytes \<Rightarrow> 'a decoded) \<Rightarrow> bytes \<Rightarrow> 'a \<Rightarrow> bool" where
  "means decode body v \<longleftrightarrow> decode body = Decoded v [] \<and> length body \<le> max_json_response_bytes"

definition reports :: "sdk_codec \<Rightarrow> wire \<Rightarrow> lease_error \<Rightarrow> bool" where
  "reports codec w e = (let (st, code) = error_details e in
     400 \<le> st \<and> length (wr_error w code) \<le> 1048576
     \<and> (case sc_error codec (wr_error w code) of Decoded (c, m) rest \<Rightarrow> c = code \<and> m \<noteq> [] \<and> rest = [] | _ \<Rightarrow> False))"

definition platform_error :: "lease_error \<Rightarrow> sdk_error" where
  "platform_error e = (case error_details e of (st, code) \<Rightarrow> Sdk_error st code)"

section \<open>Paths\<close>

lemma hex_val_upper: "n < 16 \<Longrightarrow> hex_val (upper_hex n) = Some n"
  by (auto simp: upper_hex_def hex_val_def less_Suc_eq numeral_eq_Suc)

lemma path_safe_percent: "path_safe c \<Longrightarrow> c \<noteq> CHR 0x25 \<and> c \<noteq> CHR ''/''"
  by (auto simp: path_safe_def unreserved_def)

lemma path_escape_Cons: "path_escape (c # s) = (if path_safe c then [c]
     else [CHR 0x25, upper_hex (byte_val c div 16), upper_hex (byte_val c mod 16)]) @ path_escape s"
  by (simp add: path_escape_def)

lemma unescape_escape: "path_unescape (path_escape s @ r) = map_option (\<lambda>t. s @ t) (path_unescape r)"
proof (induction s)
  case Nil
  then show ?case by (simp add: path_escape_def option.map_ident)
next
  case (Cons c s)
  have "byte_val c div 16 < 16" using byte_val_less [of c] by (simp add: less_mult_imp_div_less)
  moreover have "char_of (16 * (byte_val c div 16) + byte_val c mod 16) = c" by simp
  ultimately show ?case
    using Cons path_safe_percent [of c] by (auto simp: path_escape_Cons hex_val_upper option.map_comp comp_def)
qed

lemma unescape_plain: "CHR 0x25 \<notin> set s \<Longrightarrow> path_unescape (s @ r) = map_option (\<lambda>t. s @ t) (path_unescape r)"
  by (cases "path_unescape r"; induction s) auto

lemma unescape_literal: "CHR 0x25 \<notin> set s \<Longrightarrow> path_unescape s = Some s"
  using unescape_plain [of s "[]"] by simp

lemma upper_hex_no_slash: "n < 16 \<Longrightarrow> upper_hex n \<noteq> CHR ''/''"
  by (auto simp: upper_hex_def less_Suc_eq numeral_eq_Suc)

lemma escape_no_slash: "CHR ''/'' \<notin> set (path_escape s)"
proof (induction s)
  case (Cons c s)
  have "byte_val c div 16 < 16" using byte_val_less [of c] by (simp add: less_mult_imp_div_less)
  then show ?case
    using Cons path_safe_percent [of c] upper_hex_no_slash [of "byte_val c div 16"] upper_hex_no_slash [of "byte_val c mod 16"]
    by (auto simp: path_escape_Cons)
qed (simp add: path_escape_def)

lemma escape_dot_segment: "dot_segment (path_escape s) \<Longrightarrow> dot_segment s"
  using unescape_escape [of s "[]"] unescape_literal [of "path_escape s"] by (auto simp: dot_segment_def)

lemma no_dot_segments: "list_all (\<lambda>e. \<not> dot_segment e) es \<Longrightarrow> resolve_segments acc es = acc @ es"
  by (induction es arbitrary: acc) (auto simp: dot_segment_def)

text \<open>The actions of the routes on one lease.\<close>

definition lease_actions :: "string list" where
  "lease_actions = [[], ''/exec'', ''/release'', ''/files/read'', ''/files/write'', ''/files/content'']"

definition plain_id :: "string \<Rightarrow> bool" where
  "plain_id lid \<longleftrightarrow> lid \<noteq> [] \<and> \<not> dot_segment lid \<and> CHR ''/'' \<notin> set lid \<and> CHR 0x25 \<notin> set lid"

lemma resolved_reference:
  assumes "action \<in> set lease_actions" and "\<not> dot_segment lid"
  shows "resolve_path ''/'' (lease_reference lid action) = ''/v1/leases/'' @ path_escape lid @ action"
proof -
  obtain as where as: "split_on CHR ''/'' (path_escape lid @ action) = path_escape lid # as" "list_all (\<lambda>e. \<not> dot_segment e) as"
    using assms(1) by (auto simp: lease_actions_def split_on_free split_on_append_sep escape_no_slash dot_segment_def)
  let ?full = "''/v1/leases/'' @ path_escape lid @ action"
  have segs: "split_on CHR ''/'' ?full = [[], ''v1'', ''leases'', path_escape lid] @ as" using as(1) by simp
  then have nodot: "list_all (\<lambda>e. \<not> dot_segment e) (split_on CHR ''/'' ?full)"
    using as(2) assms(2) escape_dot_segment [of lid] by (auto simp: dot_segment_def)
  then have "resolve_segments [] (split_on CHR ''/'' ?full) = split_on CHR ''/'' ?full" by (simp add: no_dot_segments)
  moreover have "\<not> dot_segment (last (split_on CHR ''/'' ?full))" using nodot last_in_set by (fastforce simp: list_all_iff)
  moreover have "rev (dropWhile (\<lambda>c. c \<noteq> CHR ''/'') (rev ''/'')) @ lease_reference lid action = ?full"
    by (simp add: lease_reference_def sdk_lease_path_def)
  ultimately show ?thesis
    by (simp only: resolve_path_def Let_def join_split) (simp add: has_prefix_def)
qed

lemma route_served:
  assumes "action \<in> set lease_actions" and "plain_id lid"
  shows "match_lease_route (''/v1/leases/'' @ lid @ action) = Some (lid, tl action)"
proof -
  have "has_prefix (''/v1/leases/'' @ lid @ action) (lease_path @ ''/'')" by (simp add: has_prefix_def lease_path_def)
  moreover have "drop (length (lease_path @ ''/'')) (''/v1/leases/'' @ lid @ action) = lid @ action" by (simp add: lease_path_def)
  ultimately show ?thesis
    using assms by (auto simp: match_lease_route_def Let_def lease_actions_def plain_id_def split_on_free split_on_append_sep unescape_literal)
qed

text \<open>
  The SDK and the server agree on paths: for every lease identifier without a slash or a
  percent sign that is no dot segment, whatever its other bytes, the path the SDK requests for
  an action arrives as the path that the server routes to that lease and that action.
\<close>

theorem sdk_route_round_trip:
  assumes "action \<in> set lease_actions" and "plain_id lid"
  shows "\<exists>path. path_unescape (resolve_path ''/'' (lease_reference lid action)) = Some path
    \<and> match_lease_route path = Some (lid, tl action)"
proof -
  have "path_unescape (resolve_path ''/'' (lease_reference lid action)) = Some (''/v1/leases/'' @ lid @ action)"
    using assms resolved_reference [OF assms(1), of lid] unescape_plain [of "''/v1/leases/''"] unescape_literal [of action]
    by (auto simp: plain_id_def unescape_escape lease_actions_def)
  then show ?thesis using route_served [OF assms] by blast
qed

lemma sdk_route_round_trip_witness:
  "\<exists>path. path_unescape (resolve_path ''/'' (lease_reference ''a b'' ''/files/read'')) = Some path
    \<and> match_lease_route path = Some (''a b'', ''files/read'')"
  using sdk_route_round_trip [of "''/files/read''" "''a b''"] by (simp add: lease_actions_def plain_id_def dot_segment_def)

section \<open>Calls over the transport\<close>

definition encoded :: "'s sdk_client \<Rightarrow> sdk_body option \<Rightarrow> bytes \<Rightarrow> bool" where
  "encoded cl body bs \<longleftrightarrow> (case body of None \<Rightarrow> bs = []
     | Some b \<Rightarrow> sc_encode (sd_codec cl) b = Some bs \<and> length bs \<le> max_json_request_bytes)"

text \<open>What the server makes of a call of the client.\<close>

definition asks :: "http_env \<Rightarrow> lease_scope \<Rightarrow> string \<Rightarrow> string \<Rightarrow> (string \<times> string) list \<Rightarrow> string \<Rightarrow> bytes \<Rightarrow> http_request \<Rightarrow> bool" where
  "asks env scope meth path query key bs hr \<longleftrightarrow> authenticate_request env hr = Inr scope \<and> hr_method hr = meth \<and> hr_path hr = path
     \<and> hr_raw_query hr = encode_query query \<and> hr_query hr = Some (map (\<lambda>(k, v). (k, [v])) query)
     \<and> hr_values hr = map (\<lambda>(k, v). (k, [v])) query \<and> hr_idempotency_key hr = trim_ascii key \<and> hr_body hr = bs"

lemma served_by_delivered:
  "header_value_ok (cq_token rq) \<Longrightarrow> header_value_ok (cq_idempotency_key rq) \<Longrightarrow> delivered_request rq = Some hr \<Longrightarrow>
   served_by w api env rq s = (case serve_http api env hr s of (resp, s') \<Rightarrow> (Inr (render w resp), s'))"
  by (simp add: served_by_def)

lemma do_json_served:
  assumes con: "connected cl w api env scope" and enc: "encoded cl body bs"
    and path: "path_unescape (resolve_path ''/'' ref) = Some path" and key: "header_value_ok key"
  shows "\<exists>hr. asks env scope meth path query key bs hr \<and> do_json cl meth ref query key body decode st s
    = (case serve_http api env hr s of (resp, s') \<Rightarrow> (json_answer (sd_codec cl) decode st (render w resp), s'))"
proof -
  obtain token where tok: "sd_token cl = Inr token" "\<not> blank token" "header_value_ok token" "has_prefix (bearer token) ''Bearer ''"
      "verify_subject_token (he_tokens env) (drop 7 (bearer token)) (he_now env) (5 * minute) = Inr scope"
    using con by (auto simp: connected_def)
  let ?rq = "(bare_request meth (resolve_path ''/'' ref) query token)\<lparr>cq_accept := ''application/json'',
    cq_content_type := (if body = None then [] else ''application/json''), cq_idempotency_key := key,
    cq_content_length := int (length bs), cq_body := bs\<rparr>"
  let ?hr = "the (delivered_request ?rq)"
  have sent: "delivered_request ?rq = Some ?hr" using path by (simp add: delivered_request_def bare_request_def)
  have ask: "asks env scope meth path query key bs ?hr"
    using path tok(4,5) by (simp add: asks_def delivered_request_def bare_request_def authenticate_request_def)
  have "do_json cl meth ref query key body decode st s
      = (case sd_send cl ?rq s of (Inl e, s) \<Rightarrow> (Inl (send_error cl e), s)
         | (Inr resp, s) \<Rightarrow> (json_answer (sd_codec cl) decode st resp, s))"
    using con enc tok(1,2) by (auto simp: do_json_def encoded_def new_request_def connected_def split: option.splits)
  moreover have "sd_send cl ?rq s = (case serve_http api env ?hr s of (resp, s') \<Rightarrow> (Inr (render w resp), s'))"
  proof -
    have send: "sd_send cl = served_by w api env" using con by (simp add: connected_def)
    have "header_value_ok (cq_token ?rq)" "header_value_ok (cq_idempotency_key ?rq)"
      using tok(3) key by (simp_all add: bare_request_def)
    then show ?thesis unfolding send by (rule served_by_delivered [OF _ _ sent])
  qed
  ultimately show ?thesis using ask by (intro exI [of _ ?hr]) (simp split: prod.split)
qed

lemma answer_error:
  assumes "reports codec w e" and "st < 400"
  shows "json_answer codec decode st (render w (write_error e)) = Inl (platform_error e)"
  using assms by (cases e; simp add: reports_def json_answer_def render_def write_error_def platform_error_def
      decode_platform_error_def decode_json_response_def max_json_response_bytes_def split: decoded.split_asm prod.split_asm)

lemma answer_value:
  "means d (wr_body w b) v \<Longrightarrow> json_answer codec (Some d) st (render w (Ok_json st b)) = Inr (Some v)"
  by (simp add: means_def json_answer_def render_def decode_json_response_def)

lemma answer_nothing: "json_answer codec (None :: (bytes \<Rightarrow> 'a decoded) option) 204 (render w No_content) = Inr None"
  by (simp add: json_answer_def render_def)

lemma encoded_nothing [simp]: "encoded cl None bs \<longleftrightarrow> bs = []"
  by (simp add: encoded_def)

lemma header_value_empty [simp]: "header_value_ok []"
  by (simp add: header_value_ok_def)

text \<open>One call on a lease: what the handler of the route answers.\<close>

lemma lease_call:
  assumes con: "connected cl w api env scope" and lid: "plain_id lid" and act: "action \<in> set lease_actions" and enc: "encoded cl body bs"
  shows "\<exists>hr. asks env scope meth (''/v1/leases/'' @ lid @ action) [] [] bs hr \<and>
    do_json cl meth (lease_reference lid action) [] [] body decode st s
    = (case serve_lease api env hr scope lid (tl action) s of (resp, s') \<Rightarrow> (json_answer (sd_codec cl) decode st (render w resp), s'))"
proof -
  have "path_unescape (resolve_path ''/'' (lease_reference lid action)) = Some (''/v1/leases/'' @ lid @ action)"
    using lid act resolved_reference [OF act, of lid] unescape_plain [of "''/v1/leases/''"] unescape_literal [of action]
    by (auto simp: plain_id_def unescape_escape lease_actions_def)
  from do_json_served [OF con enc this header_value_empty, of meth "[]" decode st s]
  obtain hr where hr: "asks env scope meth (''/v1/leases/'' @ lid @ action) [] [] bs hr"
    and eq: "do_json cl meth (lease_reference lid action) [] [] body decode st s
      = (case serve_http api env hr s of (resp, s') \<Rightarrow> (json_answer (sd_codec cl) decode st (render w resp), s'))" by blast
  have "serve_http api env hr s = serve_lease api env hr scope lid (tl action) s"
    using hr route_served [OF act lid] lease_route_path [OF route_served [OF act lid]] by (simp add: serve_http_def asks_def)
  then show ?thesis using hr eq by auto
qed

text \<open>What the calls of the SDK give for the results of the backend.\<close>

definition seen_lease :: "lease_error + lease_record \<Rightarrow> sdk_error + sdk_lease" where
  "seen_lease r = (case r of Inl e \<Rightarrow> Inl (platform_error e) | Inr l \<Rightarrow> checked_lease (lease_view l))"

definition lease_readable :: "sdk_codec \<Rightarrow> wire \<Rightarrow> lease_error + lease_record \<Rightarrow> bool" where
  "lease_readable codec w r \<longleftrightarrow> (case r of Inl e \<Rightarrow> reports codec w e | Inr l \<Rightarrow> means (sc_lease codec) (wr_body w (Lease_body l)) (lease_view l))"

lemma seen_lease_answer:
  assumes "lease_readable codec w r"
  shows "one_lease (case respond (\<lambda>l. Ok_json 200 (Lease_body l)) (r, s') of
      (resp, s') \<Rightarrow> (json_answer codec (Some (sc_lease codec)) 200 (render w resp), s')) = (seen_lease r, s')"
  using assms by (cases r) (auto simp: lease_readable_def respond_def seen_lease_def one_lease_def answer_error answer_value)



section \<open>Downloads over the transport\<close>

text \<open>
  The reads of a body: wherever the end of the file is reported, all of the body has been
  read, and its transfer was not cut off.
\<close>

definition reads_of :: "bytes \<Rightarrow> bool \<Rightarrow> (bytes \<times> read_end) list \<Rightarrow> bool" where
  "reads_of body failed cs \<longleftrightarrow> (\<forall>i < length cs. snd (cs ! i) = Eof \<longrightarrow> \<not> failed \<and> concat (map fst (take (Suc i) cs)) = body)"

lemma reader_eof:
  "Read_eof \<in> snd ` set (fst (reader_run sha cs r)) \<Longrightarrow>
   \<exists>i < length cs. snd (cs ! i) = Eof \<and> delivered (fst (reader_run sha cs r)) = concat (map fst (take (Suc i) cs))"
proof (induction cs arbitrary: r)
  case (Cons c cs)
  obtain p fin where c: "c = (p, fin)" by fastforce
  obtain q res r1 where x: "reader_read sha p fin r = ((q, res), r1)" by (metis prod.collapse)
  have run: "fst (reader_run sha (c # cs) r) = (q, res) # fst (reader_run sha cs r1)"
    by (simp add: c x split: prod.split)
  have open_r: "\<not> vr_closed r"
  proof
    assume "vr_closed r"
    then show False using Cons.prems reader_closed_run [of r sha "c # cs"] by auto
  qed
  then have q: "q = p" using x by (auto simp: reader_read_def Let_def split: if_split_asm read_end.splits)
  show ?case
  proof (cases "res = Read_eof")
    case True
    then have "fin = Eof" "vr_closed r1" using x open_r by (auto simp: reader_read_def Let_def split: if_split_asm read_end.splits)
    then have "delivered (fst (reader_run sha (c # cs) r)) = p" "snd c = Eof"
      using run q c reader_closed_run [of r1 sha cs] by (auto simp: delivered_def)
    then show ?thesis using c by (intro exI [of _ 0]) simp
  next
    case False
    then obtain i where "i < length cs" "snd (cs ! i) = Eof" "delivered (fst (reader_run sha cs r1)) = concat (map fst (take (Suc i) cs))"
      using Cons run by auto
    then show ?thesis using run q c by (intro exI [of _ "Suc i"]) simp
  qed
qed simp

lemma content_sent:
  assumes "read_file_content api env hr scope lid s = (Content n dg sent ok, s2)" and "api_open api scope lid path s = (Inr d, s')"
    and "required_file_path (hr_values hr) = Inr path"
  shows "s2 = api_close_download api d s'
    \<and> (ok \<longrightarrow> sent = dl_content d \<and> int (length (dl_content d)) = dl_size d \<and> he_sha256 env (dl_content d) = dl_digest d)"
  using assms by (cases "dl_content d") (auto simp: read_file_content_def Let_def write_error_def error_details_def split: if_split_asm lease_error.split_asm)

lemma read_stream_accepts:
  assumes "sdk_read_stream cl lid path s = (Inr k, s2)"
  shows "\<exists>rq resp. new_request cl ''GET'' (lease_reference lid ''/files/content'') [(''path'', path)] = Inr rq
    \<and> sd_send cl (rq\<lparr>cq_accept := ''application/octet-stream''\<rparr>) s = (Inr resp, s2) \<and> cr_status resp = 200
    \<and> hd (split_on CHR '';'' (cr_content_type resp)) = ''application/octet-stream''
    \<and> sk_body k = cr_body resp \<and> sk_body_error k = cr_body_error resp"
proof -
  have sum: "map_sum id f r = Inr k \<longleftrightarrow> (\<exists>v. r = Inr v \<and> k = f v)" for f :: "bytes \<Rightarrow> sdk_download" and r :: "sdk_error + bytes"
    by (cases r) auto
  show ?thesis
    using assms by (auto simp: sdk_read_stream_def sum split: if_split_asm sum.split_asm prod.split_asm option.split_asm)
qed

lemma content_read:
  assumes con: "connected cl w api env scope" and lid: "plain_id lid" and path: "\<not> blank path"
    and opened: "api_open api scope lid path s = (Inr d, s')" and got: "sdk_read_stream cl lid path s = (Inr k, s2)"
  shows "\<exists>sent ok. sk_body k = (if ok then sent else take (wr_arrives w) sent) \<and> sk_body_error k = (\<not> ok) \<and> s2 = api_close_download api d s'
    \<and> (ok \<longrightarrow> sent = dl_content d \<and> int (length (dl_content d)) = dl_size d \<and> he_sha256 env (dl_content d) = dl_digest d)"
proof -
  obtain token where tok: "sd_token cl = Inr token" "\<not> blank token" "header_value_ok token" "has_prefix (bearer token) ''Bearer ''"
      "verify_subject_token (he_tokens env) (drop 7 (bearer token)) (he_now env) (5 * minute) = Inr scope"
    using con by (auto simp: connected_def)
  let ?action = "''/files/content''"
  have act: "?action \<in> set lease_actions" by (simp add: lease_actions_def)
  let ?p = "''/v1/leases/'' @ lid @ ?action"
  have url: "path_unescape (resolve_path ''/'' (lease_reference lid ?action)) = Some ?p"
    using lid resolved_reference [OF act, of lid] unescape_plain [of "''/v1/leases/''"] unescape_literal [of ?action]
    by (auto simp: plain_id_def unescape_escape)
  let ?rq = "(bare_request ''GET'' (resolve_path ''/'' (lease_reference lid ?action)) [(''path'', path)] token)\<lparr>cq_accept := ''application/octet-stream''\<rparr>"
  let ?hr = "the (delivered_request ?rq)"
  have sent: "delivered_request ?rq = Some ?hr" using url by (simp add: delivered_request_def bare_request_def)
  have ask: "authenticate_request env ?hr = Inr scope" "hr_method ?hr = ''GET''" "hr_path ?hr = ?p" "hr_values ?hr = [(''path'', [path])]"
    using url tok(4,5) by (simp_all add: delivered_request_def bare_request_def authenticate_request_def)
  have served: "serve_http api env ?hr s = read_file_content api env ?hr scope lid s"
    using ask route_served [OF act lid] lease_route_path [OF route_served [OF act lid]] by (simp add: serve_http_def serve_lease_def)
  have file_path: "required_file_path (hr_values ?hr) = Inr path" using path by (simp add: ask(4) required_file_path_def)
  note served
  moreover have "sd_send cl ?rq s = (case serve_http api env ?hr s of (resp, s') \<Rightarrow> (Inr (render w resp), s'))"
  proof -
    have send: "sd_send cl = served_by w api env" using con by (simp add: connected_def)
    have "header_value_ok (cq_token ?rq)" "header_value_ok (cq_idempotency_key ?rq)" using tok(3) by (simp_all add: bare_request_def)
    then show ?thesis unfolding send by (rule served_by_delivered [OF _ _ sent])
  qed
  moreover have "new_request cl ''GET'' (lease_reference lid ?action) [(''path'', path)]
      = Inr (bare_request ''GET'' (resolve_path ''/'' (lease_reference lid ?action)) [(''path'', path)] token)"
    using con tok(1,2) by (simp add: new_request_def connected_def)
  ultimately obtain resp where resp: "read_file_content api env ?hr scope lid s = (resp, s2)" "cr_status (render w resp) = 200"
      "hd (split_on CHR '';'' (cr_content_type (render w resp))) = ''application/octet-stream''"
      "sk_body k = cr_body (render w resp)" "sk_body_error k = cr_body_error (render w resp)"
    using read_stream_accepts [OF got] by (auto split: prod.split_asm)
  have json: "hd (split_on CHR '';'' ''application/json'') \<noteq> ''application/octet-stream''" by code_simp
  show ?thesis
  proof (cases resp)
    case (Content n dg sent ok)
    then show ?thesis using content_sent [OF resp(1) [unfolded Content] opened file_path] resp(4,5) by (auto simp: render_def)
  qed (use resp(3) json in \<open>auto simp: render_def\<close>)
qed


section \<open>Samples\<close>

definition sample_token :: string where
  "sample_token = mint_token (te_hmac sample_tokens) ''key'' ''alice''"

definition sample_wire :: wire where
  "sample_wire = \<lparr>wr_body = (\<lambda>b. case b of Lease_body l \<Rightarrow> status_text (lease_status l) | _ \<Rightarrow> ''text''), wr_error = id, wr_arrives = 0\<rparr>"

definition remote_http :: http_env where
  "remote_http = sample_http\<lparr>he_acquire := \<lambda>_. Decoded (sample_acquire_request\<lparr>aq_idempotency_key := []\<rparr>) []\<rparr>"

definition sample_sdk :: "'s lease_api \<Rightarrow> lease_record \<Rightarrow> lease_record \<Rightarrow> 's sdk_client" where
  "sample_sdk api a b = \<lparr>sd_base = ''/'', sd_closed = False, sd_token = Inr sample_token,
     sd_send = served_by sample_wire api remote_http, sd_ctx_done = False,
     sd_codec = \<lparr>sc_encode = (\<lambda>_. Some ''request''), sc_acquire = (\<lambda>_. Decoded (lease_view a, False) []),
       sc_lease = (\<lambda>t. Decoded (lease_view (if t = ''active'' then a else b)) []), sc_list = (\<lambda>_. Malformed),
       sc_exec = (\<lambda>_. Malformed), sc_read = (\<lambda>_. Malformed), sc_error = (\<lambda>t. Decoded (t, ''message'') [])\<rparr>\<rparr>"

lemma sample_connected: "connected (sample_sdk api a b) sample_wire api remote_http alice"
proof -
  have "\<not> blank sample_token" "header_value_ok sample_token" "has_prefix (bearer sample_token) ''Bearer ''"
    "verify_subject_token (he_tokens remote_http) (drop 7 (bearer sample_token)) (he_now remote_http) (5 * minute) = Inr alice"
    by code_simp+
  then show ?thesis by (simp add: connected_def sample_sdk_def)
qed

abbreviation sample_api :: "store bstate lease_api" where
  "sample_api \<equiv> kube_api sample_backend sample_inputs"

lemma sample_results:
  "map_sum id lease_status (fst (api_get sample_api alice ''lease-61'' leased_state)) = Inr Active"
  "map_sum id lease_status (fst (api_release sample_api alice ''lease-61'' leased_state)) = Inr Released"
  "fst (api_delete sample_api alice ''lease-61'' leased_state) = Inr ()"
  by code_simp+


lemma sample_remote_acquire: "map_sum id snd (fst (api_acquire sample_api alice sample_acquire_request empty_state)) = Inr False"
  by code_simp


definition sample_download_api :: "store bstate lease_api" where
  "sample_download_api = kube_api sample_backend (sample_inputs\<lparr>ri_download :=
     \<lambda>_ _. (''ASP1 OK 2 '' @ hex_encode (http_sha ''hi'') @ [CHR 0x0A] @ ''hi'', Io_eof)\<rparr>)"

lemma sample_open: "map_sum id (\<lambda>d. (dl_size d, dl_digest d, dl_content d)) (fst (api_open sample_download_api alice ''lease-61'' ''a'' leased_state))
   = Inr (2, http_sha ''hi'', ''hi'')"
  by code_simp

lemma sample_stream:
  "map_sum id (\<lambda>k. (sk_size k, sk_digest k, sk_body k, sk_body_error k))
     (fst (sdk_read_stream (sample_sdk sample_download_api sample_record sample_record) ''lease-61'' ''a'' leased_state))
   = Inr (2, http_sha ''hi'', ''hi'', False)"
  by code_simp


end
