(* ===== verification/Supervisor_Server.thy ===== *)
theory Supervisor_Server
  imports Supervisor_Props
begin

text \<open>
  Around the manager of the command supervisor: the socket server with its framing
  (\<open>server.go\<close>), the client (\<open>client.go\<close>, \<open>cmd/ctl\<close>), the slots of the accept loop, and the
  construction of a manager under the lock of its state directory (\<open>NewManager\<close>,
  \<open>state_lock.go\<close>).
\<close>

section \<open>Requests served by the manager\<close>

text \<open>
  The inputs of one request: outcomes of system calls, clocks, the random identifier, whether
  the child was launched, and the states that a \<open>wait\<close> sees when it wakes up.
\<close>

record call_inputs =
  ci_read :: read_io
  ci_pipe :: bool
  ci_kill :: "string \<Rightarrow> bool"
  ci_order :: "string list"
  ci_random :: "string option"
  ci_now :: time
  ci_reserved :: persist_outcome
  ci_launched :: bool
  ci_started :: time
  ci_stored :: persist_outcome
  ci_later :: "manager list"

text \<open>\<open>Start\<close> from its reservation to the end of the launch, with nothing in between.\<close>

definition start_command :: "supervisor_env \<Rightarrow> call_inputs \<Rightarrow> request \<Rightarrow> manager \<Rightarrow> response \<times> manager" where
  "start_command env ci req m =
     (case start_reserve env req (ci_random ci) (ci_now ci) (ci_reserved ci) m of
        (Respond r, m1) \<Rightarrow> (r, m1)
      | (Launch i, m1) \<Rightarrow> if ci_launched ci then start_running env i (ci_started ci) (ci_stored ci) m1
          else start_failed env i (ci_started ci) (ci_stored ci) m1)"

definition serve_request :: "supervisor_env \<Rightarrow> call_inputs \<Rightarrow> request \<Rightarrow> manager \<Rightarrow> response \<times> manager" where
  "serve_request env ci req m =
     (case dispatch (ci_read ci) (ci_pipe ci) (ci_kill ci) (ci_order ci) req m of
        (Inr r, m1) \<Rightarrow> (r, m1)
      | (Inl opn, m1) \<Rightarrow> if opn = ''start'' then start_command env ci req m1
          else (wait (rq_command_id req) m1 (ci_later ci), m1))"

section \<open>Frames\<close>

definition max_response_bytes :: nat where "max_response_bytes = 12582912"

text \<open>\<open>io.ReadFull\<close> from what a connection still delivers.\<close>

definition read_full :: "nat \<Rightarrow> bytes \<Rightarrow> (bytes \<times> bytes) option" where
  "read_full n s = (if length s < n then None else Some (take n s, drop n s))"

definition frame :: "bytes \<Rightarrow> bytes" where
  "frame body = be_bytes 4 (length body) @ body"

datatype framed = Framed bytes | Not_encoded | Response_too_large

record server_env =
  sv_decode :: "bytes \<Rightarrow> request option"
  sv_encode :: "response \<Rightarrow> bytes option"
  sv_require_root :: bool
  sv_peer_uid :: "nat option"

definition write_frame :: "server_env \<Rightarrow> response \<Rightarrow> framed" where
  "write_frame env r = (case sv_encode env r of None \<Rightarrow> Not_encoded
     | Some body \<Rightarrow> if body = [] \<or> length body > max_response_bytes then Response_too_large else Framed (frame body))"

text \<open>What goes over the wire when every write succeeds.\<close>

definition write_response :: "server_env \<Rightarrow> response \<Rightarrow> bytes" where
  "write_response env r = (case write_frame env r of
     Framed out \<Rightarrow> out
   | Not_encoded \<Rightarrow> []
   | Response_too_large \<Rightarrow> (case write_frame env (failure ''RESPONSE_TOO_LARGE'') of Framed out \<Rightarrow> out | _ \<Rightarrow> []))"

definition require_root_peer :: "nat option \<Rightarrow> bool" where
  "require_root_peer uid = (uid = Some 0)"

definition handle_connection ::
  "server_env \<Rightarrow> (request \<Rightarrow> 's \<Rightarrow> response \<times> 's) \<Rightarrow> bytes \<Rightarrow> 's \<Rightarrow> bytes \<times> 's" where
  "handle_connection env serve input s =
     (if sv_require_root env \<and> \<not> require_root_peer (sv_peer_uid env) then ([], s)
      else case read_full 4 input of None \<Rightarrow> ([], s)
      | Some (header, rest) \<Rightarrow>
        let n = be_value header in
        if n = 0 \<or> n > max_request_bytes then (write_response env (failure ''REQUEST_TOO_LARGE''), s)
        else case read_full n rest of None \<Rightarrow> ([], s)
        | Some (body, _) \<Rightarrow>
          (case sv_decode env body of None \<Rightarrow> (write_response env (failure ''INVALID_REQUEST''), s)
           | Some rq \<Rightarrow> (case serve rq s of (r, s) \<Rightarrow> (write_response env r, s))))"

section \<open>The client\<close>

text \<open>\<open>RoundTrip\<close>: \<open>exchange\<close> is what the server answers to all that is sent.\<close>

definition supervisor_call :: "(bytes \<Rightarrow> bool) \<Rightarrow> (bytes \<Rightarrow> bytes) \<Rightarrow> bytes \<Rightarrow> bytes option" where
  "supervisor_call json_ok exchange body =
     (if body = [] \<or> length body > max_request_bytes then None
      else case read_full 4 (exchange (frame body)) of None \<Rightarrow> None
      | Some (header, rest) \<Rightarrow>
        let n = be_value header in
        if n = 0 \<or> n > max_response_bytes then None
        else case read_full n rest of None \<Rightarrow> None
        | Some (response, _) \<Rightarrow> if json_ok response then Some response else None)"

text \<open>The program \<open>ctl\<close>: what it prints and its exit status.\<close>

definition ctl_main :: "(bytes \<Rightarrow> bool) \<Rightarrow> (bytes \<Rightarrow> bytes) \<Rightarrow> bytes \<Rightarrow> bytes \<times> int" where
  "ctl_main json_ok exchange input =
     (let body = take (max_request_bytes + 1) input in
      if length body > max_request_bytes then ([], 1)
      else case supervisor_call json_ok exchange body of None \<Rightarrow> ([], 1)
      | Some response \<Rightarrow> (response @ [CHR 0x0A], 0))"

section \<open>Framing is exact\<close>

lemma read_full_append: "length a = n \<Longrightarrow> read_full n (a @ b) = Some (a, b)"
  by (simp add: read_full_def)

lemma frame_parts:
  "length body < 256 ^ 4 \<Longrightarrow> read_full 4 (frame body @ r) = Some (be_bytes 4 (length body), body @ r)
     \<and> be_value (be_bytes 4 (length body)) = length body"
  by (simp add: frame_def read_full_append be_round_trip del: be_bytes.simps)

lemma read_frame:
  assumes "length body < 256 ^ 4"
  shows "read_full 4 (frame body) = Some (be_bytes 4 (length body), body)" "be_value (be_bytes 4 (length body)) = length body"
    "read_full (length body) body = Some (body, [])"
  using frame_parts [OF assms, of "[]"] by (simp_all add: read_full_def)

lemma response_bound: "n \<le> max_response_bytes \<Longrightarrow> n < 256 ^ 4"
  by (simp add: max_response_bytes_def)

lemma request_bound: "n \<le> max_request_bytes \<Longrightarrow> n < 256 ^ 4"
  by (simp add: max_request_bytes_def)

definition envelope_ok :: "bytes \<Rightarrow> bool" where
  "envelope_ok b \<longleftrightarrow> b \<noteq> [] \<and> length b \<le> max_response_bytes"

lemma write_response_framed: "write_response env r = [] \<or> (\<exists>b. envelope_ok b \<and> write_response env r = frame b)"
  by (auto simp: write_response_def write_frame_def envelope_ok_def split: option.splits framed.splits if_split_asm)

lemma be_value_unique: "length h = k \<Longrightarrow> be_bytes k (be_value h) = h"
proof (induction k arbitrary: h)
  case (Suc k)
  then obtain b c where h: "h = b @ [c]" "length b = k" by (metis length_Suc_conv_rev)
  have "be_value h div 256 = be_value b" "be_value h mod 256 = byte_val c" using byte_val_less [of c] by (simp_all add: h(1) be_value_append)
  then show ?case using Suc.IH [OF h(2)] by (simp add: h(1))
qed simp

text \<open>One connection: what is served, or why nothing is.\<close>

lemma handle_served:
  assumes "sv_require_root env \<Longrightarrow> sv_peer_uid env = Some 0" and "body \<noteq> []" and "length body \<le> max_request_bytes"
  shows "handle_connection env serve (frame body @ rest) s =
    (case sv_decode env body of None \<Rightarrow> (write_response env (failure ''INVALID_REQUEST''), s)
     | Some rq \<Rightarrow> (case serve rq s of (r, s') \<Rightarrow> (write_response env r, s')))"
proof -
  have n: "read_full 4 (frame body @ rest) = Some (be_bytes 4 (length body), body @ rest)" "be_value (be_bytes 4 (length body)) = length body"
    using frame_parts [OF request_bound [OF assms(3)], of rest] by auto
  have "read_full (length body) (body @ rest) = Some (body, rest)" by (simp add: read_full_append)
  then show ?thesis
    using assms n by (auto simp: handle_connection_def require_root_peer_def Let_def simp del: be_bytes.simps)
qed

lemma handle_cases:
  "fst (handle_connection env serve input s) \<in> range (write_response env) \<union> {[]} \<and>
   (snd (handle_connection env serve input s) = s \<or>
    (\<exists>body rest rq. input = frame body @ rest \<and> body \<noteq> [] \<and> length body \<le> max_request_bytes \<and> sv_decode env body = Some rq
       \<and> (sv_require_root env \<longrightarrow> sv_peer_uid env = Some 0)))"
proof (cases "(sv_require_root env \<and> sv_peer_uid env \<noteq> Some 0) \<or> length input < 4")
  case True
  then show ?thesis by (auto simp: handle_connection_def require_root_peer_def read_full_def)
next
  case False
  define n where "n = be_value (take 4 input)"
  have take4: "take 4 input = be_bytes 4 n" using be_value_unique [of "take 4 input" 4] False by (simp add: n_def del: be_bytes.simps)
  have h: "handle_connection env serve input s = (if n = 0 \<or> n > max_request_bytes then (write_response env (failure ''REQUEST_TOO_LARGE''), s)
        else case read_full n (drop 4 input) of None \<Rightarrow> ([], s)
        | Some (body, _) \<Rightarrow> (case sv_decode env body of None \<Rightarrow> (write_response env (failure ''INVALID_REQUEST''), s)
           | Some rq \<Rightarrow> (case serve rq s of (r, s) \<Rightarrow> (write_response env r, s))))"
  proof -
    have open_peer: "\<not> (sv_require_root env \<and> \<not> require_root_peer (sv_peer_uid env))" and four: "\<not> length input < 4"
      using False by (auto simp: require_root_peer_def)
    show ?thesis unfolding handle_connection_def if_not_P [OF open_peer] by (simp add: four read_full_def n_def Let_def)
  qed
  show ?thesis
  proof (cases "n = 0 \<or> n > max_request_bytes \<or> length (drop 4 input) < n")
    case True
    then show ?thesis unfolding h by (auto simp: read_full_def)
  next
    case ok: False
    let ?body = "take n (drop 4 input)"
    have len: "length ?body = n" using ok by simp
    have "input = take 4 input @ ?body @ drop n (drop 4 input)" by (simp only: append_take_drop_id)
    then have split: "input = frame ?body @ drop n (drop 4 input)" unfolding frame_def len take4 by simp
    have "handle_connection env serve input s
        = (case sv_decode env ?body of None \<Rightarrow> (write_response env (failure ''INVALID_REQUEST''), s)
           | Some rq \<Rightarrow> (case serve rq s of (r, s) \<Rightarrow> (write_response env r, s)))"
      using ok unfolding h by (simp add: read_full_def)
    moreover have "?body \<noteq> []" "length ?body \<le> max_request_bytes" using ok len by auto
    ultimately show ?thesis
      using split False by (cases "sv_decode env ?body"; cases "serve (the (sv_decode env ?body)) s") (simp, auto)
  qed
qed

lemma handle_short:
  assumes "frame body = input @ rest" and "rest \<noteq> []" and "body \<noteq> []" and "length body \<le> max_request_bytes"
  shows "handle_connection env serve input s = ([], s)"
proof (cases "length input < 4")
  case False
  have "take 4 (frame body) = be_bytes 4 (length body)" by (simp add: frame_def del: be_bytes.simps)
  then have t: "take 4 input = be_bytes 4 (length body)" using assms(1) False by (simp del: be_bytes.simps)
  have "length input + length rest = 4 + length body" using arg_cong [OF assms(1), of length] by (simp add: frame_def del: be_bytes.simps)
  then have "length (drop 4 input) < length body" using assms(2) False by (cases rest) auto
  then show ?thesis
    using False t assms(3,4) read_frame(2) [OF request_bound [OF assms(4)]]
    by (simp add: handle_connection_def read_full_def Let_def del: be_bytes.simps)
qed (simp add: handle_connection_def read_full_def)

text \<open>
  C31. The socket protocol never loses its framing: whatever bytes a peer sends, the server
  answers with nothing or with exactly one frame of at most 12 MiB; it changes its state only
  by serving one request, whose text was complete, of at most 1 MiB and well formed; from a
  peer that is not root, or for a frame cut short, it serves nothing and answers nothing.
\<close>

theorem server_output_framed:
  "(fst (handle_connection env serve input s) = [] \<or>
      (\<exists>b. envelope_ok b \<and> fst (handle_connection env serve input s) = frame b))
   \<and> (snd (handle_connection env serve input s) = s \<or>
      (\<exists>body rest rq. input = frame body @ rest \<and> body \<noteq> [] \<and> length body \<le> max_request_bytes \<and> sv_decode env body = Some rq
         \<and> (sv_require_root env \<longrightarrow> sv_peer_uid env = Some 0) \<and> handle_connection env serve input s = (case serve rq s of (r, s') \<Rightarrow> (write_response env r, s'))))
   \<and> (sv_require_root env \<and> sv_peer_uid env \<noteq> Some 0 \<or> (\<exists>body rest. frame body = input @ rest \<and> rest \<noteq> [] \<and> body \<noteq> [] \<and> length body \<le> max_request_bytes)
      \<longrightarrow> handle_connection env serve input s = ([], s))"
proof (intro conjI impI)
  note c = handle_cases [of env serve input s]
  show "fst (handle_connection env serve input s) = [] \<or> (\<exists>b. envelope_ok b \<and> fst (handle_connection env serve input s) = frame b)"
    using c write_response_framed [of env] by fastforce
  show "snd (handle_connection env serve input s) = s \<or>
      (\<exists>body rest rq. input = frame body @ rest \<and> body \<noteq> [] \<and> length body \<le> max_request_bytes \<and> sv_decode env body = Some rq
         \<and> (sv_require_root env \<longrightarrow> sv_peer_uid env = Some 0) \<and> handle_connection env serve input s = (case serve rq s of (r, s') \<Rightarrow> (write_response env r, s')))"
    using c handle_served [of env _ serve _ s] by fastforce
  show "handle_connection env serve input s = ([], s)"
    if "sv_require_root env \<and> sv_peer_uid env \<noteq> Some 0 \<or> (\<exists>body rest. frame body = input @ rest \<and> rest \<noteq> [] \<and> body \<noteq> [] \<and> length body \<le> max_request_bytes)"
    using that handle_short [of _ input _ env serve s] by (auto simp: handle_connection_def require_root_peer_def)
qed

text \<open>
  C24. A call through the client is the operation itself: for every request text the client
  accepts, it gets back exactly the response of serving the decoded request, encoded, or the
  error that its encoding exceeds 12 MiB; a text that does not decode is answered as invalid
  and changes nothing; and the client never reports success without a response.
\<close>

theorem supervisor_call_exact:
  assumes peer: "sv_require_root env \<Longrightarrow> sv_peer_uid env = Some 0" and body: "body \<noteq> []" "length body \<le> max_request_bytes"
    and res: "(case sv_decode env body of None \<Rightarrow> (failure ''INVALID_REQUEST'', s) | Some rq \<Rightarrow> serve rq s) = (r, s')"
    and enc: "sv_encode env r = Some out" and large: "sv_encode env (failure ''RESPONSE_TOO_LARGE'') = Some note" "envelope_ok note"
    and json: "json_ok out" "json_ok note"
  shows "snd (handle_connection env serve (frame body) s) = s'
    \<and> supervisor_call json_ok (\<lambda>input. fst (handle_connection env serve input s)) body = Some (if envelope_ok out then out else note)"
proof -
  have h: "handle_connection env serve (frame body) s = (write_response env r, s')"
    using handle_served [where rest = "[]" and serve = serve and s = s, OF peer body] res by (auto split: option.splits prod.splits)
  let ?out = "if envelope_ok out then out else note"
  have w: "write_response env r = frame ?out" using enc large by (auto simp: write_response_def write_frame_def envelope_ok_def)
  have ok: "envelope_ok ?out" "json_ok ?out" using large json by auto
  then have "?out \<noteq> []" "length ?out \<le> max_response_bytes" by (auto simp: envelope_ok_def)
  then have "supervisor_call json_ok (\<lambda>input. fst (handle_connection env serve input s)) body = Some ?out"
    using body ok(2) h w read_frame [OF response_bound, of ?out] by (simp add: supervisor_call_def Let_def)
  then show ?thesis using h by simp
qed

text \<open>A server whose JSON is a few fixed texts, over the manager of the sample run.\<close>

definition status_request :: request where
  "status_request = sample_request\<lparr>rq_operation := ''status'', rq_command_id := sample_id\<rparr>"

definition sample_sv :: server_env where
  "sample_sv = \<lparr>sv_decode = (\<lambda>b. if b = ''status'' then Some status_request else None),
     sv_encode = (\<lambda>r. Some (if rs_ok r then ''ok'' else rs_code r)), sv_require_root = True, sv_peer_uid = Some 0\<rparr>"

definition sample_calls :: call_inputs where
  "sample_calls = \<lparr>ci_read = \<lparr>can_read = (\<lambda>_. True), can_truncate = True\<rparr>, ci_pipe = True, ci_kill = (\<lambda>_. True), ci_order = [],
     ci_random = None, ci_now = 7, ci_reserved = Synced, ci_launched = True, ci_started = 8, ci_stored = Synced, ci_later = []\<rparr>"

lemma sample_status: "\<exists>r. serve_request sup_env sample_calls status_request sup_m2 = (r, sup_m2) \<and> rs_ok r"
  by (auto simp: serve_request_def dispatch_def status_request_def sample_request_def protocol_version_def status_def sup_m2_state
      with_command_def success_def)

lemma server_output_framed_witness:
  "handle_connection sample_sv (serve_request sup_env sample_calls) [CHR 0x00, CHR 0x00, CHR 0x00] sup_m2 = ([], sup_m2)"
proof -
  have "frame ''status'' = [CHR 0x00, CHR 0x00, CHR 0x00] @ CHR 0x06 # ''status''" by code_simp
  then have "\<exists>body rest. frame body = [CHR 0x00, CHR 0x00, CHR 0x00] @ rest \<and> rest \<noteq> [] \<and> body \<noteq> [] \<and> length body \<le> max_request_bytes"
    by (intro exI [of _ "''status''"] exI [of _ "CHR 0x06 # ''status''"]) (simp add: max_request_bytes_def)
  then show ?thesis using server_output_framed [of sample_sv "serve_request sup_env sample_calls" "[CHR 0x00, CHR 0x00, CHR 0x00]" sup_m2] by blast
qed

lemma supervisor_call_exact_witness:
  "supervisor_call (\<lambda>_. True) (\<lambda>input. fst (handle_connection sample_sv (serve_request sup_env sample_calls) input sup_m2)) ''status''
   = Some ''ok''"
proof -
  obtain r where r: "serve_request sup_env sample_calls status_request sup_m2 = (r, sup_m2)" "rs_ok r" using sample_status by blast
  have res: "(case sv_decode sample_sv ''status'' of None \<Rightarrow> (failure ''INVALID_REQUEST'', sup_m2)
      | Some rq \<Rightarrow> serve_request sup_env sample_calls rq sup_m2) = (r, sup_m2)"
    by (simp add: sample_sv_def r)
  have "envelope_ok ''ok''" by (simp add: envelope_ok_def max_response_bytes_def)
  moreover have "snd (handle_connection sample_sv (serve_request sup_env sample_calls) (frame ''status'') sup_m2) = sup_m2
    \<and> supervisor_call (\<lambda>_. True) (\<lambda>input. fst (handle_connection sample_sv (serve_request sup_env sample_calls) input sup_m2)) ''status''
      = Some (if envelope_ok ''ok'' then ''ok'' else ''RESPONSE_TOO_LARGE'')"
    by (rule supervisor_call_exact [where serve = "serve_request sup_env sample_calls", OF _ _ _ res])
      (simp_all add: sample_sv_def r max_request_bytes_def failure_def success_def envelope_ok_def max_response_bytes_def)
  ultimately show ?thesis by simp
qed

section \<open>The accept loop\<close>

text \<open>
  \<open>Serve\<close>: a slot is taken before a connection is accepted and given back when its handler
  ends; when the loop is left, the handlers are awaited before the socket is removed.
\<close>

definition max_clients :: nat where "max_clients = 16"

datatype serve_phase = Taking | Accepting | Draining | Closed

record accept_loop =
  al_phase :: serve_phase
  al_slots :: nat
  al_handlers :: nat
  al_cancelled :: bool
  al_failed :: bool

inductive accept_step :: "accept_loop \<Rightarrow> accept_loop \<Rightarrow> bool" where
  as_take: "al_phase s = Taking \<Longrightarrow> al_slots s < max_clients \<Longrightarrow>
    accept_step s (s\<lparr>al_phase := Accepting, al_slots := al_slots s + 1\<rparr>)"
| as_done: "al_phase s = Taking \<Longrightarrow> al_cancelled s \<Longrightarrow> accept_step s (s\<lparr>al_phase := Draining\<rparr>)"
| as_accept: "al_phase s = Accepting \<Longrightarrow> accept_step s (s\<lparr>al_phase := Taking, al_handlers := al_handlers s + 1\<rparr>)"
| as_error: "al_phase s = Accepting \<Longrightarrow>
    accept_step s (s\<lparr>al_phase := Draining, al_slots := al_slots s - 1, al_failed := \<not> al_cancelled s\<rparr>)"
| as_finish: "al_handlers s > 0 \<Longrightarrow> accept_step s (s\<lparr>al_handlers := al_handlers s - 1, al_slots := al_slots s - 1\<rparr>)"
| as_close: "al_phase s = Draining \<Longrightarrow> al_handlers s = 0 \<Longrightarrow> accept_step s (s\<lparr>al_phase := Closed\<rparr>)"
| as_cancel: "accept_step s (s\<lparr>al_cancelled := True\<rparr>)"

inductive_cases accept_stepE: "accept_step s t"

definition accept_init :: "accept_loop \<Rightarrow> bool" where
  "accept_init s \<longleftrightarrow> s = \<lparr>al_phase = Taking, al_slots = 0, al_handlers = 0, al_cancelled = False, al_failed = False\<rparr>"

definition accept_inv :: "accept_loop \<Rightarrow> bool" where
  "accept_inv s \<longleftrightarrow> al_slots s = al_handlers s + (if al_phase s = Accepting then 1 else 0) \<and> al_slots s \<le> max_clients
     \<and> (al_phase s = Closed \<longrightarrow> al_handlers s = 0) \<and> (al_failed s \<longrightarrow> al_phase s \<in> {Draining, Closed})"

interpretation accepting: transition_system accept_init accept_step accept_inv
  by unfold_locales (auto simp: accept_init_def accept_inv_def elim!: accept_stepE)

text \<open>
  In every reachable state at most sixteen connections are handled, and when the socket is
  removed no handler runs any more.
\<close>

theorem server_bounded:
  assumes "accept_init s0" and "accept_step\<^sup>*\<^sup>* s0 s"
  shows "al_handlers s \<le> 16 \<and> (al_phase s = Closed \<longrightarrow> al_handlers s = 0)"
  using accepting.reachable_inv [OF assms] by (auto simp: accept_inv_def max_clients_def)

end
