(* ===== verification/Supervisor_Boot.thy ===== *)
theory Supervisor_Boot
  imports Supervisor_Server
begin

text \<open>
  The construction of a manager (\<open>NewManager\<close>) under the lock of its state directory
  (\<open>state_lock.go\<close>), and several supervisor processes on one machine.
\<close>

section \<open>The state lock\<close>

text \<open>
  Which lock files are held, and the outcomes of the system calls; \<open>lk_abs\<close> makes a path
  absolute and clean.
\<close>

record lock_env =
  lk_abs :: "string \<Rightarrow> string option"
  lk_open :: bool
  lk_chmod :: bool
  lk_mkdir :: bool

text \<open>\<open>filepath.Dir\<close> and \<open>filepath.Base\<close> of a clean absolute path.\<close>

definition path_base :: "string \<Rightarrow> string" where
  "path_base p = (let b = last (split_on CHR ''/'' p) in if b = [] then ''/'' else b)"

definition lock_path :: "string \<Rightarrow> string" where
  "lock_path p = path_join [path_dir p, ''.'' @ path_base p @ ''.supervisor.lock'']"

definition acquire_state_lock :: "lock_env \<Rightarrow> string \<Rightarrow> string set \<Rightarrow> (string \<times> string) option \<times> string set" where
  "acquire_state_lock le dir locks =
     (case lk_abs le dir of None \<Rightarrow> (None, locks)
      | Some p \<Rightarrow>
        if \<not> lk_open le then (None, locks)
        else if lock_path p \<in> locks then (None, locks)
        else if \<not> lk_chmod le \<or> \<not> lk_mkdir le then (None, locks)
        else (Some (p, lock_path p), insert (lock_path p) locks))"

definition close_lock :: "string \<Rightarrow> string set \<Rightarrow> string set" where
  "close_lock l locks = locks - {l}"

section \<open>NewManager\<close>

record boot_config =
  bc_state_dir :: string
  bc_workspace_dir :: string
  bc_require_root :: bool

record boot_env =
  be_euid :: int
  be_lock :: lock_env
  be_chmod_state :: bool
  be_mkdir_commands :: bool
  be_chmod_commands :: bool
  be_state_uid :: "nat option"
  be_commands_uid :: "nat option"
  be_eval :: "string \<Rightarrow> string option"
  be_entries :: "(string \<times> bool) list option"
  be_read :: read_io
  be_out :: persist_outcome
  be_now :: time
  be_supervisor :: supervisor_env

text \<open>\<open>ensureRootOwned\<close>, of the owner that \<open>stat\<close> reports.\<close>

definition ensure_root_owned :: "nat option \<Rightarrow> bool" where
  "ensure_root_owned uid = (uid = Some 0)"

definition path_contains :: "string \<Rightarrow> string \<Rightarrow> bool" where
  "path_contains parent child = (child = parent \<or> has_prefix child (parent @ ''/''))"

text \<open>The checks after the lock is held, up to the loading of the records.\<close>

definition boot_checks :: "boot_env \<Rightarrow> boot_config \<Rightarrow> bool" where
  "boot_checks env cfg =
     (be_chmod_state env \<and> be_mkdir_commands env \<and> be_chmod_commands env
      \<and> (bc_require_root cfg \<longrightarrow> ensure_root_owned (be_state_uid env) \<and> ensure_root_owned (be_commands_uid env))
      \<and> (case (be_eval env (bc_state_dir cfg), be_eval env (if bc_workspace_dir cfg = [] then ''/workspace'' else bc_workspace_dir cfg)) of
           (Some st, Some ws) \<Rightarrow> \<not> path_contains st ws \<and> \<not> path_contains ws st
         | _ \<Rightarrow> False))"

text \<open>
  The manager with the absolute path of its state directory and its lock, \<open>None\<close> on an error;
  the disk of that directory is read and written only through \<open>disk\<close>.
\<close>

definition new_manager ::
  "boot_env \<Rightarrow> boot_config \<Rightarrow> string set \<Rightarrow> (string \<Rightarrow> disk) \<Rightarrow> (string \<times> string \<times> manager) option \<times> string set \<times> (string \<Rightarrow> disk)" where
  "new_manager env cfg locks disk =
     (if bc_state_dir cfg = [] \<or> (bc_workspace_dir cfg \<noteq> [] \<and> \<not> is_abs (bc_workspace_dir cfg))
         \<or> (bc_require_root cfg \<and> be_euid env \<noteq> 0) then (None, locks, disk)
      else case acquire_state_lock (be_lock env) (bc_state_dir cfg) locks of
        (None, locks) \<Rightarrow> (None, locks, disk)
      | (Some (p, l), locks) \<Rightarrow>
        if \<not> boot_checks env cfg then (None, close_lock l locks, disk)
        else case be_entries env of None \<Rightarrow> (None, close_lock l locks, disk)
        | Some entries \<Rightarrow>
          (case load (be_supervisor env) (be_read env) (be_out env) (be_now env) entries (disk p) of
             (Inl _, m) \<Rightarrow> (None, close_lock l locks, disk(p := disk_state m))
           | (Inr _, m) \<Rightarrow> (Some (p, l, m), locks, disk(p := disk_state m))))"

text \<open>
  The program \<open>supervisor\<close>: the default of its socket, \<open>Listen\<close>, and its exit status. The last
  two arguments say whether the socket could be opened and restricted, and how \<open>Serve\<close> ended.
\<close>

definition socket_path :: "string \<Rightarrow> string \<Rightarrow> string" where
  "socket_path state_dir socket = (if socket = [] then state_dir @ ''/supervisor.sock'' else socket)"

definition listen :: "string \<Rightarrow> string \<Rightarrow> bool \<Rightarrow> bool" where
  "listen state_dir socket opened = (path_dir socket = state_dir \<and> opened)"

definition supervisor_main ::
  "bool \<Rightarrow> boot_env \<Rightarrow> string \<Rightarrow> string \<Rightarrow> string set \<Rightarrow> (string \<Rightarrow> disk) \<Rightarrow> bool \<Rightarrow> bool \<Rightarrow> int" where
  "supervisor_main linux env state_dir socket locks disk opened served =
     (if \<not> linux then 1
      else case fst (new_manager env \<lparr>bc_state_dir = state_dir, bc_workspace_dir = [], bc_require_root = True\<rparr> locks disk) of
        None \<Rightarrow> 1
      | Some _ \<Rightarrow> if \<not> listen state_dir (socket_path state_dir socket) opened then 1 else if served then 0 else 1)"

text \<open>The default socket is refused for a state directory that is written with a slash at its end.\<close>

lemma default_socket_unclean: "\<not> listen ''/run/s/'' (socket_path ''/run/s/'' []) opened"
proof -
  have "path_dir (socket_path ''/run/s/'' []) \<noteq> ''/run/s/''" by code_simp
  then show ?thesis by (simp add: listen_def)
qed

section \<open>Several supervisors\<close>

text \<open>
  Processes on one machine: the locks held, the disk of every state directory, and the
  manager of every process that has one. \<open>real\<close> resolves a clean absolute path to the
  directory it names: the disks belong to directories, the locks to paths.
\<close>

record host =
  ho_locks :: "string set"
  ho_disk :: "string \<Rightarrow> disk"
  ho_managers :: "nat \<rightharpoonup> string \<times> string \<times> manager"

inductive host_step :: "(string \<Rightarrow> string) \<Rightarrow> host \<Rightarrow> host \<Rightarrow> bool" for real where
  hs_boot: "ho_managers s pid = None \<Longrightarrow> new_manager env cfg (ho_locks s) (\<lambda>p. ho_disk s (real p)) = (r, locks, disk) \<Longrightarrow>
    t = s\<lparr>ho_locks := locks, ho_managers := (ho_managers s)(pid := r),
      ho_disk := (\<lambda>d. case lk_abs (be_lock env) (bc_state_dir cfg) of
         Some p \<Rightarrow> if d = real p then disk p else ho_disk s d | None \<Rightarrow> ho_disk s d)\<rparr> \<Longrightarrow> host_step real s t"
| hs_work: "ho_managers s pid = Some (p, l, m) \<Longrightarrow>
    host_step real s (s\<lparr>ho_managers := (ho_managers s)(pid \<mapsto> (p, l, m')), ho_disk := (ho_disk s)(real p := disk_state m')\<rparr>)"
| hs_exit: "ho_managers s pid = Some (p, l, m) \<Longrightarrow>
    host_step real s (s\<lparr>ho_managers := (ho_managers s)(pid := None), ho_locks := close_lock l (ho_locks s)\<rparr>)"

inductive_cases host_stepE: "host_step real s t"

definition host_init :: "host \<Rightarrow> bool" where
  "host_init s \<longleftrightarrow> ho_locks s = {} \<and> ho_managers s = Map.empty"

definition host_inv :: "(string \<Rightarrow> string) \<Rightarrow> host \<Rightarrow> bool" where
  "host_inv real s \<longleftrightarrow>
     (\<forall>pid p l m. ho_managers s pid = Some (p, l, m) \<longrightarrow> l = lock_path p \<and> l \<in> ho_locks s \<and> ho_disk s (real p) = disk_state m)
     \<and> (\<forall>pid pid' p p' l m m'. ho_managers s pid = Some (p, l, m) \<and> ho_managers s pid' = Some (p', l, m') \<longrightarrow> pid = pid')"

text \<open>Paths of one directory have one lock: no directory is reached through links under two names.\<close>

definition one_name :: "(string \<Rightarrow> string) \<Rightarrow> bool" where
  "one_name real \<longleftrightarrow> (\<forall>p q. real p = real q \<longrightarrow> lock_path p = lock_path q)"

lemma new_manager_outcome:
  assumes "new_manager env cfg locks disk = (r, locks', disk')"
  shows "r = None \<and> locks' = locks \<and> disk' = disk \<or>
    (\<exists>p. lk_abs (be_lock env) (bc_state_dir cfg) = Some p \<and> lock_path p \<notin> locks \<and> (\<forall>q. q \<noteq> p \<longrightarrow> disk' q = disk q)
       \<and> (r = None \<and> locks' = locks \<or> (\<exists>m. r = Some (p, lock_path p, m) \<and> locks' = insert (lock_path p) locks \<and> disk' p = disk_state m)))"
proof -
  have free: "l \<notin> locks \<Longrightarrow> close_lock l (insert l locks) = locks" for l by (auto simp: close_lock_def)
  show ?thesis
    using assms by (auto simp: new_manager_def acquire_state_lock_def free split: if_split_asm option.split_asm prod.split_asm sum.split_asm)
qed

lemma host_invD:
  assumes "host_inv real s"
  shows "ho_managers s i = Some (q, l, n) \<Longrightarrow> lock_path q = l" "ho_managers s i = Some (q, l, n) \<Longrightarrow> l \<in> ho_locks s"
    "ho_managers s i = Some (q, l, n) \<Longrightarrow> ho_disk s (real q) = disk_state n"
    "ho_managers s i = Some (q, l, n) \<Longrightarrow> ho_managers s j = Some (q', l, n') \<Longrightarrow> i = j"
  using assms unfolding host_inv_def by blast+

lemma host_invI:
  assumes "\<And>i q l n. ho_managers s i = Some (q, l, n) \<Longrightarrow> lock_path q = l \<and> l \<in> ho_locks s \<and> ho_disk s (real q) = disk_state n"
    and "\<And>i j q q' l n n'. ho_managers s i = Some (q, l, n) \<Longrightarrow> ho_managers s j = Some (q', l, n') \<Longrightarrow> i = j"
  shows "host_inv real s"
  using assms unfolding host_inv_def by blast

lemma other_name: "one_name real \<Longrightarrow> lock_path q \<noteq> lock_path p \<Longrightarrow> real q \<noteq> real p"
  unfolding one_name_def by metis

lemma host_inv_boot:
  assumes one: "one_name real" and inv: "host_inv real s" and pid: "ho_managers s pid = None"
    and boot: "new_manager env cfg (ho_locks s) (\<lambda>p. ho_disk s (real p)) = (r, locks, disk)"
    and t: "t = s\<lparr>ho_locks := locks, ho_managers := (ho_managers s)(pid := r),
      ho_disk := (\<lambda>d. case lk_abs (be_lock env) (bc_state_dir cfg) of
         Some p \<Rightarrow> if d = real p then disk p else ho_disk s d | None \<Rightarrow> ho_disk s d)\<rparr>"
  shows "host_inv real t"
  using new_manager_outcome [OF boot]
proof (elim disjE exE conjE)
  assume same: "r = None" "locks = ho_locks s" "disk = (\<lambda>p. ho_disk s (real p))"
  then have "ho_disk t = ho_disk s" by (auto simp: t fun_eq_iff split: option.split)
  moreover have "ho_managers t = ho_managers s" "ho_locks t = ho_locks s" using pid same by (simp_all add: t fun_upd_idem)
  ultimately show ?thesis using inv by (simp add: host_inv_def)
next
  fix p
  assume abs: "lk_abs (be_lock env) (bc_state_dir cfg) = Some p" and free: "lock_path p \<notin> ho_locks s"
    and res: "r = None" "locks = ho_locks s"
  have sel: "ho_managers t = ho_managers s" "ho_locks t = ho_locks s" using pid res by (simp_all add: t fun_upd_idem)
  have disk: "ho_disk t (real q) = ho_disk s (real q)" if "ho_managers s i = Some (q, l, n)" for i q l n
  proof -
    have "lock_path q \<noteq> lock_path p" using host_invD(1,2) [OF inv that] free by auto
    then show ?thesis using other_name [OF one] abs by (simp add: t)
  qed
  show ?thesis
  proof (rule host_invI; unfold sel)
    fix i q l n assume i: "ho_managers s i = Some (q, l, n)"
    show "lock_path q = l \<and> l \<in> ho_locks s \<and> ho_disk t (real q) = disk_state n"
      using disk [OF i] host_invD(1-3) [OF inv i] by simp
  next
    fix i j q q' l n n' assume "ho_managers s i = Some (q, l, n)" "ho_managers s j = Some (q', l, n')"
    then show "i = j" by (rule host_invD(4) [OF inv])
  qed
next
  fix p m
  assume abs: "lk_abs (be_lock env) (bc_state_dir cfg) = Some p" and free: "lock_path p \<notin> ho_locks s"
    and res: "r = Some (p, lock_path p, m)" "locks = insert (lock_path p) (ho_locks s)" "disk p = disk_state m"
  have sel: "ho_managers t = (ho_managers s)(pid \<mapsto> (p, lock_path p, m))" "ho_locks t = insert (lock_path p) (ho_locks s)"
      "ho_disk t (real p) = disk_state m" using res abs by (simp_all add: t)
  have other: "lock_path q \<noteq> lock_path p \<and> ho_disk t (real q) = ho_disk s (real q)" if "ho_managers s i = Some (q, l, n)" for i q l n
  proof -
    have "lock_path q \<noteq> lock_path p" using host_invD(1,2) [OF inv that] free by auto
    then show ?thesis using other_name [OF one] abs by (simp add: t)
  qed
  show ?thesis
  proof (rule host_invI; unfold sel)
    fix i q l n assume "((ho_managers s)(pid \<mapsto> (p, lock_path p, m))) i = Some (q, l, n)"
    note i = this
    show "lock_path q = l \<and> l \<in> insert (lock_path p) (ho_locks s) \<and> ho_disk t (real q) = disk_state n"
    proof (cases "i = pid")
      case True
      from i True have "q = p" "l = lock_path p" "n = m" by auto
      then show ?thesis by (simp add: sel(3))
    next
      case False
      then have old: "ho_managers s i = Some (q, l, n)" using i by simp
      show ?thesis using other [OF old] host_invD(1-3) [OF inv old] by simp
    qed
  next
    fix i j q q' l n n'
    assume "((ho_managers s)(pid \<mapsto> (p, lock_path p, m))) i = Some (q, l, n)" "((ho_managers s)(pid \<mapsto> (p, lock_path p, m))) j = Some (q', l, n')"
    moreover have "l \<noteq> lock_path p" if "ho_managers s i = Some (q, l, n)" for i q n using other [OF that] host_invD(1) [OF inv that] by simp
    ultimately show "i = j" using host_invD(4) [OF inv, of i q l n j q' n'] by (cases "i = pid"; cases "j = pid") simp_all
  qed
qed

lemma host_inv_step: "one_name real \<Longrightarrow> host_inv real s \<Longrightarrow> host_step real s t \<Longrightarrow> host_inv real t"
proof (erule host_stepE)
  fix pid p l m m'
  assume one: "one_name real" and inv: "host_inv real s" and pid: "ho_managers s pid = Some (p, l, m)"
    and t: "t = s\<lparr>ho_managers := (ho_managers s)(pid \<mapsto> (p, l, m')), ho_disk := (ho_disk s)(real p := disk_state m')\<rparr>"
  have sel: "ho_managers t = (ho_managers s)(pid \<mapsto> (p, l, m'))" "ho_locks t = ho_locks s" by (simp_all add: t)
  have other: "ho_disk t (real q) = ho_disk s (real q)" if "ho_managers s i = Some (q, k, n)" "i \<noteq> pid" for i q k n
  proof -
    have "k \<noteq> l" using host_invD(4) [OF inv that(1)] pid that(2) by blast
    then have "lock_path q \<noteq> lock_path p" using host_invD(1) [OF inv that(1)] host_invD(1) [OF inv pid] by simp
    then show ?thesis using other_name [OF one] by (simp add: t)
  qed
  show "host_inv real t"
  proof (rule host_invI; unfold sel)
    fix i q k n assume i: "((ho_managers s)(pid \<mapsto> (p, l, m'))) i = Some (q, k, n)"
    show "lock_path q = k \<and> k \<in> ho_locks s \<and> ho_disk t (real q) = disk_state n"
    proof (cases "i = pid")
      case True
      then show ?thesis using i host_invD(1,2) [OF inv pid] by (auto simp: t)
    next
      case False
      then have "ho_managers s i = Some (q, k, n)" using i by simp
      then show ?thesis using other [OF _ False] host_invD(1-3) [OF inv] by metis
    qed
  next
    fix i j q q' k n n'
    assume "((ho_managers s)(pid \<mapsto> (p, l, m'))) i = Some (q, k, n)" "((ho_managers s)(pid \<mapsto> (p, l, m'))) j = Some (q', k, n')"
    then show "i = j" using pid by (auto split: if_split_asm dest: host_invD(4) [OF inv])
  qed
next
  fix pid p l m
  assume inv: "host_inv real s" and pid: "ho_managers s pid = Some (p, l, m)"
    and t: "t = s\<lparr>ho_managers := (ho_managers s)(pid := None), ho_locks := close_lock l (ho_locks s)\<rparr>"
  have old: "ho_managers s i = Some (q, k, n) \<and> i \<noteq> pid" if "ho_managers t i = Some (q, k, n)" for i q k n
    using that by (auto simp: t split: if_split_asm)
  show "host_inv real t"
  proof (rule host_invI)
    fix i q k n assume "ho_managers t i = Some (q, k, n)"
    note i = old [OF this]
    then have "k \<noteq> l" using host_invD(4) [OF inv] pid by blast
    then show "lock_path q = k \<and> k \<in> ho_locks t \<and> ho_disk t (real q) = disk_state n"
      using host_invD(1-3) [OF inv i [THEN conjunct1]] by (simp add: t close_lock_def)
  next
    fix i j q q' k n n' assume "ho_managers t i = Some (q, k, n)" "ho_managers t j = Some (q', k, n')"
    then show "i = j" using old host_invD(4) [OF inv] by blast
  qed
qed (rule host_inv_boot)

lemma host_inv_init: "host_init s \<Longrightarrow> host_inv real s"
  by (simp add: host_init_def host_inv_def)

interpretation hosts: transition_system host_init "host_step real" "\<lambda>s. one_name real \<longrightarrow> host_inv real s" for real
  by unfold_locales (blast intro: host_inv_init host_inv_step)+

text \<open>
  C23. A state directory has one supervisor: in every history of processes that start, work,
  stop and die, as long as no directory is reached under two names, at most one process has
  a manager for a directory, and what that manager takes to be on its disk is on the disk: no
  other process, not even one whose start fails, has written there.
\<close>

theorem state_ownership:
  assumes "host_init s0" and "(host_step real)\<^sup>*\<^sup>* s0 s" and "one_name real" and "ho_managers s pid = Some (p, l, m)"
  shows "ho_disk s (real p) = disk_state m \<and> (\<forall>pid' p' l' m'. ho_managers s pid' = Some (p', l', m') \<and> real p' = real p \<longrightarrow> pid' = pid)"
proof -
  have inv: "host_inv real s" using hosts.reachable_inv [OF assms(1,2)] assms(3) by blast
  have "pid' = pid" if "ho_managers s pid' = Some (p', l', m')" "real p' = real p" for pid' p' l' m'
  proof -
    have "lock_path p' = lock_path p" using assms(3) that(2) unfolding one_name_def by blast
    then have "l' = l" using host_invD(1) [OF inv that(1)] host_invD(1) [OF inv assms(4)] by simp
    then show ?thesis using host_invD(4) [OF inv, of pid' p' l m' pid p m] that(1) assms(4) by blast
  qed
  then show ?thesis using host_invD(3) [OF inv assms(4)] by blast
qed

section \<open>Sample starts\<close>

definition sample_boot :: boot_env where
  "sample_boot = \<lparr>be_euid = 0, be_lock = \<lparr>lk_abs = Some, lk_open = True, lk_chmod = True, lk_mkdir = True\<rparr>,
     be_chmod_state = True, be_mkdir_commands = True, be_chmod_commands = True, be_state_uid = Some 0, be_commands_uid = Some 0,
     be_eval = Some, be_entries = Some [], be_read = \<lparr>can_read = (\<lambda>_. True), can_truncate = True\<rparr>, be_out = Synced, be_now = 1,
     be_supervisor = sup_env\<rparr>"

definition boot_at :: "string \<Rightarrow> boot_config" where
  "boot_at dir = \<lparr>bc_state_dir = dir, bc_workspace_dir = [], bc_require_root = True\<rparr>"

lemma boot_effect:
  assumes "dir = ''/run/a'' \<or> dir = ''/run/b''" and "lock_path dir \<notin> locks"
  shows "new_manager sample_boot (boot_at dir) locks disk
    = (Some (dir, lock_path dir, fresh_manager (disk dir)), insert (lock_path dir) locks, disk(dir := disk dir))"
proof -
  have "boot_checks sample_boot (boot_at dir)"
    using assms(1) by (auto simp: boot_checks_def ensure_root_owned_def sample_boot_def boot_at_def path_contains_def)
  then show ?thesis
    using assms by (auto simp: new_manager_def boot_at_def sample_boot_def acquire_state_lock_def load_def fresh_manager_def)
qed

lemma host_boot:
  assumes "dir = ''/run/a'' \<or> dir = ''/run/b''" and "lock_path dir \<notin> ho_locks s" and "ho_managers s pid = None"
  shows "\<exists>t. host_step real s t \<and> ho_managers t = (ho_managers s)(pid \<mapsto> (dir, lock_path dir, fresh_manager (ho_disk s (real dir))))
    \<and> ho_locks t = insert (lock_path dir) (ho_locks s)"
  using hs_boot [OF assms(3) boot_effect [OF assms(1,2)] refl, of real] by fastforce

definition bare_host :: host where
  "bare_host = \<lparr>ho_locks = {}, ho_disk = (\<lambda>_. empty_disk), ho_managers = Map.empty\<rparr>"

lemma state_ownership_witness:
  "\<exists>s p l m. (host_step id)\<^sup>*\<^sup>* bare_host s \<and> ho_managers s 1 = Some (p, l, m) \<and> ho_disk s p = disk_state m"
proof -
  obtain t where t: "host_step id bare_host t"
      "ho_managers t = (ho_managers bare_host)(1 \<mapsto> (''/run/a'', lock_path ''/run/a'', fresh_manager (ho_disk bare_host (id ''/run/a''))))"
    using host_boot [of "''/run/a''" bare_host 1 id] by (auto simp: bare_host_def)
  have m: "ho_managers t 1 = Some (''/run/a'', lock_path ''/run/a'', fresh_manager (ho_disk bare_host (id ''/run/a'')))" by (simp add: t(2))
  have run: "(host_step id)\<^sup>*\<^sup>* bare_host t" using t(1) by blast
  have init: "host_init bare_host" by (simp add: host_init_def bare_host_def)
  have "one_name id" by (simp add: one_name_def)
  from state_ownership [OF init run this m] have "ho_disk t ''/run/a'' = disk_state (fresh_manager (ho_disk bare_host (id ''/run/a'')))" by simp
  then show ?thesis using run m by blast
qed

text \<open>
  Without that proviso the lock does not protect: two paths of one directory that differ in
  their last element, one a link to the other, have different locks, and two supervisors run
  on the same state.
\<close>

theorem linked_state_shared:
  "\<exists>real s p q l k m n. (host_step real)\<^sup>*\<^sup>* bare_host s \<and> real p = real q
     \<and> ho_managers s 1 = Some (p, l, m) \<and> ho_managers s 2 = Some (q, k, n)"
proof -
  let ?real = "\<lambda>_ :: string. ''/run/a''"
  obtain t where t: "host_step ?real bare_host t"
      "ho_managers t = (ho_managers bare_host)(1 \<mapsto> (''/run/a'', lock_path ''/run/a'', fresh_manager (ho_disk bare_host ''/run/a'')))"
      "ho_locks t = insert (lock_path ''/run/a'') (ho_locks bare_host)"
    using host_boot [of "''/run/a''" bare_host 1 ?real] by (auto simp: bare_host_def)
  have "lock_path ''/run/b'' \<noteq> lock_path ''/run/a''" by code_simp
  then have "lock_path ''/run/b'' \<notin> ho_locks t" by (simp add: t(3) bare_host_def)
  moreover have "ho_managers t 2 = None" by (simp add: t(2) bare_host_def)
  ultimately obtain u where u: "host_step ?real t u"
      "ho_managers u = (ho_managers t)(2 \<mapsto> (''/run/b'', lock_path ''/run/b'', fresh_manager (ho_disk t ''/run/a'')))"
    using host_boot [of "''/run/b''" t 2 ?real] by auto
  have "(host_step ?real)\<^sup>*\<^sup>* bare_host u" using t(1) u(1) by (meson rtranclp.rtrancl_refl rtranclp.rtrancl_into_rtrancl)
  moreover have "ho_managers u 1 = Some (''/run/a'', lock_path ''/run/a'', fresh_manager (ho_disk bare_host ''/run/a''))"
    "ho_managers u 2 = Some (''/run/b'', lock_path ''/run/b'', fresh_manager (ho_disk t ''/run/a''))"
    by (simp_all add: u(2) t(2))
  ultimately show ?thesis by blast
qed

end
