(* ===== verification/Supervisor_Child.thy ===== *)
theory Supervisor_Child
  imports Supervisor_Boot
begin

text \<open>
  The launch of a child on Linux (\<open>process_linux.go\<close>): the supervisor starts its own binary
  as a trampoline in a new process group under the child's identity; the trampoline gives up
  what privileges are left and then becomes the command.
\<close>

section \<open>Starting the trampoline\<close>

definition child_marker :: string where "child_marker = ''__asp_supervisor_child_v1__''"

record child_command =
  cc_path :: string
  cc_args :: "string list"
  cc_new_group :: bool
  cc_credential :: "(int \<times> int) option"

definition configure_child :: "string \<Rightarrow> string list \<Rightarrow> int \<Rightarrow> int \<Rightarrow> child_command" where
  "configure_child target args uid gid =
     \<lparr>cc_path = ''/proc/self/exe'', cc_args = [''/proc/self/exe'', child_marker, target] @ tl args, cc_new_group = True,
      cc_credential = (if uid \<ge> 0 \<and> gid \<ge> 0 then Some (uid, gid) else None)\<rparr>"

section \<open>The process\<close>

text \<open>Capability sets are sets of numbers; \<open>ps_held\<close> are the effective, permitted and inheritable ones.\<close>

record process =
  ps_uid :: int
  ps_gid :: int
  ps_groups :: "int list"
  ps_held :: "nat set"
  ps_ambient :: "nat set"
  ps_no_new_privs :: bool

text \<open>What \<open>os/exec\<close> does with the credential before the trampoline runs.\<close>

definition take_credential :: "(int \<times> int) option \<Rightarrow> process \<Rightarrow> process" where
  "take_credential c p = (case c of None \<Rightarrow> p | Some (uid, gid) \<Rightarrow> p\<lparr>ps_uid := uid, ps_gid := gid, ps_groups := []\<rparr>)"

record child_syscalls =
  cy_capset :: bool
  cy_ambient :: bool
  cy_no_new_privs :: bool
  cy_exec :: bool

definition clear_child_security :: "child_syscalls \<Rightarrow> process \<Rightarrow> process option" where
  "clear_child_security sys p =
     (if \<not> cy_capset sys then None
      else if \<not> cy_ambient sys then None
      else if \<not> cy_no_new_privs sys then None
      else Some (p\<lparr>ps_held := {}, ps_ambient := {}, ps_no_new_privs := True\<rparr>))"

datatype child_outcome = Executes string "string list" process | Exits int | Continues

definition trampoline :: "child_syscalls \<Rightarrow> string list \<Rightarrow> process \<Rightarrow> child_outcome" where
  "trampoline sys args p =
     (if length args \<ge> 3 \<and> args ! 1 = child_marker then
        (case clear_child_security sys p of None \<Rightarrow> Exits 126
         | Some q \<Rightarrow> if cy_exec sys then Executes (args ! 2) (drop 2 args) q else Exits 127)
      else Continues)"

section \<open>Process groups\<close>

definition containment_started :: "int \<Rightarrow> int option" where
  "containment_started pid = (if pid \<le> 0 then None else Some pid)"

text \<open>The process identifier that \<open>kill\<close> gets, \<open>None\<close> when nothing is signalled.\<close>

definition containment_signal :: "int option \<Rightarrow> int option" where
  "containment_signal pgid = (case pgid of None \<Rightarrow> None | Some g \<Rightarrow> if g \<le> 0 then None else Some (- g))"

text \<open>
  A command runs without privileges or not at all: whatever system calls fail, a child that
  comes to execute something executes the program of the command with its arguments, with no
  capability in any set, with \<open>no_new_privs\<close> and, when an identity is configured, under
  exactly that user and group and in no other group. The name of the program that the command
  asked for is replaced by the path it was found under.
\<close>

theorem child_confined:
  assumes "trampoline sys (cc_args (configure_child target args uid gid))
      (take_credential (cc_credential (configure_child target args uid gid)) p) = Executes path av q"
  shows "path = target \<and> av = target # tl args \<and> ps_held q = {} \<and> ps_ambient q = {} \<and> ps_no_new_privs q
    \<and> (0 \<le> uid \<and> 0 \<le> gid \<longrightarrow> ps_uid q = uid \<and> ps_gid q = gid \<and> ps_groups q = [])"
  using assms
  by (auto simp: trampoline_def configure_child_def clear_child_security_def take_credential_def
      split: if_split_asm option.split_asm)

text \<open>A command cannot pose as the trampoline: the marker is read by the binary of the supervisor only.\<close>

lemma trampoline_only_marked: "length args < 3 \<or> args ! 1 \<noteq> child_marker \<Longrightarrow> trampoline sys args p = Continues"
  by (auto simp: trampoline_def)

text \<open>A signal goes to the whole group of a started child, never to the supervisor's own group.\<close>

lemma signal_group: "containment_signal (containment_started pid) = (if 0 < pid then Some (- pid) else None)"
  by (simp add: containment_signal_def containment_started_def)

end
