(* ===== verification/Control_Plane.thy ===== *)
theory Control_Plane
  imports Kube_Sweep Http_Props
begin

text \<open>
  The process of the control plane (\<open>internal/app/app.go\<close>, \<open>cmd/control-plane\<close>): its
  configuration from the environment, the construction of the backend, and \<open>Run\<close> with its
  recovery, sweeps, requests and shutdown.
\<close>

section \<open>Configuration\<close>

record control_config =
  cf_address :: string
  cf_kubeconfig :: string
  cf_kube_context :: string
  cf_namespace :: string
  cf_metadata_secret :: string
  cf_consumer_secrets :: "(string \<times> string) list"
  cf_pools :: "(string \<times> pool) list"
  cf_default_ttl :: int
  cf_max_ttl :: int
  cf_ready_timeout :: int
  cf_poll_interval :: int
  cf_sweep_interval :: int
  cf_max_transfers :: int
  cf_max_per_lease :: int
  cf_transfer_timeout :: int

text \<open>
  The environment, with \<open>time.ParseDuration\<close> and the decoding of the two JSON objects; a decoded
  map is the list of its entries, empty for a JSON \<open>null\<close>.
\<close>

record config_env =
  ce_getenv :: "string \<Rightarrow> string"
  ce_duration :: "string \<Rightarrow> int option"
  ce_secrets :: "string \<Rightarrow> (string \<times> string) list option"
  ce_pools :: "string \<Rightarrow> (string \<times> pool) list option"

definition env_or :: "config_env \<Rightarrow> string \<Rightarrow> string \<Rightarrow> string" where
  "env_or env name fallback = (if ce_getenv env name \<noteq> [] then ce_getenv env name else fallback)"

definition decode_map :: "(string \<Rightarrow> (string \<times> 'a) list option) \<Rightarrow> string \<Rightarrow> (string \<times> 'a) list option" where
  "decode_map decode raw =
     (if raw = [] then None
      else case decode raw of None \<Rightarrow> None | Some m \<Rightarrow> if m = [] then None else Some m)"

definition positive_int :: "config_env \<Rightarrow> string \<Rightarrow> int \<Rightarrow> int option" where
  "positive_int env name fallback =
     (let raw = ce_getenv env name in
      if raw = [] then Some fallback
      else case parse_int64 raw of None \<Rightarrow> None | Some n \<Rightarrow> if n \<le> 0 then None else Some n)"

definition positive_duration :: "config_env \<Rightarrow> string \<Rightarrow> int \<Rightarrow> int option" where
  "positive_duration env name fallback =
     (let raw = ce_getenv env name in
      if raw = [] then Some fallback
      else case ce_duration env raw of None \<Rightarrow> None | Some d \<Rightarrow> if d \<le> 0 then None else Some d)"

definition load_config :: "config_env \<Rightarrow> control_config option" where
  "load_config env =
     (let get = ce_getenv env in
      if blank (get ''SANDBOX_K8S_NAMESPACE'') then None
      else if get ''SANDBOX_METADATA_SECRET'' = [] then None
      else Option.bind (decode_map (ce_secrets env) (get ''SANDBOX_CONSUMER_SECRETS'')) (\<lambda>secrets.
        Option.bind (decode_map (ce_pools env) (get ''SANDBOX_K8S_POOLS'')) (\<lambda>pools.
        Option.bind (positive_int env ''SANDBOX_DEFAULT_TTL_SECONDS'' 900) (\<lambda>default_ttl.
        Option.bind (positive_int env ''SANDBOX_MAX_TTL_SECONDS'' 3600) (\<lambda>max_ttl.
        Option.bind (positive_duration env ''SANDBOX_K8S_READY_TIMEOUT'' (2 * minute)) (\<lambda>ready.
        Option.bind (positive_duration env ''SANDBOX_K8S_POLL_INTERVAL'' (500 * millisecond)) (\<lambda>poll.
        Option.bind (positive_duration env ''SANDBOX_SWEEP_INTERVAL'' (30 * second)) (\<lambda>sweep.
        Option.bind (positive_int env ''SANDBOX_FILE_TRANSFER_MAX_CONCURRENT'' 8) (\<lambda>concurrent.
        Option.bind (positive_int env ''SANDBOX_FILE_TRANSFER_MAX_PER_LEASE'' 2) (\<lambda>per_lease.
        if per_lease > concurrent then None
        else Option.bind (positive_duration env ''SANDBOX_FILE_TRANSFER_TIMEOUT'' (2 * minute)) (\<lambda>timeout.
        Some \<lparr>cf_address = env_or env ''SANDBOX_ADDRESS'' ''127.0.0.1:8787'', cf_kubeconfig = get ''SANDBOX_KUBECONFIG'',
          cf_kube_context = get ''SANDBOX_K8S_CONTEXT'', cf_namespace = get ''SANDBOX_K8S_NAMESPACE'',
          cf_metadata_secret = get ''SANDBOX_METADATA_SECRET'', cf_consumer_secrets = secrets, cf_pools = pools,
          cf_default_ttl = default_ttl, cf_max_ttl = max_ttl, cf_ready_timeout = ready, cf_poll_interval = poll,
          cf_sweep_interval = sweep, cf_max_transfers = concurrent, cf_max_per_lease = per_lease,
          cf_transfer_timeout = timeout\<rparr>)))))))))))"

section \<open>Construction\<close>

definition backend_options :: "control_config \<Rightarrow> options" where
  "backend_options cfg =
     \<lparr>op_namespace = cf_namespace cfg, op_metadata_secret = cf_metadata_secret cfg, op_pools = cf_pools cfg,
      op_default_ttl = cf_default_ttl cfg, op_max_ttl = cf_max_ttl cfg, op_ready_timeout = cf_ready_timeout cfg,
      op_poll_interval = cf_poll_interval cfg, op_max_transfers = cf_max_transfers cfg,
      op_max_transfers_per_lease = cf_max_per_lease cfg, op_transfer_timeout = cf_transfer_timeout cfg, op_clients = True\<rparr>"

text \<open>
  The parts a backend is made of: the functions of its identity and its cursors, the API
  server, the runner of commands, the format of times; \<open>None\<close> when the Kubernetes configuration
  or one of its clients cannot be made.
\<close>

record 'k cluster_access =
  ca_hmac :: "bytes \<Rightarrow> bytes \<Rightarrow> bytes"
  ca_json :: "string list \<Rightarrow> bytes"
  ca_gcm :: "bytes \<Rightarrow> aead option"
  ca_marshal :: "list_cursor_payload \<Rightarrow> bytes"
  ca_unmarshal :: "bytes \<Rightarrow> list_cursor_payload option"
  ca_kube :: "'k kube"
  ca_runner :: runner
  ca_times :: time_format

record 'k control_plane =
  cp_backend :: "'k backend"
  cp_transfers :: transfer_manager
  cp_secrets :: "string \<rightharpoonup> string"
  cp_sweep_interval :: int
  cp_address :: string

definition new_control_plane :: "'k cluster_access option \<Rightarrow> control_config \<Rightarrow> 'k control_plane option" where
  "new_control_plane access cfg =
     (case access of None \<Rightarrow> None
      | Some a \<Rightarrow>
        (case new_backend (ca_hmac a) (ca_json a) (ca_gcm a) (ca_marshal a) (ca_unmarshal a) (ca_kube a) (ca_runner a) (ca_times a)
            (backend_options cfg) of
           Inl _ \<Rightarrow> None
         | Inr (B, tm) \<Rightarrow> Some \<lparr>cp_backend = B, cp_transfers = tm, cp_secrets = map_of (cf_consumer_secrets cfg),
             cp_sweep_interval = cf_sweep_interval cfg, cp_address = cf_address cfg\<rparr>))"

section \<open>Run\<close>

text \<open>
  What the loop meets: a request, a tick, the end of the context (whether the HTTP server shuts
  down in time, and whether the transfers end while \<open>Close\<close> waits), the end of the HTTP server
  (whether because it was closed).
\<close>

datatype run_event =
    Served http_env request_inputs http_request
  | Tick "nat \<Rightarrow> time" "nat \<Rightarrow> bool"
  | Interrupted bool bool
  | Serve_ended bool

datatype process_end = Still_running | Run_ok | Run_failed

definition with_secrets :: "'k control_plane \<Rightarrow> http_env \<Rightarrow> http_env" where
  "with_secrets cp env = env\<lparr>he_tokens := (he_tokens env)\<lparr>te_secrets := cp_secrets cp\<rparr>\<rparr>"

fun run_loop :: "'k control_plane \<Rightarrow> run_event list \<Rightarrow> 'k bstate \<Rightarrow> process_end \<times> 'k bstate" where
  "run_loop cp [] s = (Still_running, s)"
| "run_loop cp (Served env inp rq # evs) s =
     run_loop cp evs (snd (serve_http (kube_api (cp_backend cp) inp) (with_secrets cp env) rq s))"
| "run_loop cp (Tick clock waited # evs) s = run_loop cp evs (snd (sweep_expired (cp_backend cp) clock waited s))"
| "run_loop cp (Interrupted shut waited # evs) s =
     (if \<not> shut then (Run_failed, s)
      else case close_backend waited s of (Inl _, s) \<Rightarrow> (Run_failed, s) | (Inr _, s) \<Rightarrow> (Run_ok, s))"
| "run_loop cp (Serve_ended closed # evs) s = (if closed then Run_ok else Run_failed, s)"

record start_inputs =
  si_recover_clock :: "nat \<Rightarrow> time"
  si_clock :: "nat \<Rightarrow> time"
  si_waited :: "nat \<Rightarrow> bool"
  si_listens :: bool

definition run_control_plane :: "'k control_plane \<Rightarrow> start_inputs \<Rightarrow> run_event list \<Rightarrow> 'k bstate \<Rightarrow> process_end \<times> 'k bstate" where
  "run_control_plane cp si evs s =
     (case recover (cp_backend cp) (si_recover_clock si) s of (Inl _, s) \<Rightarrow> (Run_failed, s)
      | (Inr _, s) \<Rightarrow>
        (case sweep_expired (cp_backend cp) (si_clock si) (si_waited si) s of (Inl _, s) \<Rightarrow> (Run_failed, s)
         | (Inr _, s) \<Rightarrow> if \<not> si_listens si then (Run_failed, s) else run_loop cp evs s))"

text \<open>The exit status of the program; it has none while it runs.\<close>

definition control_plane_main ::
  "config_env \<Rightarrow> 'k cluster_access option \<Rightarrow> start_inputs \<Rightarrow> run_event list \<Rightarrow> 'k \<Rightarrow> int option" where
  "control_plane_main env access si evs cluster =
     (case load_config env of None \<Rightarrow> Some 1
      | Some cfg \<Rightarrow> (case new_control_plane access cfg of None \<Rightarrow> Some 1
        | Some cp \<Rightarrow> (case fst (run_control_plane cp si evs \<lparr>bs_cluster = cluster, bs_transfers = cp_transfers cp\<rparr>) of
             Still_running \<Rightarrow> None | Run_ok \<Rightarrow> Some 0 | Run_failed \<Rightarrow> Some 1)))"

section \<open>What a configuration guarantees\<close>

lemma positive_int_pos: "positive_int env name n = Some v \<Longrightarrow> 0 < n \<longrightarrow> 0 < v"
  by (auto simp: positive_int_def Let_def split: if_split_asm option.split_asm)

lemma positive_duration_pos: "positive_duration env name n = Some v \<Longrightarrow> 0 < n \<longrightarrow> 0 < v"
  by (auto simp: positive_duration_def Let_def split: if_split_asm option.split_asm)

lemma decode_map_nonempty: "decode_map f raw = Some m \<Longrightarrow> m \<noteq> []"
  by (auto simp: decode_map_def split: if_split_asm option.split_asm)

definition config_ok :: "control_config \<Rightarrow> bool" where
  "config_ok cfg \<longleftrightarrow> \<not> blank (cf_namespace cfg) \<and> cf_metadata_secret cfg \<noteq> [] \<and> cf_consumer_secrets cfg \<noteq> [] \<and> cf_pools cfg \<noteq> []
     \<and> 0 < cf_default_ttl cfg \<and> 0 < cf_max_ttl cfg \<and> 0 < cf_ready_timeout cfg \<and> 0 < cf_poll_interval cfg \<and> 0 < cf_sweep_interval cfg
     \<and> 0 < cf_max_per_lease cfg \<and> cf_max_per_lease cfg \<le> cf_max_transfers cfg \<and> 0 < cf_transfer_timeout cfg"

lemma guard_eq_Some: "(if b then None else x) = Some y \<longleftrightarrow> \<not> b \<and> x = Some y"
  by simp

lemma load_config_ok:
  assumes "load_config env = Some cfg"
  shows "config_ok cfg"
  using assms
  apply (simp only: load_config_def Let_def guard_eq_Some bind_eq_Some_conv)
  apply (elim exE conjE)
  apply (drule decode_map_nonempty positive_int_pos positive_duration_pos)+
  apply (clarsimp simp: config_ok_def)
  done

definition bad_pool :: "string \<times> pool \<Rightarrow> bool" where
  "bad_pool np \<longleftrightarrow> blank (fst np) \<or> blank (pl_warm_pool (snd np)) \<or> blank (pl_runtime_class (snd np))"

lemma config_defaults: "config_ok cfg \<Longrightarrow> with_defaults (backend_options cfg) = backend_options cfg"
  by (simp add: with_defaults_def backend_options_def or_default_def config_ok_def)

lemma new_backend_config:
  assumes "config_ok cfg"
  shows "(new_control_plane (Some a) cfg = None
      \<longleftrightarrow> ca_gcm a (ca_hmac a (cf_metadata_secret cfg) list_cursor_domain) = None \<or> (\<exists>np \<in> set (cf_pools cfg). bad_pool np))
    \<and> (\<forall>cp. new_control_plane (Some a) cfg = Some cp \<longrightarrow>
        cp_transfers cp = new_transfer_manager (cf_max_transfers cfg) (cf_max_per_lease cfg) (cf_transfer_timeout cfg)
        \<and> bk_default_ttl (cp_backend cp) = cf_default_ttl cfg \<and> bk_max_ttl (cp_backend cp) = cf_max_ttl cfg
        \<and> cp_secrets cp = map_of (cf_consumer_secrets cfg))"
proof -
  let ?i = "\<lparr>mi_secret = cf_metadata_secret cfg, mi_hmac = ca_hmac a, mi_json = ca_json a\<rparr>"
  have ident: "new_metadata_identity (ca_hmac a) (ca_json a) (op_metadata_secret (backend_options cfg)) = Inr ?i"
    using assms by (simp add: new_metadata_identity_def backend_options_def config_ok_def)
  have pools: "validate_pools (op_pools (backend_options cfg))
      = (if \<exists>np \<in> set (cf_pools cfg). bad_pool np then Inl Internal else Inr (map_of (cf_pools cfg)))"
  proof -
    have "list_ex (\<lambda>(name, p). blank name \<or> blank (pl_warm_pool p) \<or> blank (pl_runtime_class p)) (cf_pools cfg)
        \<longleftrightarrow> (\<exists>np \<in> set (cf_pools cfg). bad_pool np)"
      by (simp add: list_ex_iff bad_pool_def case_prod_beta)
    then show ?thesis using assms by (simp add: validate_pools_def backend_options_def config_ok_def)
  qed
  have limits: "\<not> (cf_max_transfers cfg < 1 \<or> cf_max_per_lease cfg < 1 \<or> cf_transfer_timeout cfg \<le> 0)"
      "\<not> cf_max_per_lease cfg > cf_max_transfers cfg" "\<not> blank (cf_namespace cfg)"
    using assms by (auto simp: config_ok_def)
  have "new_backend (ca_hmac a) (ca_json a) (ca_gcm a) (ca_marshal a) (ca_unmarshal a) (ca_kube a) (ca_runner a) (ca_times a) (backend_options cfg)
      = (case new_list_cursor_codec (ca_gcm a) (ca_marshal a) (ca_unmarshal a) ?i of Inl e \<Rightarrow> Inl e
         | Inr codec \<Rightarrow> if \<exists>np \<in> set (cf_pools cfg). bad_pool np then Inl Internal
             else Inr (\<lparr>bk_identity = ?i, bk_pools = map_of (cf_pools cfg), bk_default_ttl = cf_default_ttl cfg, bk_max_ttl = cf_max_ttl cfg,
                 bk_kube = ca_kube a, bk_runner = ca_runner a, bk_codec = codec, bk_times = ca_times a\<rparr>,
               new_transfer_manager (cf_max_transfers cfg) (cf_max_per_lease cfg) (cf_transfer_timeout cfg)))"
    unfolding new_backend_def ident pools config_defaults [OF assms]
    using limits by (auto simp: Let_def backend_options_def split: sum.split)
  then show ?thesis
    by (auto simp: new_control_plane_def new_list_cursor_codec_def split: option.split)
qed


text \<open>An environment that sets what is required and one limit.\<close>

definition sample_environment :: config_env where
  "sample_environment = \<lparr>ce_getenv = (\<lambda>name.
       if name = ''SANDBOX_K8S_NAMESPACE'' then ''ns'' else if name = ''SANDBOX_METADATA_SECRET'' then ''k''
       else if name = ''SANDBOX_CONSUMER_SECRETS'' then ''secrets'' else if name = ''SANDBOX_K8S_POOLS'' then ''pools''
       else if name = ''SANDBOX_FILE_TRANSFER_MAX_CONCURRENT'' then ''3'' else []),
     ce_duration = (\<lambda>_. None), ce_secrets = (\<lambda>raw. if raw = ''secrets'' then Some [(''c'', ''secret'')] else None),
     ce_pools = (\<lambda>raw. if raw = ''pools'' then Some [(''p'', sample_pool)] else None)\<rparr>"

definition sample_config :: control_config where
  "sample_config = \<lparr>cf_address = ''127.0.0.1:8787'', cf_kubeconfig = [], cf_kube_context = [], cf_namespace = ''ns'',
     cf_metadata_secret = ''k'', cf_consumer_secrets = [(''c'', ''secret'')], cf_pools = [(''p'', sample_pool)],
     cf_default_ttl = 900, cf_max_ttl = 3600, cf_ready_timeout = 120000000000, cf_poll_interval = 500000000,
     cf_sweep_interval = 30000000000, cf_max_transfers = 3, cf_max_per_lease = 2, cf_transfer_timeout = 120000000000\<rparr>"

definition sample_access :: "store cluster_access" where
  "sample_access = \<lparr>ca_hmac = mi_hmac sample_identity, ca_json = mi_json sample_identity,
     ca_gcm = (\<lambda>_. Some (cc_aead sample_codec)), ca_marshal = cc_marshal sample_codec, ca_unmarshal = cc_unmarshal sample_codec,
     ca_kube = store_kube, ca_runner = sample_runner, ca_times = sample_times\<rparr>"

definition sample_plane :: "store control_plane" where
  "sample_plane = \<lparr>cp_backend = sample_backend, cp_transfers = new_transfer_manager 3 2 120000000000,
     cp_secrets = [''c'' \<mapsto> ''secret''], cp_sweep_interval = 30000000000, cp_address = ''127.0.0.1:8787''\<rparr>"

lemma sample_loaded: "load_config sample_environment = Some sample_config"
  by code_simp

lemma sample_made: "new_control_plane (Some sample_access) sample_config = Some sample_plane"
proof -
  have "validate_pools [(''p'', sample_pool)] = Inr [''p'' \<mapsto> sample_pool]"
  proof -
    have "\<not> list_ex (\<lambda>(name, p). blank name \<or> blank (pl_warm_pool p) \<or> blank (pl_runtime_class p)) [(''p'', sample_pool)]" by code_simp
    then show ?thesis by (simp add: validate_pools_def)
  qed
  moreover have "\<not> blank ''ns''" by code_simp
  ultimately show ?thesis
    by (simp add: new_control_plane_def new_backend_def sample_access_def backend_options_def with_defaults_def or_default_def
        sample_config_def sample_plane_def sample_backend_def new_metadata_identity_def sample_identity_def
        new_list_cursor_codec_def sample_codec_def Let_def)
qed


section \<open>Start and stop\<close>

lemma finish_closed [simp]: "tm_closed (finish i m) = tm_closed m"
  by (simp add: finish_def finish_close_def finish_uncount_def finish_remove_def finish_enter_def cancel_op_def update_op_def Let_def)

lemma finish_all_closed [simp]: "tm_closed (finish_all S m) = tm_closed m"
proof -
  have "tm_closed (fold finish is m) = tm_closed m" for "is" by (induction "is" arbitrary: m) simp_all
  then show ?thesis by (simp add: finish_all_def)
qed

lemma close_backend_closed: "close_backend waited s = (r, s') \<Longrightarrow> tm_closed (bs_transfers s')"
  by (auto simp: close_backend_def Let_def close_transfers_def cancel_all_def split: if_split_asm)

lemma run_loop_ok:
  "run_loop cp evs s = (Run_ok, s') \<Longrightarrow> Serve_ended True \<in> set evs \<or> (\<exists>w. Interrupted True w \<in> set evs) \<and> tm_closed (bs_transfers s')"
proof (induction cp evs s rule: run_loop.induct)
  case (4 cp shut waited evs s)
  obtain r s1 where c: "close_backend waited s = (r, s1)" by fastforce
  show ?case using 4 close_backend_closed [OF c] by (auto simp: c split: if_split_asm sum.split_asm)
qed (auto split: if_split_asm)

lemma recover_same:
  assumes "kube_laws (bk_kube B) view" and "recover B clock s = (Inr r, s1)"
  shows "same_state view s s1"
proof -
  obtain q s2 where c: "call internal (kb_list (bk_kube B) [(managed_label, ''true'')] 0 []) s = (q, s2)" by fastforce
  then obtain items nxt where q: "q = Inr (items, nxt)" "s2 = s1"
    using assms(2) by (cases q) (auto simp: recover_def list_active_leases_def)
  show ?thesis by (rule list_call(1) [OF assms(1) c [unfolded q]])
qed


definition sample_start :: start_inputs where
  "sample_start = \<lparr>si_recover_clock = (\<lambda>_. 2000), si_clock = (\<lambda>_. 2000), si_waited = (\<lambda>_. True), si_listens = True\<rparr>"

definition sample_life :: "process_end \<times> store bstate" where
  "sample_life = run_control_plane sample_plane sample_start [] \<lparr>bs_cluster = [], bs_transfers = cp_transfers sample_plane\<rparr>"

lemma sample_starts:
  "run_control_plane sample_plane sample_start evs \<lparr>bs_cluster = [], bs_transfers = m\<rparr>
    = run_loop sample_plane evs \<lparr>bs_cluster = [], bs_transfers = m\<rparr>"
  by (simp add: run_control_plane_def sample_plane_def sample_start_def recover_def list_active_leases_def sweep_expired_def
      call_def store_kube_def Let_def)


end
