(* ===== verification/Service_Runs.thy ===== *)
theory Service_Runs
  imports Control_Plane
begin

text \<open>
  Runs of the whole control plane: every operation of the backend, and so every request, tick
  and stop, changes the transfer manager only by the steps of its state machine; what holds in
  every reachable state of that machine therefore holds at every moment of the process.
\<close>

section \<open>A relation that every backend call keeps\<close>

locale api_frame =
  fixes api :: "'s lease_api" and rel :: "'s \<Rightarrow> 's \<Rightarrow> bool"
  assumes rel_refl: "rel s s" and rel_trans: "rel s t \<Longrightarrow> rel t u \<Longrightarrow> rel s u"
    and frame_acquire: "rel s (snd (api_acquire api scope aq s))" and frame_list: "rel s (snd (api_list api scope lrq s))"
    and frame_get: "rel s (snd (api_get api scope lid s))" and frame_exec: "rel s (snd (api_exec api scope lid xq s))"
    and frame_read: "rel s (snd (api_read api scope lid path enc s))"
    and frame_write: "rel s (snd (api_write api scope lid path content enc s))"
    and frame_release: "rel s (snd (api_release api scope lid s))" and frame_delete: "rel s (snd (api_delete api scope lid s))"
    and frame_open: "rel s (snd (api_open api scope lid path s))" and frame_upload: "rel s (snd (api_upload api scope lid rq body s))"
    and frame_close: "rel s (api_close_download api d s)"
begin

lemmas frames = rel_refl frame_acquire frame_list frame_get frame_exec frame_read frame_write frame_release frame_delete frame_upload

lemma respond_state: "snd (respond f r) = snd r"
  by (simp add: respond_def)

lemma frame_read_content: "rel s (snd (read_file_content api env rq scope lid s))"
proof (cases "required_file_path (hr_values rq)")
  case (Inr path)
  obtain r t where o: "api_open api scope lid path s = (r, t)" by fastforce
  then have "rel s t" using frame_open [of s scope lid path] by simp
  then show ?thesis by (cases r) (auto simp: read_file_content_def Inr o rel_refl Let_def intro: rel_trans frame_close)
qed (simp add: read_file_content_def rel_refl)

lemma frame_serve: "rel s (snd (serve_http api env rq s))"
proof -
  have "rel s (snd (write_file_content api env rq scope lid s))" for scope lid
    by (auto simp: write_file_content_def respond_state frames split: sum.split)
  moreover have "rel s (snd (serve_collection api env rq scope s))" for scope
    by (auto simp: serve_collection_def respond_state frames split: sum.split)
  ultimately show ?thesis
    by (auto simp: serve_http_def serve_lease_def respond_state frames frame_read_content split: sum.split option.split)
qed

end

section \<open>The backend and its transfer manager\<close>

definition transfers_run :: "'k bstate \<Rightarrow> 'k bstate \<Rightarrow> bool" where
  "transfers_run s s' \<longleftrightarrow> tm_step\<^sup>*\<^sup>* (bs_transfers s) (bs_transfers s')"

lemma runs_refl [simp]: "transfers_run s s"
  by (simp add: transfers_run_def)

lemma runs_trans: "transfers_run s t \<Longrightarrow> transfers_run t u \<Longrightarrow> transfers_run s u"
  by (simp add: transfers_run_def)

lemma runs_bind:
  assumes "transfers_run s (snd r)" and "\<And>v s1. transfers_run s1 (snd (f v s1))"
  shows "transfers_run s (snd (bind_st r f))"
  using assms runs_trans by (cases r; cases "fst r") (fastforce simp: bind_st_def)+

lemma runs_cluster [simp]: "transfers_run s (t\<lparr>bs_cluster := k\<rparr>) = transfers_run s t"
  by (simp add: transfers_run_def)

lemma runs_call [simp]: "transfers_run s (snd (call f op s))"
  by (simp add: call_def split: prod.split)

lemma runs_delete [simp]: "transfers_run s (snd (delete_claim B n s))"
  by (simp add: delete_claim_def split: prod.split)

lemma finish_all_run: "tm_step\<^sup>*\<^sup>* m (finish_all S m)"
proof -
  have "tm_step\<^sup>*\<^sup>* m (fold finish is m)" for "is"
    by (induction "is" arbitrary: m) (auto intro: rtranclp_trans [OF finish_run])
  then show ?thesis by (simp add: finish_all_def)
qed

lemma runs_stop [simp]: "transfers_run s (snd (stop_and_wait lid waited s))"
proof -
  obtain ops m where st: "stop_lease lid (bs_transfers s) = (ops, m)" by fastforce
  have "tm_step\<^sup>*\<^sup>* (bs_transfers s) m" using tm_stop [of "bs_transfers s" lid] by (simp add: st)
  then show ?thesis
    using finish_all_run [of m ops] by (auto simp: stop_and_wait_def st transfers_run_def)
qed

lemma runs_close [simp]: "transfers_run s (snd (close_backend waited s))"
  using tm_close [of "bs_transfers s"] finish_all_run [of "close_transfers (bs_transfers s)"]
  by (auto simp: close_backend_def Let_def transfers_run_def intro: converse_rtranclp_into_rtranclp)

lemma begin_run: "begin_transfer m now l expires = (r, m') \<Longrightarrow> tm_step\<^sup>*\<^sup>* m m'"
  using tm_begin [of m now l expires] by simp

lemma cancel_finish_run: "tm_step\<^sup>*\<^sup>* m m' \<Longrightarrow> tm_step\<^sup>*\<^sup>* m (finish i (cancel_op i m'))"
  by (blast intro: rtranclp_trans tm_cancel finish_run)

lemma open_download_run: "tm_step\<^sup>*\<^sup>* m (snd (open_download m now lid expires out ending late))"
proof -
  obtain r m1 where b: "begin_transfer m now lid expires = (r, m1)" by fastforce
  note run = begin_run [OF b]
  show ?thesis
    using run cancel_finish_run [OF run] by (auto simp: open_download_def b Let_def split: sum.split prod.split)
qed

lemma write_stream_run: "tm_step\<^sup>*\<^sup>* m (snd (write_stream m now lid expires rq run))"
proof -
  obtain r m1 where b: "begin_transfer m now lid expires = (r, m1)" by fastforce
  show ?thesis
    using rtranclp_trans [OF begin_run [OF b] finish_run] begin_run [OF b] by (simp add: write_stream_def b split: sum.split)
qed

lemma runs_stop_delete [simp]: "transfers_run s (snd (stop_lease_and_delete B lid waited s))"
  by (simp add: stop_lease_and_delete_def runs_bind)

lemma runs_require [simp]: "transfers_run s (snd (require_claim B scope lid s))"
  by (simp add: require_claim_def runs_bind)

lemma runs_target [simp]: "transfers_run s (snd (target_for_claim B c p s))"
  by (auto simp: target_for_claim_def Let_def split: option.split intro!: runs_bind)

lemma runs_active [simp]: "transfers_run s (snd (require_active_target B now waited scope lid s))"
  by (auto simp: require_active_target_def split: sum.split intro!: runs_bind)

lemma runs_prepare [simp]: "transfers_run s (snd (prepare_transfer B now waited scope lid path s))"
  by (auto simp: prepare_transfer_def split: sum.split intro!: runs_bind)

lemma runs_find_loop [simp]: "transfers_run s (snd (find_loop B clock i cs s))"
proof (induction cs arbitrary: i s)
  case (Cons c cs)
  have "transfers_run s (snd (find_loop B clock j cs (snd (delete_claim B n s))))" for j n
    by (rule runs_trans [OF runs_delete Cons])
  with Cons show ?case by (simp split: sum.split)
qed simp

lemma runs_find [simp]: "transfers_run s (snd (find_by_idempotency_key B clock scope key s))"
  by (auto simp: find_by_idempotency_key_def intro!: runs_bind)

lemma runs_wait [simp]: "transfers_run s (snd (wait_for_ready B name polls s))"
proof (induction polls arbitrary: s)
  case (Cons p ps)
  have "transfers_run s (snd (wait_for_ready B name ps (s\<lparr>bs_cluster := k\<rparr>)))" for k
    using Cons [of "s\<lparr>bs_cluster := k\<rparr>"] by (simp add: transfers_run_def)
  then show ?case by (simp add: wait_for_ready.simps [of B name "p # ps"] Let_def split: sum.split prod.split)
qed (simp add: wait_for_ready.simps [of B name "[]"] Let_def split: sum.split prod.split)

lemma runs_verify [simp]: "transfers_run s (snd (verify_runtime B c pl s))"
  by (auto simp: verify_runtime_def Let_def intro!: runs_bind)

lemma runs_acquire [simp]: "transfers_run s (snd (acquire_lease B clock now random polls scope rq s))"
proof -
  have undo: "transfers_run s (snd (delete_claim B n t))" if "transfers_run s t" for s t :: "'a bstate" and n
    by (rule runs_trans [OF that runs_delete])
  have made: "transfers_run s (snd (case wait_for_ready B n polls s of
          (Inl e, s) \<Rightarrow> (Inl e, snd (delete_claim B n s))
        | (Inr c, s) \<Rightarrow> (case verify_runtime B c pl s of
              (Inl e, s) \<Rightarrow> (Inl e, snd (delete_claim B n s)) | (Inr _, s) \<Rightarrow> (Inr (r, False), s))))"
    for s n pl and r :: lease_record
  proof -
    obtain q t where w: "wait_for_ready B n polls s = (q, t)" by fastforce
    have st: "transfers_run s t" using runs_wait [of s B n polls] by (simp add: w)
    have v: "transfers_run s (snd (verify_runtime B c pl t))" for c by (rule runs_trans [OF st runs_verify])
    show ?thesis using undo [OF st] undo [OF v] v by (auto simp: w split: sum.split prod.split) (metis snd_conv)+
  qed
  show ?thesis
    by (auto simp: acquire_lease_def Let_def made split: option.split intro!: runs_bind)
qed

lemma runs_list [simp]: "transfers_run s (snd (list_leases B now nonce scope rq s))"
  by (auto simp: list_leases_def Let_def split: sum.split prod.split intro!: runs_bind)

lemma runs_operations [simp]:
  "transfers_run s (snd (get_lease B now waited scope lid s))" "transfers_run s (snd (release_lease B now waited scope lid s))"
  "transfers_run s (snd (delete_lease B waited scope lid s))" "transfers_run s (snd (exec_lease B now waited scope lid xq s))"
  "transfers_run s (snd (read_lease_file B now waited scope lid path enc s))"
  "transfers_run s (snd (write_lease_file B now waited scope lid path content enc s))"
  by (auto simp: get_lease_def release_lease_def delete_lease_def exec_lease_def read_lease_file_def write_lease_file_def Let_def
      split: sum.split intro!: runs_bind)

lemma runs_set: "tm_step\<^sup>*\<^sup>* (bs_transfers s) m \<Longrightarrow> transfers_run s (s\<lparr>bs_transfers := m\<rparr>)"
  by (simp add: transfers_run_def)

lemma runs_open [simp]: "transfers_run s (snd (open_file B now started waited helper late scope lid path s))"
proof -
  have "transfers_run s (s\<lparr>bs_transfers := snd (open_download (bs_transfers s) started lid expires out ending late)\<rparr>)"
    for s :: "'a bstate" and expires out ending by (rule runs_set [OF open_download_run])
  then show ?thesis by (auto simp: open_file_def split: prod.split intro!: runs_bind) (metis snd_conv)
qed

lemma runs_upload [simp]: "transfers_run s (snd (write_file_stream B now started waited helper scope lid rq s))"
proof -
  have "transfers_run s (s\<lparr>bs_transfers := snd (write_stream (bs_transfers s) started lid expires rq run)\<rparr>)"
    for s :: "'a bstate" and expires run by (rule runs_set [OF write_stream_run])
  then show ?thesis by (auto simp: write_file_stream_def split: prod.split intro!: runs_bind) (metis snd_conv)
qed

interpretation kube_frame: api_frame "kube_api B inp" transfers_run for B inp
  by unfold_locales
    (auto simp: kube_api_def kube_upload_def download_close_def intro: runs_trans runs_bind runs_set cancel_finish_run)

lemma runs_sweep_loop: "transfers_run s (snd (sweep_loop B clock waited i cs s))"
  by (induction cs arbitrary: i s) (auto split: sum.split intro!: runs_bind)

lemma runs_sweep [simp]: "transfers_run s (snd (sweep_expired B clock waited s))"
  by (auto simp: sweep_expired_def runs_sweep_loop intro!: runs_bind)

lemma runs_recover [simp]: "transfers_run s (snd (recover B clock s))"
  by (auto simp: recover_def list_active_leases_def intro!: runs_bind)

section \<open>The process\<close>

lemma runs_loop: "transfers_run s (snd (run_loop cp evs s))"
proof (induction cp evs s rule: run_loop.induct)
  case (4 cp shut waited evs s)
  obtain r t where c: "close_backend waited s = (r, t)" by fastforce
  have "transfers_run s t" using runs_close [of s waited] by (simp add: c)
  then show ?case by (simp add: c split: sum.split)
qed (auto intro: runs_trans [OF kube_frame.frame_serve] runs_trans [OF runs_sweep])

lemma runs_process: "transfers_run s (snd (run_control_plane cp si evs s))"
proof -
  obtain q sa where r: "recover (cp_backend cp) (si_recover_clock si) s = (q, sa)" by fastforce
  obtain p sb where sw: "sweep_expired (cp_backend cp) (si_clock si) (si_waited si) sa = (p, sb)" by fastforce
  have a: "transfers_run s sa" using runs_recover [of s "cp_backend cp" "si_recover_clock si"] by (simp add: r)
  have b: "transfers_run s sb" using runs_trans [OF a] runs_sweep [of sa] sw by (metis snd_conv)
  show ?thesis using a b runs_trans [OF b runs_loop] by (simp add: run_control_plane_def r sw split: sum.split)
qed



end
