(* ===== verification/Gate_Report.thy ===== *)
theory Gate_Report
  imports Go_Strings
begin

text \<open>
  The platform gate's pure parts: the report and its verdict (\<open>internal/gate/report.go\<close>), and
  from \<open>cmd/platform-gate/main.go\<close> the text helpers and the search for the control group
  directory of the container in \<open>mountinfo\<close>.
\<close>

section \<open>The report\<close>

datatype check_status = Check_passed | Check_blocked | Check_failed | Check_other string

text \<open>The values of a check's details, which Go holds in a map from strings to anything.\<close>

datatype gate_value = Gv_bool bool | Gv_int int | Gv_text string | Gv_texts "string list" | Gv_map "(string \<times> gate_value) list"

type_synonym detail = "(string \<times> gate_value) list"

record gate_check =
  gc_name :: string
  gc_status :: check_status
  gc_detail :: detail

record gate_report =
  gr_schema :: int
  gr_test :: string
  gr_status :: check_status
  gr_checks :: "gate_check list"
  gr_containment :: detail
  gr_environment :: detail

definition classify_containment :: "bool \<Rightarrow> bool \<Rightarrow> check_status" where
  "classify_containment process_group alternative = (if process_group \<or> alternative then Check_passed else Check_blocked)"

fun summarize_loop :: "check_status \<Rightarrow> gate_check list \<Rightarrow> check_status" where
  "summarize_loop st [] = st"
| "summarize_loop st (c # cs) =
     (case gc_status c of Check_passed \<Rightarrow> summarize_loop st cs
      | Check_blocked \<Rightarrow> summarize_loop Check_blocked cs
      | Check_failed \<Rightarrow> Check_failed
      | Check_other _ \<Rightarrow> Check_failed)"

definition summarize :: "gate_check list \<Rightarrow> check_status" where
  "summarize cs = (if cs = [] then Check_failed else summarize_loop Check_passed cs)"

definition good_status :: "check_status \<Rightarrow> bool" where
  "good_status st \<longleftrightarrow> st = Check_passed \<or> st = Check_blocked"

lemma summarize_loop_cases:
  "summarize_loop st cs =
     (if \<exists>c \<in> set cs. \<not> good_status (gc_status c) then Check_failed
      else if \<exists>c \<in> set cs. gc_status c = Check_blocked then Check_blocked else st)"
  by (induction cs arbitrary: st) (auto simp: good_status_def split: check_status.split)

text \<open>The verdict does not depend on the order of the checks: a failure outweighs a block, a block a pass.\<close>

lemma summarize_verdict:
  "summarize cs =
     (if cs = [] \<or> (\<exists>c \<in> set cs. \<not> good_status (gc_status c)) then Check_failed
      else if \<exists>c \<in> set cs. gc_status c = Check_blocked then Check_blocked else Check_passed)"
  by (simp add: summarize_def summarize_loop_cases)

section \<open>Text\<close>

definition gate_truncate :: "string \<Rightarrow> nat \<Rightarrow> string" where
  "gate_truncate v limit = (let t = trim_space v in if length t \<le> limit then t else take limit t @ ''...'')"

text \<open>\<open>strings.Fields\<close>: the words between characters that are spaces.\<close>

definition space_at :: "string \<Rightarrow> bool" where
  "space_at s = list_ex (has_prefix s) space_encodings"

fun take_word :: "string \<Rightarrow> string \<times> string" where
  "take_word [] = ([], [])"
| "take_word (c # s) = (if space_at (c # s) then ([], c # s) else case take_word s of (w, r) \<Rightarrow> (c # w, r))"

lemma take_word_length: "length (snd (take_word s)) \<le> length s"
  by (induction s) (auto split: prod.split)

lemma take_word_shrinks: "s \<noteq> [] \<Longrightarrow> \<not> space_at s \<Longrightarrow> length (snd (take_word s)) < length s"
  using take_word_length [of "tl s"] by (cases s) (auto split: prod.split)

lemma trim_left_no_space: "\<not> space_at (trim_left s)"
proof (induction s rule: trim_left.induct)
  case (1 s)
  show ?case
  proof (cases "find (has_prefix s) space_encodings")
    case None
    then have "trim_left s = s" by (subst trim_left.simps) simp
    then show ?thesis using None by (simp add: space_at_def find_None_iff list_ex_iff)
  next
    case (Some w)
    then show ?thesis using 1 [OF Some] by (simp add: trim_left.simps [of s])
  qed
qed

function go_fields :: "string \<Rightarrow> string list" where
  "go_fields s = (let t = trim_left s in if t = [] then [] else case take_word t of (w, r) \<Rightarrow> w # go_fields r)"
  by pat_completeness auto
termination
proof (relation "measure length")
  fix s t w r
  assume t: "t = trim_left s" "t \<noteq> []" and p: "(w, r) = take_word t"
  have "length r < length t"
    using take_word_shrinks [OF t(2)] trim_left_no_space [of s] t(1) p by (metis snd_conv)
  also have "length t \<le> length s" using trim_left_length [of s] by (simp add: t(1))
  finally show "(r, s) \<in> measure length" by simp
qed simp

declare go_fields.simps [simp del]

definition line_feed :: char where "line_feed = CHR 0x0A"

definition count_nonempty_lines :: "string \<Rightarrow> nat" where
  "count_nonempty_lines v = length (filter (\<lambda>l. l \<noteq> []) (split_on line_feed (trim_space v)))"

section \<open>Control groups\<close>

definition gate_path_contains :: "string \<Rightarrow> string \<Rightarrow> bool" where
  "gate_path_contains parent child =
     (let p = path_clean parent; c = path_clean child in
      if p = ''/'' then is_abs c else c = p \<or> has_prefix c (p @ ''/''))"

text \<open>\<open>strings.SplitN\<close> with a limit of two: what is before and after the first separator.\<close>

fun split_first :: "string \<Rightarrow> string \<Rightarrow> (string \<times> string) option" where
  "split_first sep [] = None"
| "split_first sep (c # s) =
     (if has_prefix (c # s) sep then Some ([], drop (length sep) (c # s))
      else map_option (\<lambda>(a, b). (c # a, b)) (split_first sep s))"

fun self_cgroup_path :: "string list \<Rightarrow> string" where
  "self_cgroup_path [] = []"
| "self_cgroup_path (l # ls) =
     (if has_prefix l ''0::'' then path_clean (trim_prefix l ''0::'') else self_cgroup_path ls)"

fun find_mount :: "string \<Rightarrow> string list \<Rightarrow> string option" where
  "find_mount cgroup [] = None"
| "find_mount cgroup (l # ls) =
     (case split_first '' - '' l of None \<Rightarrow> find_mount cgroup ls
      | Some (a, b) \<Rightarrow>
        if \<not> has_prefix b ''cgroup2 '' then find_mount cgroup ls
        else let fields = go_fields a in
          if length fields < 5 then find_mount cgroup ls
          else let root = path_clean (fields ! 3); point = path_clean (fields ! 4) in
            if cgroup \<noteq> root \<and> \<not> gate_path_contains root cgroup then find_mount cgroup ls
            else Some (path_join [point, trim_prefix (trim_prefix cgroup root) ''/'']))"

text \<open>The directory, the path of the group within its hierarchy, and whether there is a directory.\<close>

definition resolve_cgroup :: "string \<Rightarrow> string \<Rightarrow> string \<times> string \<times> bool" where
  "resolve_cgroup mountinfo self =
     (let path = self_cgroup_path (split_on line_feed (trim_space self)) in
      if path = [] \<or> \<not> is_abs path then ([], path, False)
      else case find_mount path (split_on line_feed mountinfo) of
          None \<Rightarrow> ([], path, False) | Some dir \<Rightarrow> (dir, path, True))"

section \<open>What the search finds\<close>

lemma split_on_join_prefix:
  "rs \<noteq> [] \<Longrightarrow> \<forall>p \<in> set rs. CHR ''/'' \<notin> set p \<Longrightarrow> split_on CHR ''/'' (join_with ''/'' rs @ CHR ''/'' # r) = rs @ split_on CHR ''/'' r"
proof (induction rs)
  case (Cons p rs)
  then show ?case by (cases "rs = []") (simp_all add: split_on_append_sep join_with_Cons)
qed simp

lemma normal_no_slash: "list_all normal_elem es \<Longrightarrow> p \<in> set es \<Longrightarrow> CHR ''/'' \<notin> set p"
  by (auto simp: list_all_iff normal_elem_def)

lemma join_normal_not_slash: "list_all normal_elem es \<Longrightarrow> \<not> has_prefix (join_with ''/'' es) ''/''"
proof (cases es)
  case (Cons p ps)
  assume "list_all normal_elem es"
  then have "p \<noteq> []" "hd p \<noteq> CHR ''/''" by (auto simp: Cons normal_elem_def) (metis hd_in_set)
  then show ?thesis by (cases p; cases ps) (auto simp: Cons join_with_Cons)
qed simp

lemma trim_no_prefix: "\<not> has_prefix s p \<Longrightarrow> trim_prefix s p = s"
  by (simp add: trim_prefix_def)

lemma path_below:
  assumes xs: "list_all normal_elem xs" and rs: "list_all normal_elem rs"
    and below: "''/'' @ join_with ''/'' xs = ''/'' @ join_with ''/'' rs
      \<or> gate_path_contains (''/'' @ join_with ''/'' rs) (''/'' @ join_with ''/'' xs)"
  shows "\<exists>es. xs = rs @ es \<and> trim_prefix (trim_prefix (''/'' @ join_with ''/'' xs) (''/'' @ join_with ''/'' rs)) ''/'' = join_with ''/'' es"
proof (cases "rs = []")
  case True
  have "trim_prefix (''/'' @ join_with ''/'' xs) ''/'' = join_with ''/'' xs" by (rule trim_prefix_append)
  then show ?thesis using True trim_no_prefix [OF join_normal_not_slash [OF xs]] by simp
next
  case False
  have same: "xs = rs" if "join_with ''/'' xs = join_with ''/'' rs"
  proof -
    have "join_with ''/'' rs \<noteq> []" using rs False by (cases rs; cases "tl rs") (auto simp: normal_elem_def join_with_Cons)
    then have "xs \<noteq> []" using that by auto
    with that False show ?thesis using split_join [of xs "CHR ''/''"] split_join [of rs "CHR ''/''"] xs rs
      by (metis normal_no_slash)
  qed
  have cl: "path_clean (''/'' @ join_with ''/'' rs) = ''/'' @ join_with ''/'' rs" "path_clean (''/'' @ join_with ''/'' xs) = ''/'' @ join_with ''/'' xs"
    by (rule path_clean_normal [OF rs], rule path_clean_normal [OF xs])
  have nonroot: "''/'' @ join_with ''/'' rs \<noteq> ''/''" using rs False by (cases rs; cases "tl rs") (auto simp: normal_elem_def join_with_Cons)
  consider "join_with ''/'' xs = join_with ''/'' rs" | r where "join_with ''/'' xs = join_with ''/'' rs @ ''/'' @ r"
    using below nonroot by (auto simp: gate_path_contains_def cl [simplified] Let_def has_prefix_iff)
  then show ?thesis
  proof cases
    case 1
    then show ?thesis
      using same [OF 1] trim_prefix_append [of "''/'' @ join_with ''/'' rs" "[]"] by (intro exI [of _ "[]"]) (simp add: trim_no_prefix)
  next
    case (2 r)
    have "xs \<noteq> []" using 2 by auto
    then have "xs = split_on CHR ''/'' (join_with ''/'' xs)" using split_join [of xs "CHR ''/''"] xs normal_no_slash by metis
    also have "\<dots> = rs @ split_on CHR ''/'' r" using split_on_join_prefix [of rs r] False rs normal_no_slash by (simp add: 2)
    finally have "xs = rs @ split_on CHR ''/'' r" .
    moreover have "trim_prefix (''/'' @ join_with ''/'' xs) (''/'' @ join_with ''/'' rs) = ''/'' @ r"
      using trim_prefix_append [of "''/'' @ join_with ''/'' rs" "''/'' @ r"] by (simp add: 2)
    ultimately show ?thesis using join_split [of "CHR ''/''" r] trim_prefix_append [of "''/''" r] by (intro exI [of _ "split_on CHR ''/'' r"]) simp
  qed
qed

lemma clean_elems_plain:
  "\<forall>p \<in> set stack. p \<noteq> [] \<and> CHR ''/'' \<notin> set p \<Longrightarrow> \<forall>p \<in> set ps. CHR ''/'' \<notin> set p \<Longrightarrow>
   \<forall>p \<in> set (foldl (clean_step r) stack ps). p \<noteq> [] \<and> CHR ''/'' \<notin> set p"
proof (induction ps arbitrary: stack)
  case (Cons p ps)
  have "\<forall>q \<in> set (clean_step r stack p). q \<noteq> [] \<and> CHR ''/'' \<notin> set q"
  proof
    fix q assume "q \<in> set (clean_step r stack p)"
    moreover have "set (clean_step r stack p) \<subseteq> set stack \<union> (if p = [] then {} else {p})"
      by (cases stack) (simp_all add: subset_insertI2)
    ultimately have "q \<in> set stack \<or> q = p \<and> p \<noteq> []" by (auto split: if_split_asm simp del: clean_step.simps)
    then show "q \<noteq> [] \<and> CHR ''/'' \<notin> set q" using Cons.prems by auto
  qed
  from Cons.IH [OF this] Cons.prems(2) show ?case by (simp del: clean_step.simps)
qed simp

lemma path_clean_relative: "\<not> is_abs s \<Longrightarrow> \<not> is_abs (path_clean s) \<and> path_clean s \<noteq> []"
proof -
  assume s: "\<not> is_abs s"
  have "\<forall>p \<in> set (clean_elems False (split_on CHR ''/'' s)). p \<noteq> [] \<and> CHR ''/'' \<notin> set p"
    using clean_elems_plain [of "[]" "split_on CHR ''/'' s" False] split_on_no_sep [of _ "CHR ''/''" s] by (simp add: clean_elems_def)
  moreover have "\<not> is_abs (join_with ''/'' ps) \<and> join_with ''/'' ps \<noteq> []"
    if "ps \<noteq> []" "\<forall>p \<in> set ps. p \<noteq> [] \<and> CHR ''/'' \<notin> set p" for ps
  proof (cases ps)
    case (Cons q qs)
    then have "q \<noteq> []" "hd q \<noteq> CHR ''/''" using that(2) by (auto dest: hd_in_set)
    then show ?thesis by (cases q; cases qs) (auto simp: Cons is_abs_def join_with_Cons)
  qed (use that in simp)
  ultimately show ?thesis using s by (auto simp: path_clean_def Let_def is_abs_def)
qed

lemma path_below_abs:
  assumes "is_abs f" and "is_abs path" and path: "path = path_clean path" and below: "path = path_clean f \<or> gate_path_contains (path_clean f) path"
  shows "\<exists>rs es. list_all normal_elem (rs @ es) \<and> path_clean f = ''/'' @ join_with ''/'' rs \<and> path = ''/'' @ join_with ''/'' (rs @ es)
    \<and> trim_prefix (trim_prefix path (path_clean f)) ''/'' = join_with ''/'' es"
proof -
  obtain rs where rs: "path_clean f = ''/'' @ join_with ''/'' rs" "list_all normal_elem rs" using path_clean_abs [OF assms(1)] by blast
  obtain xs where xs: "path = ''/'' @ join_with ''/'' xs" "list_all normal_elem xs" using path_clean_abs [OF assms(2)] path by auto
  from path_below [OF xs(2) rs(2)] below obtain es where "xs = rs @ es"
      "trim_prefix (trim_prefix (''/'' @ join_with ''/'' xs) (''/'' @ join_with ''/'' rs)) ''/'' = join_with ''/'' es"
    unfolding rs(1) xs(1) by blast
  with rs xs show ?thesis by (intro exI [of _ rs] exI [of _ es]) simp
qed

lemma below_absolute: "gate_path_contains (path_clean f) path \<Longrightarrow> is_abs path \<Longrightarrow> path = path_clean path \<Longrightarrow> is_abs f"
proof (rule ccontr)
  assume c: "gate_path_contains (path_clean f) path" "is_abs path" "path = path_clean path" "\<not> is_abs f"
  have p: "\<not> is_abs (path_clean (path_clean f))" "path_clean (path_clean f) \<noteq> []"
    using path_clean_relative [of "path_clean f"] path_clean_relative [OF c(4)] by auto
  have "path = path_clean (path_clean f) \<or> has_prefix path (path_clean (path_clean f) @ ''/'')"
  proof -
    have "path_clean (path_clean f) \<noteq> ''/''" using p(1) by (auto simp: is_abs_def)
    then show ?thesis using c(1) c(3) [symmetric] by (simp add: gate_path_contains_def Let_def)
  qed
  then show False using c(2) p by (cases "path_clean (path_clean f)") (auto simp: is_abs_def has_prefix_iff)
qed

lemma self_cgroup_clean: "is_abs (self_cgroup_path ls) \<Longrightarrow> self_cgroup_path ls = path_clean (self_cgroup_path ls)"
proof (induction ls)
  case (Cons l ls)
  show ?case
  proof (cases "has_prefix l ''0::''")
    case True
    then have "is_abs (trim_prefix l ''0::'')" using Cons.prems path_clean_relative [of "trim_prefix l ''0::''"] by auto
    then show ?thesis using True path_clean_idem_abs by simp
  qed (use Cons in simp)
qed (simp add: is_abs_def)

text \<open>
  A directory that is found belongs to a control group mount of version two whose root is at or
  above the process's group, and is the mount point followed by the rest of the group's path.
\<close>

lemma find_mount_sound:
  assumes "is_abs path" and "path = path_clean path"
  shows "find_mount path ls = Some dir \<Longrightarrow> \<exists>l \<in> set ls. \<exists>a b rs es. split_first '' - '' l = Some (a, b) \<and> has_prefix b ''cgroup2 ''
    \<and> list_all normal_elem (rs @ es) \<and> path_clean (go_fields a ! 3) = ''/'' @ join_with ''/'' rs
    \<and> path = ''/'' @ join_with ''/'' (rs @ es) \<and> dir = path_join [path_clean (go_fields a ! 4), join_with ''/'' es]"
proof (induction ls)
  case (Cons l ls)
  show ?case
  proof (cases "find_mount path ls = Some dir")
    case True
    then show ?thesis using Cons.IH by (metis list.set_intros(2))
  next
    case False
    then obtain a b where l: "split_first '' - '' l = Some (a, b)" "has_prefix b ''cgroup2 ''"
      and below: "path = path_clean (go_fields a ! 3) \<or> gate_path_contains (path_clean (go_fields a ! 3)) path"
      and dir: "dir = path_join [path_clean (go_fields a ! 4), trim_prefix (trim_prefix path (path_clean (go_fields a ! 3))) ''/'']"
      using Cons.prems by (auto simp: Let_def split: option.splits prod.splits if_split_asm)
    have "is_abs (go_fields a ! 3)"
      using below below_absolute [of "go_fields a ! 3" path] assms path_clean_relative [of "go_fields a ! 3"] by auto
    from path_below_abs [OF this assms below] obtain rs es where
      "list_all normal_elem (rs @ es)" "path_clean (go_fields a ! 3) = ''/'' @ join_with ''/'' rs" "path = ''/'' @ join_with ''/'' (rs @ es)"
      "trim_prefix (trim_prefix path (path_clean (go_fields a ! 3))) ''/'' = join_with ''/'' es" by blast
    with l dir show ?thesis by (intro bexI [of _ l]) auto
  qed
qed simp

lemma resolve_cgroup_sound:
  assumes "resolve_cgroup mountinfo self = (dir, path, True)"
  shows "\<exists>l \<in> set (split_on line_feed mountinfo). \<exists>a b rs es. split_first '' - '' l = Some (a, b) \<and> has_prefix b ''cgroup2 ''
    \<and> list_all normal_elem (rs @ es) \<and> path_clean (go_fields a ! 3) = ''/'' @ join_with ''/'' rs
    \<and> path = ''/'' @ join_with ''/'' (rs @ es) \<and> dir = path_join [path_clean (go_fields a ! 4), join_with ''/'' es]"
proof -
  have p: "is_abs path" "path = self_cgroup_path (split_on line_feed (trim_space self))" "find_mount path (split_on line_feed mountinfo) = Some dir"
    using assms by (auto simp: resolve_cgroup_def Let_def split: if_split_asm option.splits)
  then show ?thesis using find_mount_sound [OF p(1) _ p(3)] self_cgroup_clean by metis
qed

end
