(* ===== verification/Platform_Gate.thy ===== *)
theory Platform_Gate
  imports Gate_Report Supervisor_Server
begin

text \<open>
  The platform gate (\<open>cmd/platform-gate/main.go\<close>): it drives a running supervisor through
  fresh invocations of the control client and observes processes and files, collects one check
  per promise, and reports a verdict in its exit status.
\<close>

section \<open>The world\<close>

text \<open>
  What the gate calls outside itself, over a state of the world: the control client and the
  decoding of its output, time, files, signals, a second supervisor, and its own binary as a
  capability probe.
\<close>

record gate_response = response +
  gs_version :: int
  gs_message :: string

datatype errno = EROFS | EPERM | EACCES | ESRCH | EINVAL | Other_errno string

datatype ctl_run = Ctl_failed string bytes | Ctl_output bytes

record file_info =
  fi_perm :: nat
  fi_size :: int

record second_run =
  sr_timed_out :: bool
  sr_failed :: bool
  sr_output :: bytes

record walk_entry =
  we_regular :: bool
  we_size :: int
  we_blocks :: "int option"

record 'w gate_world =
  gw_ctl :: "string \<Rightarrow> request \<Rightarrow> 'w \<Rightarrow> ctl_run \<times> 'w"
  gw_decode :: "bytes \<Rightarrow> string + gate_response"
  gw_now :: "'w \<Rightarrow> time"
  gw_sleep :: "int \<Rightarrow> 'w \<Rightarrow> 'w"
  gw_euid :: int
  gw_pid :: int
  gw_stat :: "string \<Rightarrow> 'w \<Rightarrow> string + file_info"
  gw_remove :: "string \<Rightarrow> 'w \<Rightarrow> errno option \<times> 'w"
  gw_mkdir :: "string \<Rightarrow> 'w \<Rightarrow> errno option \<times> 'w"
  gw_read :: "string \<Rightarrow> 'w \<Rightarrow> string + bytes"
  gw_walk :: "string \<Rightarrow> 'w \<Rightarrow> (string + walk_entry) list"
  gw_kill :: "int \<Rightarrow> int \<Rightarrow> 'w \<Rightarrow> errno option \<times> 'w"
  gw_second :: "string \<Rightarrow> string \<Rightarrow> 'w \<Rightarrow> second_run \<times> 'w"
  gw_probe :: "int \<Rightarrow> bool \<Rightarrow> 'w \<Rightarrow> (string \<times> bytes) option \<times> 'w"
  gw_strerror :: "errno \<Rightarrow> string"
  gw_platform :: "string \<times> string"
  gw_encodes :: bool

record gate_runner =
  gr_ctl :: string
  gr_supervisor :: string
  gr_state_dir :: string
  gr_results :: "gate_check list"
  gr_escaped :: "int list"

text \<open>
  How a step can stop: with an error and the detail returned beside it, or in a panic, when
  the command of a response is read and the response has none.
\<close>

datatype gate_stop = Failed detail string | Panicked

type_synonym ('w, 'a) gate_step = "'w \<Rightarrow> (gate_stop + 'a) \<times> 'w"

definition fails :: "string \<Rightarrow> ('w, 'a) gate_step" where
  "fails e w = (Inl (Failed [] e), w)"

section \<open>Calls of the supervisor\<close>

definition gate_call :: "'w gate_world \<Rightarrow> gate_runner \<Rightarrow> request \<Rightarrow> ('w, gate_response) gate_step" where
  "gate_call W r rq w =
     (case gw_ctl W (gr_ctl r) (rq\<lparr>rq_version := protocol_version\<rparr>) w of
        (Ctl_failed e out, w) \<Rightarrow> fails (''fresh ctl invocation: '' @ e @ '': '' @ gate_truncate out 256) w
      | (Ctl_output out, w) \<Rightarrow> (case gw_decode W out of Inl e \<Rightarrow> fails (''decode ctl response: '' @ e) w | Inr resp \<Rightarrow> (Inr resp, w)))"

definition gate_ok :: "'w gate_world \<Rightarrow> gate_runner \<Rightarrow> request \<Rightarrow> ('w, gate_response) gate_step" where
  "gate_ok W r rq w = bind_st (gate_call W r rq w) (\<lambda>resp w.
     if \<not> rs_ok resp then fails (''operation '' @ rq_operation rq @ '' failed with '' @ rs_code resp @ '': '' @ gs_message resp) w
     else (Inr resp, w))"

definition blank_request :: request where
  "blank_request = \<lparr>rq_version = 0, rq_operation = [], rq_request_id = [], rq_command_id = [], rq_argv = [], rq_cwd = [],
     rq_env = [], rq_after = 0, rq_data = [], rq_signal = [], rq_timeout_ms = 0\<rparr>"

definition operation :: "string \<Rightarrow> request" where
  "operation op = blank_request\<lparr>rq_operation := op\<rparr>"

definition on_command :: "string \<Rightarrow> string \<Rightarrow> request" where
  "on_command op i = (operation op)\<lparr>rq_command_id := i\<rparr>"

definition start_request :: "string \<Rightarrow> string list \<Rightarrow> request" where
  "start_request key av = (operation ''start'')\<lparr>rq_request_id := key, rq_argv := av, rq_cwd := ''/workspace''\<rparr>"

definition the_command :: "gate_response \<Rightarrow> ('w, command) gate_step" where
  "the_command resp w = (case rs_command resp of None \<Rightarrow> (Inl Panicked, w) | Some c \<Rightarrow> (Inr c, w))"

definition gate_start :: "'w gate_world \<Rightarrow> gate_runner \<Rightarrow> string \<Rightarrow> string list \<Rightarrow> ('w, gate_response) gate_step" where
  "gate_start W r key av = gate_ok W r (start_request key av)"

definition gate_wait :: "'w gate_world \<Rightarrow> gate_runner \<Rightarrow> string \<Rightarrow> ('w, gate_response) gate_step" where
  "gate_wait W r i = gate_ok W r ((on_command ''wait'' i)\<lparr>rq_timeout_ms := 60000\<rparr>)"

definition gate_connect :: "'w gate_world \<Rightarrow> gate_runner \<Rightarrow> string \<Rightarrow> nat \<Rightarrow> ('w, gate_response) gate_step" where
  "gate_connect W r i after = gate_ok W r ((on_command ''connect'' i)\<lparr>rq_after := after\<rparr>)"

definition gate_output :: "'w gate_world \<Rightarrow> gate_runner \<Rightarrow> string \<Rightarrow> ('w, bytes \<times> spool_event list) gate_step" where
  "gate_output W r i w = bind_st (gate_connect W r i 0 w) (\<lambda>resp w. (Inr (concat (map se_data (rs_events resp)), rs_events resp), w))"

definition gate_signal :: "'w gate_world \<Rightarrow> gate_runner \<Rightarrow> string \<Rightarrow> string \<Rightarrow> ('w, unit) gate_step" where
  "gate_signal W r i sig w = bind_st (gate_ok W r ((on_command ''signal'' i)\<lparr>rq_signal := sig\<rparr>) w) (\<lambda>_ w. (Inr (), w))"

text \<open>
  The two polling loops: at most ten seconds, twenty milliseconds between two attempts. The
  fuel is never used up before the deadline (\<open>poll_within_deadline\<close>).
\<close>

definition poll_fuel :: nat where "poll_fuel = 501"

fun poll :: "'w gate_world \<Rightarrow> nat \<Rightarrow> time \<Rightarrow> ('w \<Rightarrow> 'a option \<times> 'w) \<Rightarrow> 'w \<Rightarrow> 'a option \<times> 'w" where
  "poll W 0 deadline attempt w = (None, w)"
| "poll W (Suc n) deadline attempt w =
     (if \<not> gw_now W w < deadline then (None, w)
      else case attempt w of
          (Some v, w) \<Rightarrow> (Some v, w)
        | (None, w) \<Rightarrow> poll W n deadline attempt (gw_sleep W (20 * millisecond) w))"

definition reported_pid :: "gate_response \<Rightarrow> int option" where
  "reported_pid resp =
     (case rs_events resp of [] \<Rightarrow> None
      | e # _ \<Rightarrow> (case parse_int64 (trim_space (se_data e)) of None \<Rightarrow> None | Some p \<Rightarrow> if p > 0 then Some p else None))"

definition pid_attempt :: "'w gate_world \<Rightarrow> gate_runner \<Rightarrow> string \<Rightarrow> 'w \<Rightarrow> int option \<times> 'w" where
  "pid_attempt W r i w = (case gate_connect W r i 0 w of (Inl _, w) \<Rightarrow> (None, w) | (Inr resp, w) \<Rightarrow> (reported_pid resp, w))"

definition first_pid :: "'w gate_world \<Rightarrow> gate_runner \<Rightarrow> string \<Rightarrow> ('w, int) gate_step" where
  "first_pid W r i w =
     (case poll W poll_fuel (gw_now W w + 10 * second) (pid_attempt W r i) w of
        (Some pid, w) \<Rightarrow> (Inr pid, w)
      | (None, w) \<Rightarrow> fails ''command did not report a process identity'' w)"

definition gone_attempt :: "'w gate_world \<Rightarrow> int \<Rightarrow> 'w \<Rightarrow> unit option \<times> 'w" where
  "gone_attempt W pid w = (case gw_kill W pid 0 w of (e, w) \<Rightarrow> (if e = Some ESRCH then Some () else None, w))"

definition assert_gone :: "'w gate_world \<Rightarrow> int \<Rightarrow> ('w, unit) gate_step" where
  "assert_gone W pid w =
     (case poll W poll_fuel (gw_now W w + 10 * second) (gone_attempt W pid) w of
        (Some _, w) \<Rightarrow> (Inr (), w)
      | (None, w) \<Rightarrow> fails ''ordinary descendant remained after containment signal'' w)"

section \<open>The checks\<close>

definition check_health :: "'w gate_world \<Rightarrow> gate_runner \<Rightarrow> ('w, detail) gate_step" where
  "check_health W r w = bind_st (gate_ok W r (operation ''health'') w) (\<lambda>resp w.
     (Inr [(''protocolVersion'', Gv_int (gs_version resp)), (''freshCtl'', Gv_bool True)], w))"

text \<open>\<open>%04o\<close> of permission bits, which are below 512.\<close>

definition octal4 :: "nat \<Rightarrow> string" where
  "octal4 n = map (\<lambda>k. digit_char (n div 8 ^ k mod 8)) [3, 2, 1, 0]"

definition stat_of :: "'w gate_world \<Rightarrow> string \<Rightarrow> ('w, file_info) gate_step" where
  "stat_of W path w = (case gw_stat W path w of Inl e \<Rightarrow> fails e w | Inr fi \<Rightarrow> (Inr fi, w))"

definition check_root_and_state :: "'w gate_world \<Rightarrow> gate_runner \<Rightarrow> ('w, detail) gate_step" where
  "check_root_and_state W r w =
     (if gw_euid W \<noteq> 0 then fails (''gate must run as root, got euid '' @ itoa (gw_euid W)) w
      else bind_st (stat_of W (gr_state_dir r) w) (\<lambda>dir w.
        bind_st (stat_of W (path_join [gr_state_dir r, ''supervisor.sock'']) w) (\<lambda>sock w.
          if fi_perm dir \<noteq> 448 \<or> fi_perm sock \<noteq> 384
          then fails (''state/socket modes are '' @ octal4 (fi_perm dir) @ ''/'' @ octal4 (fi_perm sock) @ '', want 0700/0600'') w
          else (Inr [(''stateMode'', Gv_text ''0700''), (''socketMode'', Gv_text ''0600''), (''peer'', Gv_text ''root accepted'')], w))))"

definition check_singleton :: "'w gate_world \<Rightarrow> gate_runner \<Rightarrow> ('w, detail) gate_step" where
  "check_singleton W r w =
     (case gw_second W (gr_supervisor r) (gr_state_dir r) w of (run, w) \<Rightarrow>
        if sr_timed_out run then fails ''second supervisor did not reject singleton ownership promptly'' w
        else if \<not> sr_failed run \<or> \<not> contains_sub (sr_output run) ''another supervisor owns state directory''
        then (Inl (Failed [(''output'', Gv_text (gate_truncate (sr_output run) 128))] ''second supervisor did not report the held state lock''), w)
        else case gate_ok W r (operation ''health'') w of
            (Inl (Failed _ e), w) \<Rightarrow> fails (''original supervisor was disturbed: '' @ e) w
          | (Inl Panicked, w) \<Rightarrow> (Inl Panicked, w)
          | (Inr _, w) \<Rightarrow> (Inr [(''secondOwnerRejected'', Gv_bool True), (''originalOwnerHealthy'', Gv_bool True)], w))"

text \<open>Where the code answers any error of a step with an error of its own.\<close>

definition or_fails :: "string \<Rightarrow> (gate_stop + 'a) \<times> 'w \<Rightarrow> (gate_stop + 'a) \<times> 'w" where
  "or_fails e q = (case q of (Inl (Failed _ _), w) \<Rightarrow> fails e w | _ \<Rightarrow> q)"

definition check_child_security :: "'w gate_world \<Rightarrow> gate_runner \<Rightarrow> ('w, detail) gate_step" where
  "check_child_security W r w =
     bind_st (gate_start W r ''gate-child-security''
         [''/usr/local/bin/agent-sandbox-platform-gate'', ''child-security-probe'', gr_state_dir r] w) (\<lambda>started w.
     bind_st (the_command started w) (\<lambda>c w.
     bind_st (gate_wait W r (cm_id c) w) (\<lambda>waited w.
     bind_st (the_command waited w) (\<lambda>d w.
       if state d \<noteq> Exited \<or> exit_code d = None \<or> exit_code d \<noteq> Some 0 then fails ''security probe did not exit successfully'' w
       else bind_st (or_fails ''security probe output mismatch'' (gate_output W r (cm_id c) w)) (\<lambda>(out, _) w.
         if out \<noteq> ''secure'' then fails ''security probe output mismatch'' w
         else (Inr [(''uid'', Gv_int 10001), (''gid'', Gv_int 10001), (''capabilities'', Gv_text ''zero''),
                (''noNewPrivileges'', Gv_bool True), (''customerSocketAccess'', Gv_text ''denied'')], w))))))"

definition bool_text :: "bool \<Rightarrow> string" where
  "bool_text b = (if b then ''true'' else ''false'')"

fun probe_loop :: "'w gate_world \<Rightarrow> int \<Rightarrow> bool list \<Rightarrow> ('w, unit) gate_step" where
  "probe_loop W pid [] w = (Inr (), w)"
| "probe_loop W pid (include_kill # ks) w =
     (case gw_probe W pid include_kill w of
        (Some (e, out), w) \<Rightarrow>
          fails (''capability probe includeKill='' @ bool_text include_kill @ '': '' @ e @ '': '' @ gate_truncate out 128) w
      | (None, w) \<Rightarrow> probe_loop W pid ks w)"

definition check_kill_capability :: "'w gate_world \<Rightarrow> gate_runner \<Rightarrow> ('w, detail) gate_step" where
  "check_kill_capability W r w =
     bind_st (gate_start W r ''gate-capability-target'' [''/bin/sh'', ''-c'', ''echo $$; exec sleep 60''] w) (\<lambda>started w.
     bind_st (the_command started w) (\<lambda>c w.
     bind_st (first_pid W r (cm_id c) w) (\<lambda>pid w.
     bind_st (probe_loop W pid [False, True] w) (\<lambda>_ w.
     bind_st (gate_signal W r (cm_id c) ''KILL'' w) (\<lambda>_ w.
       (Inr [(''setuidSetgidOnly'', Gv_text ''EPERM''), (''withKill'', Gv_text ''authorized'')], snd (gate_wait W r (cm_id c) w)))))))"

definition idempotency_marker :: string where "idempotency_marker = ''/workspace/idempotency-marker''"

definition check_idempotency :: "'w gate_world \<Rightarrow> gate_runner \<Rightarrow> ('w, detail) gate_step" where
  "check_idempotency W r w =
     (let av = [''/bin/sh'', ''-c'', ''printf x >> /workspace/idempotency-marker''];
          conflicting = start_request ''gate-idempotency'' [''/bin/true'']
      in bind_st (gate_start W r ''gate-idempotency'' av (snd (gw_remove W idempotency_marker w))) (\<lambda>a w.
         bind_st (gate_start W r ''gate-idempotency'' av w) (\<lambda>b w.
         bind_st (the_command a w) (\<lambda>c w. bind_st (the_command b w) (\<lambda>d w.
           if cm_id c \<noteq> cm_id d then fails ''repeated normalized start returned a different command ID'' w
           else bind_st (or_fails ''different specification did not return IDEMPOTENCY_CONFLICT'' (gate_call W r conflicting w)) (\<lambda>conflict w.
             if rs_ok conflict \<or> rs_code conflict \<noteq> ''IDEMPOTENCY_CONFLICT''
             then fails ''different specification did not return IDEMPOTENCY_CONFLICT'' w
             else bind_st (gate_wait W r (cm_id c) w) (\<lambda>_ w.
               if gw_read W idempotency_marker w \<noteq> Inr ''x'' then fails ''idempotent start executed more or less than once'' w
               else bind_st (or_fails ''status did not return the stable command ID'' (gate_ok W r (on_command ''status'' (cm_id c)) w)) (\<lambda>st w.
               bind_st (the_command st w) (\<lambda>sc w.
                 if cm_id sc \<noteq> cm_id c then fails ''status did not return the stable command ID'' w
                 else bind_st (gate_ok W r (operation ''list'') w) (\<lambda>l w.
                   if \<not> list_ex (\<lambda>x. cm_id x = cm_id c) (rs_commands l) then fails ''list omitted the command'' w
                   else (Inr [(''stableCommandID'', Gv_bool True), (''duplicateExecutionPrevented'', Gv_bool True),
                          (''conflictDetected'', Gv_bool True)], w)))))))))))"

text \<open>The events of a replay: none out of order, or their text.\<close>

fun replay_loop :: "nat \<Rightarrow> string \<Rightarrow> spool_event list \<Rightarrow> string option" where
  "replay_loop previous text [] = Some text"
| "replay_loop previous text (e # es) =
     (if se_seq e \<le> previous then None
      else replay_loop (se_seq e) (text @ se_stream e @ '':'' @ se_data e) es)"

definition replay_script :: string where
  "replay_script =
     ''import os,time'' @ [line_feed] @
     ''os.write(1,b\"out-1'' @ [CHR 0x5C] @ ''n\"); time.sleep(.03)'' @ [line_feed] @
     ''os.write(2,b\"err-1'' @ [CHR 0x5C] @ ''n\"); time.sleep(.03)'' @ [line_feed] @
     ''os.write(1,b\"out-2'' @ [CHR 0x5C] @ ''n\")''"

definition replay_expected :: string where
  "replay_expected = ''stdout:out-1'' @ [line_feed] @ ''stderr:err-1'' @ [line_feed] @ ''stdout:out-2'' @ [line_feed]"

definition check_replay :: "'w gate_world \<Rightarrow> gate_runner \<Rightarrow> ('w, detail) gate_step" where
  "check_replay W r w =
     bind_st (gate_start W r ''gate-replay'' [''/usr/local/bin/python3'', ''-c'', replay_script] w) (\<lambda>started w.
     bind_st (the_command started w) (\<lambda>c w.
     bind_st (gate_wait W r (cm_id c) w) (\<lambda>_ w.
     bind_st (gate_connect W r (cm_id c) 0 w) (\<lambda>a w.
     bind_st (gate_connect W r (cm_id c) 0 w) (\<lambda>b w.
       if rs_events a \<noteq> rs_events b \<or> length (rs_events a) < 3 then fails ''fresh ctl replay was incomplete or unstable'' w
       else case replay_loop 0 [] (rs_events a) of
           None \<Rightarrow> fails ''event sequences were not strictly increasing'' w
         | Some replayed \<Rightarrow>
           if \<not> list_ex (\<lambda>e. se_stream e = ''stdout'') (rs_events a) \<or> \<not> list_ex (\<lambda>e. se_stream e = ''stderr'') (rs_events a)
           then fails ''replay did not preserve both streams'' w
           else if replayed \<noteq> replay_expected
           then (Inl (Failed [(''observed'', Gv_text (gate_truncate replayed 128))] ''stdout/stderr replay order or payload differed''), w)
           else (Inr [(''freshCtlCalls'', Gv_int 2), (''strictlyIncreasingSequences'', Gv_bool True), (''orderedPayloads'', Gv_bool True),
                  (''streams'', Gv_texts [''stdout'', ''stderr''])], w))))))"

text \<open>\<open>directoryUsage\<close>: the walk ends at its first error.\<close>

fun usage_loop :: "int \<Rightarrow> int \<Rightarrow> (string + walk_entry) list \<Rightarrow> string + int \<times> int" where
  "usage_loop logical allocated [] = Inr (logical, allocated)"
| "usage_loop logical allocated (x # xs) =
     (case x of Inl e \<Rightarrow> Inl e
      | Inr en \<Rightarrow> if we_regular en
          then usage_loop (logical + we_size en) (case we_blocks en of None \<Rightarrow> allocated | Some b \<Rightarrow> allocated + b * 512) xs
          else usage_loop logical allocated xs)"

definition directory_usage :: "'w gate_world \<Rightarrow> string \<Rightarrow> ('w, int \<times> int) gate_step" where
  "directory_usage W root w = (case usage_loop 0 0 (gw_walk W root w) of Inl e \<Rightarrow> fails e w | Inr u \<Rightarrow> (Inr u, w))"

definition spool_script :: string where
  "spool_script = ''import os'' @ [line_feed] @ ''chunk=b\"x\"*16384'' @ [line_feed] @ ''for _ in range(640): os.write(1,chunk)''"

definition check_spool :: "'w gate_world \<Rightarrow> gate_runner \<Rightarrow> ('w, detail) gate_step" where
  "check_spool W r w =
     bind_st (gate_start W r ''gate-spool'' [''/usr/local/bin/python3'', ''-c'', spool_script] w) (\<lambda>started w.
     bind_st (the_command started w) (\<lambda>c w.
     bind_st (gate_wait W r (cm_id c) w) (\<lambda>waited w.
     bind_st (or_fails ''evicted cursor did not return CURSOR_EXPIRED'' (gate_call W r (on_command ''connect'' (cm_id c)) w)) (\<lambda>expired w.
       if rs_ok expired \<or> rs_code expired \<noteq> ''CURSOR_EXPIRED'' then fails ''evicted cursor did not return CURSOR_EXPIRED'' w
       else bind_st (the_command waited w) (\<lambda>d w.
         case gate_connect W r (cm_id c) ((next_seq d + (2 ^ 64 - 1)) mod 2 ^ 64) w of
           (Inl (Failed _ e), w) \<Rightarrow> fails (''latest cursor was not readable: '' @ e) w
         | (Inl Panicked, w) \<Rightarrow> (Inl Panicked, w)
         | (Inr _, w) \<Rightarrow>
           bind_st (directory_usage W (path_join [gr_state_dir r, ''commands'', cm_id c]) w) (\<lambda>(logical, allocated) w.
             if logical > int max_spool_bytes
             then fails (''logical command state '' @ itoa logical @ '' exceeds '' @ itoa (int max_spool_bytes)) w
             else (Inr [(''cursorExpired'', Gv_bool True), (''logicalBytes'', Gv_int logical), (''allocatedBytes'', Gv_int allocated),
                    (''configuredCapBytes'', Gv_int (int max_spool_bytes))], w)))))))"

definition check_stdin :: "'w gate_world \<Rightarrow> gate_runner \<Rightarrow> ('w, detail) gate_step" where
  "check_stdin W r w =
     bind_st (gate_start W r ''gate-stdin''
         [''/usr/local/bin/python3'', ''-c'', ''import sys; sys.stdout.buffer.write(sys.stdin.buffer.read())''] w) (\<lambda>started w.
     bind_st (the_command started w) (\<lambda>c w.
     bind_st (gate_ok W r ((on_command ''stdin'' (cm_id c))\<lparr>rq_data := ''stdin-round-trip''\<rparr>) w) (\<lambda>_ w.
     bind_st (gate_ok W r (on_command ''closeStdin'' (cm_id c)) w) (\<lambda>_ w.
     bind_st (gate_wait W r (cm_id c) w) (\<lambda>_ w.
     bind_st (or_fails ''stdin round trip mismatch'' (gate_output W r (cm_id c) w)) (\<lambda>(out, _) w.
       if out \<noteq> ''stdin-round-trip'' then fails ''stdin round trip mismatch'' w
       else (Inr [(''write'', Gv_bool True), (''close'', Gv_bool True), (''wait'', Gv_bool True)], w)))))))"

definition ordinary_descendant :: "'w gate_world \<Rightarrow> gate_runner \<Rightarrow> string \<Rightarrow> ('w, string \<times> int) gate_step" where
  "ordinary_descendant W r key w =
     bind_st (gate_start W r key [''/bin/sh'', ''-c'', ''sleep 60 & echo $!''] w) (\<lambda>started w.
     bind_st (the_command started w) (\<lambda>c w.
     bind_st (first_pid W r (cm_id c) w) (\<lambda>pid w. (Inr (cm_id c, pid), w))))"

fun signal_loop :: "'w gate_world \<Rightarrow> gate_runner \<Rightarrow> nat \<Rightarrow> string list \<Rightarrow> ('w, unit) gate_step" where
  "signal_loop W r index [] w = (Inr (), w)"
| "signal_loop W r index (sig # sigs) w =
     bind_st (ordinary_descendant W r (''gate-signal-'' @ itoa (int index)) w) (\<lambda>(i, pid) w.
     bind_st (gate_signal W r i sig w) (\<lambda>_ w.
     bind_st (gate_wait W r i w) (\<lambda>_ w.
       case assert_gone W pid w of
         (Inl (Failed _ e), w) \<Rightarrow> fails (sig @ '': '' @ e) w
       | (Inl Panicked, w) \<Rightarrow> (Inl Panicked, w)
       | (Inr _, w) \<Rightarrow> signal_loop W r (Suc index) sigs w)))"

definition check_signals :: "'w gate_world \<Rightarrow> gate_runner \<Rightarrow> ('w, detail) gate_step" where
  "check_signals W r w = bind_st (signal_loop W r 0 [''TERM'', ''KILL''] w) (\<lambda>_ w.
     (Inr [(''leaderExitedBeforeSignal'', Gv_bool True), (''termDescendantLeak'', Gv_bool False), (''killDescendantLeak'', Gv_bool False)], w))"

text \<open>The loops of \<open>checkKillAll\<close>, as one sequence of steps over a list.\<close>

fun for_each :: "('x \<Rightarrow> ('w, 'a) gate_step) \<Rightarrow> 'x list \<Rightarrow> ('w, 'a list) gate_step" where
  "for_each f [] w = (Inr [], w)"
| "for_each f (x # xs) w = bind_st (f x w) (\<lambda>v w. bind_st (for_each f xs w) (\<lambda>vs w. (Inr (v # vs), w)))"

definition check_kill_all :: "'w gate_world \<Rightarrow> gate_runner \<Rightarrow> ('w, detail) gate_step" where
  "check_kill_all W r w =
     bind_st (for_each (\<lambda>k. ordinary_descendant W r (''gate-kill-all-'' @ itoa k)) [0, 1] w) (\<lambda>started w.
     bind_st (gate_ok W r (operation ''killAll'') w) (\<lambda>_ w.
     bind_st (for_each (\<lambda>(i, _). gate_wait W r i) started w) (\<lambda>_ w.
     bind_st (for_each (\<lambda>(_, pid). assert_gone W pid) started w) (\<lambda>_ w.
       (Inr [(''ordinaryDescendantLeak'', Gv_bool False), (''commands'', Gv_int 2)], w)))))"

section \<open>The descendant in a session of its own\<close>

definition escape_marker :: string where "escape_marker = ''/workspace/setsid-escape-marker''"

definition setsid_script :: string where
  "setsid_script =
     ''/usr/bin/setsid /bin/sh -c '' @ [CHR 0x27] @ ''while :; do printf x >> /workspace/setsid-escape-marker; sleep .05; done'' @ [CHR 0x27]
     @ '' </dev/null >/dev/null 2>&1 & escaped=$!; while [ ! -s /workspace/setsid-escape-marker ]; do sleep .01; done; ''
     @ ''echo \"$escaped\"; exec sleep 60''"

text \<open>Up to the moment at which the escaped process is known: the identifiers of the command and of the process.\<close>

definition setsid_start :: "'w gate_world \<Rightarrow> gate_runner \<Rightarrow> ('w, string \<times> int) gate_step" where
  "setsid_start W r w =
     (case gw_stat W ''/usr/bin/setsid'' w of
        Inl _ \<Rightarrow> fails ''setsid utility is unavailable; containment feasibility was not exercised'' w
      | Inr _ \<Rightarrow>
        bind_st (gate_start W r ''gate-setsid-escape'' [''/bin/sh'', ''-c'', setsid_script] (snd (gw_remove W escape_marker w))) (\<lambda>started w.
        bind_st (the_command started w) (\<lambda>c w.
        bind_st (first_pid W r (cm_id c) w) (\<lambda>pid w. (Inr (cm_id c, pid), w)))))"

definition escape_detail :: "bool \<Rightarrow> bool \<Rightarrow> bool \<Rightarrow> detail" where
  "escape_detail held alive continued =
     [(''pgidEscapeContained'', Gv_bool held), (''escapedPIDAlive'', Gv_bool alive), (''markerContinuedAfterPGIDKill'', Gv_bool continued)]"

definition size_of :: "'w gate_world \<Rightarrow> string \<Rightarrow> ('w, int) gate_step" where
  "size_of W path w = bind_st (stat_of W path w) (\<lambda>fi w. (Inr (fi_size fi), w))"

text \<open>The rest: the group is killed, activity is measured, and what escaped is killed.\<close>

definition setsid_measure :: "'w gate_world \<Rightarrow> gate_runner \<Rightarrow> string \<Rightarrow> int \<Rightarrow> ('w, detail \<times> bool) gate_step" where
  "setsid_measure W r i pid w =
     bind_st (gate_signal W r i ''KILL'' w) (\<lambda>_ w.
     bind_st (gate_wait W r i w) (\<lambda>_ w.
     bind_st (size_of W escape_marker (gw_sleep W (100 * millisecond) w)) (\<lambda>settled w.
     bind_st (size_of W escape_marker (gw_sleep W (300 * millisecond) w)) (\<lambda>after w.
       case gw_kill W pid 0 w of (e, w) \<Rightarrow>
         let alive = (e = None); held = (\<not> alive \<and> after = settled); found = escape_detail False alive (after > settled);
             report = (\<lambda>w. (Inr (escape_detail held alive (after > settled) @ [(''escapedProcessCleanedByGate'', Gv_bool True)], held), w))
         in if held then report w
            else case gw_kill W pid 9 w of (k, w) \<Rightarrow>
              if k \<noteq> None \<and> k \<noteq> Some ESRCH
              then (Inl (Failed found (''clean escaped process: '' @ gw_strerror W (the k))), w)
              else case assert_gone W pid w of
                  (Inl (Failed _ e), w) \<Rightarrow> (Inl (Failed found (''escaped process cleanup: '' @ e)), w)
                | (Inl Panicked, w) \<Rightarrow> (Inl Panicked, w)
                | (Inr _, w) \<Rightarrow> report w))))"

fun forget_pid :: "int \<Rightarrow> int list \<Rightarrow> int list" where
  "forget_pid pid [] = []"
| "forget_pid pid (p # ps) = (if p = pid then ps else p # forget_pid pid ps)"

definition forget_escaped :: "int \<Rightarrow> gate_runner \<Rightarrow> gate_runner" where
  "forget_escaped pid r = r\<lparr>gr_escaped := forget_pid pid (gr_escaped r)\<rparr>"

definition observe_setsid :: "'w gate_world \<Rightarrow> gate_runner \<Rightarrow> 'w \<Rightarrow> (gate_stop + detail \<times> bool) \<times> gate_runner \<times> 'w" where
  "observe_setsid W r w =
     (case setsid_start W r w of
        (Inl e, w) \<Rightarrow> (Inl e, r, w)
      | (Inr (i, pid), w) \<Rightarrow>
        let r1 = r\<lparr>gr_escaped := gr_escaped r @ [pid]\<rparr> in
        (case setsid_measure W r1 i pid w of
           (Inl e, w) \<Rightarrow> (Inl e, r1, w)
         | (Inr v, w) \<Rightarrow> (Inr v, forget_escaped pid r1, w)))"

section \<open>Control groups\<close>

definition errno_name :: "'w gate_world \<Rightarrow> errno \<Rightarrow> string" where
  "errno_name W e =
     (if e = EROFS then ''read-only filesystem'' else if e = EPERM then ''operation not permitted''
      else if e = EACCES then ''permission denied'' else gate_truncate (gw_strerror W e) 128)"

definition set_detail :: "string \<Rightarrow> gate_value \<Rightarrow> detail \<Rightarrow> detail" where
  "set_detail k v d = (k, v) # filter (\<lambda>(j, _). j \<noteq> k) d"

definition fields_of :: "'w gate_world \<Rightarrow> string \<Rightarrow> string \<Rightarrow> 'w \<Rightarrow> detail \<Rightarrow> detail" where
  "fields_of W path key w d = (case gw_read W path w of Inl _ \<Rightarrow> d | Inr v \<Rightarrow> set_detail key (Gv_texts (go_fields v)) d)"

text \<open>The result and the error that may come with it.\<close>

definition inspect_cgroup :: "'w gate_world \<Rightarrow> 'w \<Rightarrow> (detail \<times> string option) \<times> 'w" where
  "inspect_cgroup W w =
     (let d0 = [(''available'', Gv_bool False), (''mountType'', Gv_text ''none''), (''writableDelegation'', Gv_bool False), (''cgroupKill'', Gv_bool False)]
      in case gw_read W ''/proc/self/mountinfo'' w of Inl e \<Rightarrow> ((d0, Some (''read /proc/self/mountinfo: '' @ e)), w)
      | Inr mountinfo \<Rightarrow> (case gw_read W ''/proc/self/cgroup'' w of Inl e \<Rightarrow> ((d0, Some (''read /proc/self/cgroup: '' @ e)), w)
        | Inr self \<Rightarrow> (case resolve_cgroup mountinfo self of (dir, path, found) \<Rightarrow>
            let d1 = set_detail ''unifiedSelfCgroup'' (Gv_bool (path \<noteq> []))
                  (set_detail ''selfCgroupLines'' (Gv_int (int (count_nonempty_lines self))) d0)
            in if \<not> found
               then ((set_detail ''reason'' (Gv_text ''no cgroup v2 directory for this container; runtime may expose only legacy controller mounts'') d1, None), w)
               else if \<not> gate_path_contains ''/sys/fs/cgroup'' dir
               then ((set_detail ''reason'' (Gv_text ''the container cgroup v2 directory is not exposed under /sys/fs/cgroup'') d1, None), w)
               else let d2 = fields_of W (path_join [dir, ''cgroup.subtree_control'']) ''subtreeControl'' w
                          (fields_of W (path_join [dir, ''cgroup.controllers'']) ''controllers'' w
                          (set_detail ''currentPath'' (Gv_text path) (set_detail ''mountType'' (Gv_text ''cgroup2'') d1)));
                        kill = is_ok (gw_stat W (path_join [dir, ''cgroup.kill'']) w);
                        d3 = (if kill then set_detail ''cgroupKill'' (Gv_bool True) d2 else d2);
                        probe = path_join [dir, ''asp-command-gate-'' @ itoa (gw_pid W)]
                    in case gw_mkdir W probe w of
                        (Some e, w) \<Rightarrow> ((set_detail ''reason'' (Gv_text (''current cgroup directory has no writable child subtree: '' @ errno_name W e)) d3, None), w)
                      | (None, w) \<Rightarrow>
                        let d4 = set_detail ''writableDelegation'' (Gv_bool True) d3 in
                        (case gw_remove W probe w of
                           (Some e, w) \<Rightarrow> ((set_detail ''reason'' (Gv_text (''writable child cgroup probe could not be removed: '' @ errno_name W e))
                               (set_detail ''available'' (Gv_bool False) d4), Some (''remove child cgroup probe: '' @ gw_strerror W e)), w)
                         | (None, w) \<Rightarrow> ((if kill
                             then set_detail ''reason'' (Gv_text ''current cgroup exposes a writable child subtree and cgroup.kill'')
                               (set_detail ''available'' (Gv_bool True) d4)
                             else set_detail ''reason'' (Gv_text ''current cgroup exposes a writable child subtree but not cgroup.kill'') d4, None), w)))))"

section \<open>The run\<close>

definition with_error :: "detail \<Rightarrow> string \<Rightarrow> detail" where
  "with_error d e = set_detail ''error'' (Gv_text (gate_truncate e 512)) d"

definition add_check :: "string \<Rightarrow> check_status \<Rightarrow> detail \<Rightarrow> gate_runner \<Rightarrow> gate_runner" where
  "add_check name st d r = r\<lparr>gr_results := gr_results r @ [\<lparr>gc_name = name, gc_status = st, gc_detail = d\<rparr>]\<rparr>"

text \<open>\<open>check\<close>; the first result is false when the step panicked, which ends the run.\<close>

definition run_check :: "string \<Rightarrow> (gate_runner \<Rightarrow> ('w, detail) gate_step) \<Rightarrow> gate_runner \<Rightarrow> 'w \<Rightarrow> bool \<times> gate_runner \<times> 'w" where
  "run_check name f r w =
     (case f r w of
        (Inr d, w) \<Rightarrow> (True, add_check name Check_passed d r, w)
      | (Inl (Failed d e), w) \<Rightarrow> (True, add_check name Check_failed (with_error d e) r, w)
      | (Inl Panicked, w) \<Rightarrow> (False, r, w))"

fun run_checks :: "(string \<times> (gate_runner \<Rightarrow> ('w, detail) gate_step)) list \<Rightarrow> gate_runner \<Rightarrow> 'w \<Rightarrow> bool \<times> gate_runner \<times> 'w" where
  "run_checks [] r w = (True, r, w)"
| "run_checks ((name, f) # cs) r w =
     (case run_check name f r w of (True, r, w) \<Rightarrow> run_checks cs r w | (False, r, w) \<Rightarrow> (False, r, w))"

definition gate_checks :: "'w gate_world \<Rightarrow> (string \<times> (gate_runner \<Rightarrow> ('w, detail) gate_step)) list" where
  "gate_checks W =
     [(''health'', check_health W), (''root-only local client and protected state'', check_root_and_state W),
      (''singleton state ownership'', check_singleton W), (''child identity and customer denial'', check_child_security W),
      (''KILL capability is necessary and sufficient'', check_kill_capability W),
      (''idempotent start, list, and status'', check_idempotency W),
      (''stdout/stderr ordering and fresh-ctl replay'', check_replay W), (''bounded spool and expired cursor'', check_spool W),
      (''stdin, close, and wait'', check_stdin W),
      (''TERM and KILL contain ordinary descendants after leader exit'', check_signals W),
      (''killAll contains ordinary descendants'', check_kill_all W)]"

definition kernel_release :: "'w gate_world \<Rightarrow> 'w \<Rightarrow> string" where
  "kernel_release W w = (case gw_read W ''/proc/sys/kernel/osrelease'' w of Inl _ \<Rightarrow> ''unknown'' | Inr v \<Rightarrow> trim_space v)"

text \<open>The checks on containment and the report, once the descendant has been observed.\<close>

definition containment_report :: "'w gate_world \<Rightarrow> detail \<Rightarrow> check_status \<Rightarrow> bool \<Rightarrow> gate_runner \<Rightarrow> 'w \<Rightarrow> gate_report \<times> gate_runner \<times> 'w" where
  "containment_report W d st held r w =
     (let r1 = add_check ''new-session descendant compatibility'' st d r in
      case inspect_cgroup W w of ((cg, e), w) \<Rightarrow>
        let cgroup = (case e of None \<Rightarrow> cg | Some x \<Rightarrow> with_error cg x);
            r2 = add_check ''current cgroup v2 exposure'' (if e = None then Check_passed else Check_failed) cgroup r1;
            available = (map_of cgroup ''available'' = Some (Gv_bool True));
            cst = classify_containment held False;
            cd = [(''adapter'', Gv_text ''process-group''), (''pgidEscapeContained'', Gv_bool held),
                  (''cgroupContainmentAvailable'', Gv_bool available), (''cgroupAdapterEnabled'', Gv_bool False), (''cgroupV2'', Gv_map cgroup),
                  (''reason'', Gv_text (if cst = Check_passed
                     then ''the enabled process-group mechanism contained the new-session descendant''
                     else ''production remains blocked because no enabled containment mechanism handled the new-session descendant''))];
            r3 = add_check ''production command containment'' cst cd r2
        in (\<lparr>gr_schema = 1, gr_test = ''command-supervisor-in-container-gate'', gr_status = summarize (gr_results r3),
              gr_checks = gr_results r3, gr_containment = cd,
              gr_environment = [(''goos'', Gv_text (fst (gw_platform W))), (''goarch'', Gv_text (snd (gw_platform W))),
                (''kernel'', Gv_text (kernel_release W w)), (''effectiveUID'', Gv_int (gw_euid W))]\<rparr>, r3, w))"

text \<open>The report, \<open>None\<close> after a panic.\<close>

definition gate_body :: "'w gate_world \<Rightarrow> gate_runner \<Rightarrow> 'w \<Rightarrow> gate_report option \<times> gate_runner \<times> 'w" where
  "gate_body W r w =
     (case run_checks (gate_checks W) r w of
        (False, r, w) \<Rightarrow> (None, r, w)
      | (True, r, w) \<Rightarrow>
        (case observe_setsid W r w of
           (Inl Panicked, r, w) \<Rightarrow> (None, r, w)
         | (Inl (Failed d e), r, w) \<Rightarrow> (case containment_report W (with_error d e) Check_failed False r w of (rep, r, w) \<Rightarrow> (Some rep, r, w))
         | (Inr (d, held), r, w) \<Rightarrow> (case containment_report W d Check_passed held r w of (rep, r, w) \<Rightarrow> (Some rep, r, w))))"

definition gate_cleanup :: "'w gate_world \<Rightarrow> gate_runner \<Rightarrow> 'w \<Rightarrow> 'w" where
  "gate_cleanup W r w = fold (\<lambda>pid w. snd (gw_kill W pid 9 w)) (gr_escaped r) (snd (gate_call W r (operation ''killAll'') w))"

record 'w gate_end =
  ge_exit :: int
  ge_report :: "gate_report option"
  ge_cleaned :: bool
  ge_runner :: gate_runner
  ge_world :: 'w

text \<open>
  \<open>main\<close>: the deferred cleanup runs when \<open>main\<close> returns and when it panics (with exit status
  two), but not when it calls \<open>os.Exit\<close>.
\<close>

definition gate_main :: "'w gate_world \<Rightarrow> string \<Rightarrow> string \<Rightarrow> string \<Rightarrow> 'w \<Rightarrow> 'w gate_end" where
  "gate_main W ctl supervisor state_dir w =
     (case gate_body W \<lparr>gr_ctl = ctl, gr_supervisor = supervisor, gr_state_dir = state_dir, gr_results = [], gr_escaped = []\<rparr> w of
        (None, r, w) \<Rightarrow> \<lparr>ge_exit = 2, ge_report = None, ge_cleaned = True, ge_runner = r, ge_world = gate_cleanup W r w\<rparr>
      | (Some rep, r, w) \<Rightarrow>
        if \<not> gw_encodes W then \<lparr>ge_exit = 1, ge_report = None, ge_cleaned = False, ge_runner = r, ge_world = w\<rparr>
        else if gr_status rep = Check_failed then \<lparr>ge_exit = 1, ge_report = Some rep, ge_cleaned = False, ge_runner = r, ge_world = w\<rparr>
        else \<lparr>ge_exit = 0, ge_report = Some rep, ge_cleaned = True, ge_runner = r, ge_world = gate_cleanup W r w\<rparr>)"

end
