(* ===== verification/Gate_Probe.thy ===== *)
theory Gate_Probe
  imports Platform_Gate Supervisor_Child
begin

text \<open>
  The two modes in which the gate runs as its own probe (\<open>capability_linux.go\<close>): as a command
  of the supervisor, to see what a command is denied, and with few capabilities, to see which of
  them authorise a signal.
\<close>

section \<open>What a probe sees of its own process\<close>

record probe_env =
  pe_args :: "string list"
  pe_euid :: int
  pe_egid :: int
  pe_groups :: "string + int list"
  pe_capget :: "errno + (32 word \<times> 32 word \<times> 32 word) list"
  pe_ambient :: "nat \<Rightarrow> errno + int"
  pe_no_new_privs :: "errno + int"
  pe_open :: "string \<Rightarrow> errno option"
  pe_dial :: "string \<Rightarrow> bool"
  pe_capset :: "32 word \<Rightarrow> errno option"
  pe_kill :: "32 word \<Rightarrow> int \<Rightarrow> errno option"

text \<open>Whether a mode is handled, its exit status, and its standard output.\<close>

type_synonym probe_result = "bool \<times> int \<times> string"

definition probe_fails :: probe_result where "probe_fails = (True, 1, [])"
definition not_a_probe :: probe_result where "not_a_probe = (False, 0, [])"

section \<open>The security probe\<close>

text \<open>\<open>capability\<close> counts up to 64; a capability the kernel does not know ends the loop.\<close>

fun ambient_loop :: "(nat \<Rightarrow> errno + int) \<Rightarrow> nat list \<Rightarrow> bool" where
  "ambient_loop prctl [] = True"
| "ambient_loop prctl (c # cs) =
     (if prctl c = Inl EINVAL then True
      else if prctl c \<noteq> Inr 0 then False
      else ambient_loop prctl cs)"

definition no_capabilities :: "32 word \<times> 32 word \<times> 32 word \<Rightarrow> bool" where
  "no_capabilities = (\<lambda>(effective, permitted, inheritable). effective = 0 \<and> permitted = 0 \<and> inheritable = 0)"

definition child_security_probe :: "probe_env \<Rightarrow> probe_result" where
  "child_security_probe pe =
     (if length (pe_args pe) \<noteq> 3 \<or> pe_args pe ! 1 \<noteq> ''child-security-probe'' then not_a_probe
      else if pe_euid pe \<noteq> 10001 \<or> pe_egid pe \<noteq> 10001 then probe_fails
      else if pe_groups pe \<noteq> Inr [] then probe_fails
      else case pe_capget pe of Inl _ \<Rightarrow> probe_fails
      | Inr words \<Rightarrow>
        if \<not> list_all no_capabilities words then probe_fails
        else if \<not> ambient_loop (pe_ambient pe) [0 ..< 64] then probe_fails
        else if pe_no_new_privs pe \<noteq> Inr 1 then probe_fails
        else let dir = pe_args pe ! 2 in
          if pe_open pe dir \<noteq> Some EACCES then probe_fails
          else if pe_dial pe (path_join [dir, ''supervisor.sock'']) then probe_fails
          else (True, 0, ''secure''))"

section \<open>The capability probe\<close>

text \<open>\<open>strconv.ParseBool\<close>.\<close>

definition parse_bool :: "string \<Rightarrow> bool option" where
  "parse_bool s =
     (if s \<in> set [''1'', ''t'', ''T'', ''true'', ''TRUE'', ''True''] then Some True
      else if s \<in> set [''0'', ''f'', ''F'', ''false'', ''FALSE'', ''False''] then Some False else None)"

definition cap_kill :: nat where "cap_kill = 5"
definition cap_setgid :: nat where "cap_setgid = 6"
definition cap_setuid :: nat where "cap_setuid = 7"

definition probe_mask :: "bool \<Rightarrow> 32 word" where
  "probe_mask include_kill =
     (let mask = or (push_bit cap_setuid 1) (push_bit cap_setgid 1)
      in if include_kill then or mask (push_bit cap_kill 1) else mask)"

definition capability_probe :: "probe_env \<Rightarrow> probe_result" where
  "capability_probe pe =
     (if length (pe_args pe) \<noteq> 4 \<or> pe_args pe ! 1 \<noteq> ''capability-probe'' then not_a_probe
      else case parse_int64 (pe_args pe ! 2) of None \<Rightarrow> (True, 2, [])
      | Some pid \<Rightarrow>
        if pid \<le> 0 then (True, 2, [])
        else case parse_bool (pe_args pe ! 3) of None \<Rightarrow> (True, 2, [])
        | Some include_kill \<Rightarrow>
          let mask = probe_mask include_kill in
          if pe_capset pe mask \<noteq> None then probe_fails
          else let e = pe_kill pe mask pid in
            if include_kill \<and> e \<noteq> None then probe_fails
            else if \<not> include_kill \<and> e \<noteq> Some EPERM then probe_fails
            else (True, 0, []))"

text \<open>The program: the modes first, then the gate with its parsed flags.\<close>

datatype 'w gate_program = Probed int string | Gated "'w gate_end"

definition platform_gate :: "probe_env \<Rightarrow> 'w gate_world \<Rightarrow> string \<Rightarrow> string \<Rightarrow> string \<Rightarrow> 'w \<Rightarrow> 'w gate_program" where
  "platform_gate pe W ctl supervisor state_dir w =
     (case child_security_probe pe of (True, code, out) \<Rightarrow> Probed code out
      | (False, _, _) \<Rightarrow> (case capability_probe pe of (True, code, out) \<Rightarrow> Probed code out
         | (False, _, _) \<Rightarrow> Gated (gate_main W ctl supervisor state_dir w)))"

section \<open>The probe and the launch of a command\<close>

lemma ambient_loop_iff:
  "ambient_loop prctl cs \<longleftrightarrow> (\<forall>c \<in> set (takeWhile (\<lambda>c. prctl c \<noteq> Inl EINVAL) cs). prctl c = Inr 0)"
  by (induction cs) auto

text \<open>The probe is exact: it reports a secure process when, and only when, every single denial holds.\<close>

lemma security_probe_exact:
  "child_security_probe pe = (True, 0, out) \<longleftrightarrow>
     out = ''secure'' \<and> (\<exists>self dir. pe_args pe = [self, ''child-security-probe'', dir]
       \<and> pe_open pe dir = Some EACCES \<and> \<not> pe_dial pe (path_join [dir, ''supervisor.sock'']))
     \<and> pe_euid pe = 10001 \<and> pe_egid pe = 10001 \<and> pe_groups pe = Inr []
     \<and> (\<exists>words. pe_capget pe = Inr words \<and> list_all no_capabilities words)
     \<and> (\<forall>c \<in> set (takeWhile (\<lambda>c. pe_ambient pe c \<noteq> Inl EINVAL) [0 ..< 64]). pe_ambient pe c = Inr 0)
     \<and> pe_no_new_privs pe = Inr 1"
proof -
  have args: "length (pe_args pe) = 3 \<and> pe_args pe ! 1 = x \<longleftrightarrow> (\<exists>self dir. pe_args pe = [self, x, dir])" for x
    by (auto simp: numeral_3_eq_3 length_Suc_conv)
  show ?thesis
  proof (cases "\<exists>self dir. pe_args pe = [self, ''child-security-probe'', dir]")
    case True
    then obtain self dir where a: "pe_args pe = [self, ''child-security-probe'', dir]" by blast
    show ?thesis
      unfolding child_security_probe_def ambient_loop_iff [symmetric] probe_fails_def
      by (auto simp: a Let_def split: sum.split)
  next
    case False
    then show ?thesis using args [of "''child-security-probe''"] by (auto simp: child_security_probe_def not_a_probe_def)
  qed
qed

text \<open>
  What the system calls of a process answer; the kernel knows the capabilities below some
  number.
\<close>

definition sees :: "process \<Rightarrow> nat \<Rightarrow> probe_env \<Rightarrow> bool" where
  "sees q known pe \<longleftrightarrow> pe_euid pe = ps_uid q \<and> pe_egid pe = ps_gid q \<and> pe_groups pe = Inr (ps_groups q)
     \<and> (\<exists>words. pe_capget pe = Inr words \<and> (ps_held q = {} \<longrightarrow> list_all no_capabilities words))
     \<and> (\<forall>c. pe_ambient pe c = (if c \<ge> known then Inl EINVAL else Inr (if c \<in> ps_ambient q then 1 else 0)))
     \<and> pe_no_new_privs pe = Inr (if ps_no_new_privs q then 1 else 0)"

text \<open>
  C35. The gate's check of a command's identity and denials is one the supervisor meets:
  started with the configured identity, the probe sees exactly the process that the
  trampoline leaves, and reports it secure if and only if the state directory refuses it with
  a permission error and the socket cannot be reached; no other condition of the probe can
  fail, whatever the supervisor's own process held.
\<close>

theorem launched_probe_secure:
  assumes launched: "trampoline sys (cc_args (configure_child target [self, ''child-security-probe'', dir] 10001 10001))
      (take_credential (cc_credential (configure_child target [self, ''child-security-probe'', dir] 10001 10001)) p) = Executes path av q"
    and "sees q known pe" and "pe_args pe = av"
  shows "child_security_probe pe = (True, 0, ''secure'')
    \<longleftrightarrow> pe_open pe dir = Some EACCES \<and> \<not> pe_dial pe (path_join [dir, ''supervisor.sock''])"
proof -
  have q: "av = [target, ''child-security-probe'', dir]" "ps_held q = {}" "ps_ambient q = {}" "ps_no_new_privs q"
      "ps_uid q = 10001" "ps_gid q = 10001" "ps_groups q = []"
    using child_confined [OF launched] by auto
  have "\<forall>c \<in> set (takeWhile (\<lambda>c. pe_ambient pe c \<noteq> Inl EINVAL) [0 ..< 64]). pe_ambient pe c = Inr 0"
    using assms(2) q(3) by (auto simp: sees_def dest!: set_takeWhileD split: if_split_asm)
  then show ?thesis
    using assms(2,3) q by (auto simp: security_probe_exact sees_def)
qed

end
