(* ===== verification/Gate_Props.thy ===== *)
theory Gate_Props
  imports Gate_Probe
begin

text \<open>
  The properties of the platform gate: its verdict, what its clean-up can and cannot reach, and
  the ends of its polling loops.
\<close>

section \<open>Checks and results\<close>

lemma run_check_effect:
  assumes "run_check name f r w = (b, r', w')"
  shows "gr_escaped r' = gr_escaped r" "\<exists>cs. gr_results r' = gr_results r @ cs \<and> map gc_name cs = (if b then [name] else [])
    \<and> (\<forall>c \<in> set cs. gc_status c \<in> {Check_passed, Check_failed})"
  using assms by (auto simp: run_check_def add_check_def split: prod.splits sum.splits gate_stop.splits)

lemma run_checks_effect:
  "run_checks cs r w = (b, r', w') \<Longrightarrow> gr_escaped r' = gr_escaped r
     \<and> (b \<longrightarrow> (\<exists>ds. gr_results r' = gr_results r @ ds \<and> map gc_name ds = map fst cs
          \<and> (\<forall>c \<in> set ds. gc_status c \<in> {Check_passed, Check_failed})))"
proof (induction cs arbitrary: r w)
  case (Cons nf cs)
  obtain name f where nf: "nf = (name, f)" by fastforce
  obtain b1 r1 w1 where one: "run_check name f r w = (b1, r1, w1)" by (metis prod_cases3)
  note eff = run_check_effect [OF one]
  show ?case
  proof (cases b1)
    case True
    then have rest: "run_checks cs r1 w1 = (b, r', w')" using Cons.prems by (simp add: nf one)
    note ih = Cons.IH [OF rest]
    obtain c1 where c1: "gr_results r1 = gr_results r @ c1" "map gc_name c1 = [name]" "\<forall>c \<in> set c1. gc_status c \<in> {Check_passed, Check_failed}"
      using eff(2) True by auto
    have "\<exists>ds. gr_results r' = gr_results r @ ds \<and> map gc_name ds = map fst (nf # cs) \<and> (\<forall>c \<in> set ds. gc_status c \<in> {Check_passed, Check_failed})"
      if ok: b
    proof -
      obtain ds where "gr_results r' = gr_results r1 @ ds" "map gc_name ds = map fst cs" "\<forall>c \<in> set ds. gc_status c \<in> {Check_passed, Check_failed}"
        using ih ok by auto
      then show ?thesis using c1 by (intro exI [of _ "c1 @ ds"]) (auto simp: nf)
    qed
    then show ?thesis using ih eff(1) by auto
  next
    case False
    then show ?thesis using Cons.prems eff(1) by (auto simp: nf one)
  qed
qed auto

lemma gate_ok_no_panic: "gate_ok W r rq w = (Inl e, w') \<Longrightarrow> e \<noteq> Panicked"
  by (auto simp: gate_ok_def gate_call_def fails_def bind_st_def split: prod.splits sum.splits ctl_run.splits if_split_asm)

lemma assert_gone_no_panic: "assert_gone W pid w = (Inl e, w') \<Longrightarrow> e \<noteq> Panicked"
  by (auto simp: assert_gone_def fails_def split: prod.splits option.splits)

definition may_panic :: "(gate_stop + 'a) \<times> 'w \<Rightarrow> bool" where
  "may_panic q \<longleftrightarrow> fst q = Inl Panicked"

lemma bind_may_panic: "may_panic (bind_st q f) \<Longrightarrow> may_panic q \<or> (\<exists>v w. q = (Inr v, w) \<and> may_panic (f v w))"
  by (cases q; cases "fst q") (auto simp: may_panic_def)

lemma no_panic [simp]:
  "\<not> may_panic (gate_ok W r rq w)" "\<not> may_panic (assert_gone W pid w)" "\<not> may_panic (fails e w)" "\<not> may_panic (Inr v, w)"
  "\<not> may_panic (Inl (Failed d e), w)" "\<not> may_panic (stat_of W path w)"
  using gate_ok_no_panic [of W r rq w] assert_gone_no_panic [of W pid w]
  by (auto simp: may_panic_def fails_def stat_of_def split: sum.splits) (metis prod.collapse)+

lemma measure_no_panic: "\<not> may_panic (setsid_measure W r i pid w)"
  unfolding setsid_measure_def gate_signal_def gate_wait_def size_of_def Let_def
  by (auto dest!: bind_may_panic split: prod.splits sum.splits gate_stop.splits if_split_asm)
    (metis assert_gone_no_panic)+

text \<open>Where an escaped process is still recorded: exactly where the measurement ended in an error.\<close>

lemma observe_effect:
  assumes "observe_setsid W r w = (q, r', w')" and "gr_escaped r = []"
  shows "gr_results r' = gr_results r" "gr_escaped r' \<noteq> [] \<Longrightarrow> \<exists>d e. q = Inl (Failed d e)"
proof -
  obtain s w1 where st: "setsid_start W r w = (s, w1)" by fastforce
  show "gr_results r' = gr_results r"
    using assms(1) by (auto simp: observe_setsid_def forget_escaped_def Let_def split: prod.splits sum.splits)
  assume left: "gr_escaped r' \<noteq> []"
  show "\<exists>d e. q = Inl (Failed d e)"
  proof (cases s)
    case (Inl e)
    then show ?thesis using assms left by (simp add: observe_setsid_def st)
  next
    case (Inr ip)
    obtain i pid where ip: "ip = (i, pid)" by fastforce
    let ?r1 = "r\<lparr>gr_escaped := [pid]\<rparr>"
    obtain m w2 where me: "setsid_measure W ?r1 i pid w1 = (m, w2)" by fastforce
    have "m \<noteq> Inl Panicked" using measure_no_panic [of W ?r1 i pid w1] by (simp add: me may_panic_def)
    then show ?thesis
      using assms left by (cases m; cases "projl m") (auto simp: observe_setsid_def st Inr ip me Let_def forget_escaped_def)
  qed
qed

text \<open>
  What it is to observe that the descendant was contained, from the command that starts it: once
  the group has been killed and its command waited for, the file to which the descendant
  appends does not grow between 100 and 400 milliseconds later, and then no signal reaches it.
\<close>

definition descendant_contained :: "'w gate_world \<Rightarrow> gate_runner \<Rightarrow> 'w \<Rightarrow> bool" where
  "descendant_contained W r w \<longleftrightarrow>
     (case setsid_start W r w of (Inl _, _) \<Rightarrow> False
      | (Inr (i, pid), w0) \<Rightarrow> (case gate_signal W r i ''KILL'' w0 of (Inl _, _) \<Rightarrow> False
      | (Inr _, w1) \<Rightarrow> (case gate_wait W r i w1 of (Inl _, _) \<Rightarrow> False
      | (Inr _, w2) \<Rightarrow> let w3 = gw_sleep W (100 * millisecond) w2; w4 = gw_sleep W (300 * millisecond) w3
          in (case (gw_stat W escape_marker w3, gw_stat W escape_marker w4) of
                (Inr a, Inr b) \<Rightarrow> fi_size b = fi_size a \<and> fst (gw_kill W pid 0 w4) \<noteq> None
              | _ \<Rightarrow> False))))"

text \<open>The calls depend only on the client of the runner.\<close>

lemma gate_call_client: "gr_ctl r = gr_ctl r' \<Longrightarrow> gate_ok W r = gate_ok W r'"
  by (intro ext) (simp add: gate_ok_def gate_call_def)

lemma observe_contained:
  assumes "observe_setsid W r w = (q, r', w')"
  shows "descendant_contained W r w \<longleftrightarrow> (\<exists>d. q = Inr (d, True))"
proof -
  obtain s w0 where st: "setsid_start W r w = (s, w0)" by fastforce
  show ?thesis
  proof (cases s)
    case (Inl e)
    then have "\<not> descendant_contained W r w" by (simp add: descendant_contained_def st)
    moreover have "q = Inl e" using assms by (simp add: observe_setsid_def st Inl)
    ultimately show ?thesis by simp
  next
    case (Inr ip)
    obtain i pid where ip: "ip = (i, pid)" by fastforce
    let ?r1 = "r\<lparr>gr_escaped := gr_escaped r @ [pid]\<rparr>"
    have same: "gate_ok W ?r1 = gate_ok W r" by (rule gate_call_client) simp
    obtain m w2 where me: "setsid_measure W ?r1 i pid w0 = (m, w2)" by fastforce
    have "(\<exists>d. m = Inr (d, True)) \<longleftrightarrow> descendant_contained W r w"
      using me unfolding setsid_measure_def descendant_contained_def gate_signal_def gate_wait_def same size_of_def stat_of_def fails_def
      by (auto simp: st Inr ip Let_def split: prod.splits sum.splits gate_stop.splits if_split_asm)
    moreover have "(\<exists>d. q = Inr (d, True)) \<longleftrightarrow> (\<exists>d. m = Inr (d, True))"
      using assms by (cases m) (auto simp: observe_setsid_def st Inr ip me Let_def)
    ultimately show ?thesis by simp
  qed
qed

lemma containment_effect:
  assumes "containment_report W d st held r w = (rep, r', w')"
  shows "gr_escaped r' = gr_escaped r" "gr_status rep = summarize (gr_checks rep)"
    "\<exists>cg d1 d2. gr_checks rep = gr_results r @ [\<lparr>gc_name = ''new-session descendant compatibility'', gc_status = st, gc_detail = d\<rparr>,
        \<lparr>gc_name = ''current cgroup v2 exposure'', gc_status = cg, gc_detail = d1\<rparr>,
        \<lparr>gc_name = ''production command containment'', gc_status = classify_containment held False, gc_detail = d2\<rparr>]
      \<and> cg \<in> {Check_passed, Check_failed}"
    "map_of (gr_containment rep) ''pgidEscapeContained'' = Some (Gv_bool held)"
  using assms by (auto simp: containment_report_def add_check_def Let_def split: prod.splits option.splits)

section \<open>The verdict\<close>

lemma gate_body_effect:
  assumes "gate_body W r w = (q, r', w')" and "gr_escaped r = []" and "gr_results r = []"
  shows "gr_escaped r' \<noteq> [] \<Longrightarrow> \<exists>rep. q = Some rep \<and> gr_status rep = Check_failed"
    "q = Some rep \<Longrightarrow> gr_status rep = summarize (gr_checks rep)
      \<and> (\<exists>cs held. gr_checks rep = cs @ [last (gr_checks rep)]
           \<and> map gc_name cs = map fst (gate_checks W) @ [''new-session descendant compatibility'', ''current cgroup v2 exposure'']
           \<and> (\<forall>c \<in> set cs. gc_status c \<in> {Check_passed, Check_failed})
           \<and> gc_name (last (gr_checks rep)) = ''production command containment''
           \<and> gc_status (last (gr_checks rep)) = (if held then Check_passed else Check_blocked)
           \<and> map_of (gr_containment rep) ''pgidEscapeContained'' = Some (Gv_bool held)
           \<and> (\<exists>r1 w1. run_checks (gate_checks W) r w = (True, r1, w1) \<and> (held \<longleftrightarrow> descendant_contained W r1 w1)))"
proof -
  obtain b r1 w1 where run: "run_checks (gate_checks W) r w = (b, r1, w1)" by (metis prod_cases3)
  note eff = run_checks_effect [OF run]
  obtain o1 r2 w2 where ob: "observe_setsid W r1 w1 = (o1, r2, w2)" by (metis prod_cases3)
  have e1: "gr_escaped r1 = []" using eff assms(2) by simp
  note oe = observe_effect [OF ob e1]
  have split: "(\<not> b \<or> o1 = Inl Panicked) \<and> q = None \<and> gr_escaped r' = []
    \<or> b \<and> (\<exists>d st held rep. q = Some rep \<and> containment_report W d st held r2 w2 = (rep, r', w')
          \<and> (st = Check_passed \<or> st = Check_failed \<and> held = False) \<and> (gr_escaped r2 \<noteq> [] \<longrightarrow> st = Check_failed)
          \<and> (held \<longleftrightarrow> descendant_contained W r1 w1))"
  proof (cases "b \<and> o1 \<noteq> Inl Panicked")
    case False
    have none: "q = None \<and> gr_escaped r' = []"
    proof (cases b)
      case True
      then have "o1 = Inl Panicked" using False by simp
      moreover have "gr_escaped r2 = []" using oe(2) calculation by auto
      ultimately show ?thesis using assms(1) True ob by (auto simp: gate_body_def run)
    qed (use assms(1) e1 in \<open>auto simp: gate_body_def run\<close>)
    then show ?thesis using False by blast
  next
    case True
    show ?thesis
    proof (cases o1)
      case (Inl e)
      then obtain d x where e: "e = Failed d x" using True by (cases e) auto
      obtain rep r3 w3 where c: "containment_report W (with_error d x) Check_failed False r2 w2 = (rep, r3, w3)" by (metis prod_cases3)
      then have "q = Some rep" "r' = r3" "w' = w3" using assms(1) True by (auto simp: gate_body_def run ob Inl e)
      moreover have "\<not> descendant_contained W r1 w1" using observe_contained [OF ob] Inl by simp
      ultimately show ?thesis using c True by blast
    next
      case (Inr v)
      obtain d held where v: "v = (d, held)" by fastforce
      obtain rep r3 w3 where c: "containment_report W d Check_passed held r2 w2 = (rep, r3, w3)" by (metis prod_cases3)
      then have "q = Some rep" "r' = r3" "w' = w3" using assms(1) True by (auto simp: gate_body_def run ob Inr v)
      moreover have "gr_escaped r2 = []" using oe(2) Inr by auto
      moreover have "held \<longleftrightarrow> descendant_contained W r1 w1" using observe_contained [OF ob] Inr v by simp
      ultimately show ?thesis using c True by blast
    qed
  qed
  show "\<exists>rep. q = Some rep \<and> gr_status rep = Check_failed" if left: "gr_escaped r' \<noteq> []"
  proof -
    obtain d st held rep where q: "q = Some rep" "containment_report W d st held r2 w2 = (rep, r', w')"
      "gr_escaped r2 \<noteq> [] \<longrightarrow> st = Check_failed" using split left by auto
    note ce = containment_effect [OF q(2)]
    have "\<exists>c \<in> set (gr_checks rep). \<not> good_status (gc_status c)"
      using ce(1,3) q(3) left by (auto simp: good_status_def)
    then show ?thesis using ce(2) q(1) by (auto simp: summarize_verdict)
  qed
  assume rep: "q = Some rep"
  then obtain d st held where c: "containment_report W d st held r2 w2 = (rep, r', w')" "b"
      "st = Check_passed \<or> st = Check_failed \<and> held = False" "held \<longleftrightarrow> descendant_contained W r1 w1"
    using split by auto
  note ce = containment_effect [OF c(1)]
  obtain ds where ds: "gr_results r2 = ds" "map gc_name ds = map fst (gate_checks W)" "\<forall>x \<in> set ds. gc_status x \<in> {Check_passed, Check_failed}"
    using eff c(2) oe(1) assms(3) by auto
  obtain cg d1 d2 where ch: "gr_checks rep = ds @ [\<lparr>gc_name = ''new-session descendant compatibility'', gc_status = st, gc_detail = d\<rparr>,
        \<lparr>gc_name = ''current cgroup v2 exposure'', gc_status = cg, gc_detail = d1\<rparr>,
        \<lparr>gc_name = ''production command containment'', gc_status = classify_containment held False, gc_detail = d2\<rparr>]"
      "cg \<in> {Check_passed, Check_failed}"
    using ce(3) ds(1) by auto
  let ?cs = "ds @ [\<lparr>gc_name = ''new-session descendant compatibility'', gc_status = st, gc_detail = d\<rparr>,
        \<lparr>gc_name = ''current cgroup v2 exposure'', gc_status = cg, gc_detail = d1\<rparr>]"
  show "gr_status rep = summarize (gr_checks rep)
      \<and> (\<exists>cs held. gr_checks rep = cs @ [last (gr_checks rep)]
           \<and> map gc_name cs = map fst (gate_checks W) @ [''new-session descendant compatibility'', ''current cgroup v2 exposure'']
           \<and> (\<forall>c \<in> set cs. gc_status c \<in> {Check_passed, Check_failed})
           \<and> gc_name (last (gr_checks rep)) = ''production command containment''
           \<and> gc_status (last (gr_checks rep)) = (if held then Check_passed else Check_blocked)
           \<and> map_of (gr_containment rep) ''pgidEscapeContained'' = Some (Gv_bool held)
           \<and> (\<exists>r1 w1. run_checks (gate_checks W) r w = (True, r1, w1) \<and> (held \<longleftrightarrow> descendant_contained W r1 w1)))"
    using ce(2,4) ch c(2,3,4) ds run
    by (intro conjI exI [of _ ?cs] exI [of _ held]) (auto simp: classify_containment_def)
qed

definition gate_names :: "string list" where
  "gate_names = [''health'', ''root-only local client and protected state'', ''singleton state ownership'', ''child identity and customer denial'',
     ''KILL capability is necessary and sufficient'', ''idempotent start, list, and status'', ''stdout/stderr ordering and fresh-ctl replay'',
     ''bounded spool and expired cursor'', ''stdin, close, and wait'', ''TERM and KILL contain ordinary descendants after leader exit'',
     ''killAll contains ordinary descendants'', ''new-session descendant compatibility'', ''current cgroup v2 exposure'',
     ''production command containment'']"

lemma gate_main_cases:
  assumes "gate_main W ctl supervisor dir w = e"
  obtains (panic) r' w' where "gate_body W \<lparr>gr_ctl = ctl, gr_supervisor = supervisor, gr_state_dir = dir, gr_results = [], gr_escaped = []\<rparr> w = (None, r', w')"
      "ge_exit e = 2" "ge_report e = None" "ge_cleaned e" "ge_runner e = r'"
  | (ended) rep r' w' where "gate_body W \<lparr>gr_ctl = ctl, gr_supervisor = supervisor, gr_state_dir = dir, gr_results = [], gr_escaped = []\<rparr> w = (Some rep, r', w')"
      "ge_runner e = r'" "ge_report e = (if gw_encodes W then Some rep else None)"
      "ge_exit e = (if gw_encodes W \<and> gr_status rep \<noteq> Check_failed then 0 else 1)" "ge_cleaned e \<longleftrightarrow> ge_exit e = 0"
proof -
  obtain q r' w' where b: "gate_body W \<lparr>gr_ctl = ctl, gr_supervisor = supervisor, gr_state_dir = dir, gr_results = [], gr_escaped = []\<rparr> w = (q, r', w')"
    by (metis prod_cases3)
  show ?thesis
  proof (cases q)
    case None
    then show ?thesis using b assms by (intro panic) (auto simp: gate_main_def)
  next
    case (Some rep)
    then have "e = gate_main W ctl supervisor dir w" "gate_body W \<lparr>gr_ctl = ctl, gr_supervisor = supervisor, gr_state_dir = dir, gr_results = [], gr_escaped = []\<rparr> w = (Some rep, r', w')"
      using b assms by simp_all
    then show ?thesis
      by (cases "gw_encodes W"; cases "gr_status rep = Check_failed") (rule ended [of rep r' w'], simp_all add: gate_main_def)+
  qed
qed

text \<open>
  C34. The gate's exit status is its verdict and the verdict is earned: every report holds the
  same fourteen checks in the same order, all but the last of which pass or fail; the last,
  on containment in production, passes exactly if, after the other checks, the descendant in its
  own session was observed to be contained (the group killed and waited for, the file to which
  the descendant appends no longer growing, and no signal reaching it) and is blocked otherwise; the report is failed if any check failed, else
  blocked if containment is, else passed; and the gate exits with zero exactly when it has
  written a report that is not failed.
\<close>

theorem gate_verdict:
  assumes "gate_main W ctl supervisor dir w = e" and rep: "ge_report e = Some rep"
  shows "map gc_name (gr_checks rep) = gate_names
    \<and> (\<exists>held. map_of (gr_containment rep) ''pgidEscapeContained'' = Some (Gv_bool held)
        \<and> (\<exists>r1 w1. run_checks (gate_checks W) \<lparr>gr_ctl = ctl, gr_supervisor = supervisor, gr_state_dir = dir, gr_results = [], gr_escaped = []\<rparr> w
               = (True, r1, w1) \<and> (held \<longleftrightarrow> descendant_contained W r1 w1))
        \<and> gc_status (last (gr_checks rep)) = (if held then Check_passed else Check_blocked)
        \<and> gr_status rep = (if \<exists>c \<in> set (gr_checks rep). gc_status c = Check_failed then Check_failed
             else if held then Check_passed else Check_blocked))
    \<and> (\<forall>c \<in> set (butlast (gr_checks rep)). gc_status c \<in> {Check_passed, Check_failed})
    \<and> (ge_exit e = 0 \<longleftrightarrow> gr_status rep \<noteq> Check_failed)"
  using assms(1)
proof (cases rule: gate_main_cases)
  case (ended rep' r' w')
  then have r: "rep' = rep" "gw_encodes W" using rep by (auto split: if_split_asm)
  obtain cs held where v: "gr_status rep = summarize (gr_checks rep)" "gr_checks rep = cs @ [last (gr_checks rep)]"
      "map gc_name cs = map fst (gate_checks W) @ [''new-session descendant compatibility'', ''current cgroup v2 exposure'']"
      "\<forall>c \<in> set cs. gc_status c \<in> {Check_passed, Check_failed}" "gc_name (last (gr_checks rep)) = ''production command containment''"
      "gc_status (last (gr_checks rep)) = (if held then Check_passed else Check_blocked)"
      "map_of (gr_containment rep) ''pgidEscapeContained'' = Some (Gv_bool held)"
      "\<exists>r1 w1. run_checks (gate_checks W) \<lparr>gr_ctl = ctl, gr_supervisor = supervisor, gr_state_dir = dir, gr_results = [], gr_escaped = []\<rparr> w
         = (True, r1, w1) \<and> (held \<longleftrightarrow> descendant_contained W r1 w1)"
    using gate_body_effect(2) [OF ended(1) _ _ r(1) [THEN arg_cong, of Some]] by auto
  have names: "map gc_name (gr_checks rep) = gate_names"
    using v(3,5) by (subst v(2)) (simp add: gate_names_def gate_checks_def)
  have ne: "gr_checks rep \<noteq> []" using names by (auto simp: gate_names_def)
  have elems: "set (gr_checks rep) = insert (last (gr_checks rep)) (set cs)" by (subst v(2)) simp
  have "gr_status rep = (if \<exists>c \<in> set (gr_checks rep). gc_status c = Check_failed then Check_failed
             else if held then Check_passed else Check_blocked)"
    using v(4,6) ne by (auto simp: v(1) summarize_verdict elems good_status_def)
  moreover have "butlast (gr_checks rep) = cs" by (subst v(2)) simp
  ultimately show ?thesis using names v ended(4) r by auto
qed (use rep in simp)

text \<open>
  C36. What escaped is never cleaned up: the clean-up that \<open>main\<close> defers, which is to kill the
  processes recorded as escaped, runs only at ends where none is recorded; and whenever one is
  recorded, the gate exits with status one, without the clean-up.
\<close>

theorem gate_cleanup_misses_escaped:
  assumes "gate_main W ctl supervisor dir w = e"
  shows "(ge_cleaned e \<longleftrightarrow> ge_exit e \<noteq> 1) \<and> (ge_cleaned e \<longrightarrow> gr_escaped (ge_runner e) = [])
    \<and> (gr_escaped (ge_runner e) \<noteq> [] \<longrightarrow> ge_exit e = 1 \<and> \<not> ge_cleaned e)"
  using assms
proof (cases rule: gate_main_cases)
  case (panic r' w')
  have "gr_escaped r' = []" using gate_body_effect(1) [OF panic(1)] by auto
  with panic show ?thesis by simp
next
  case (ended rep r' w')
  have "gr_escaped r' \<noteq> [] \<Longrightarrow> gr_status rep = Check_failed" using gate_body_effect(1) [OF ended(1)] by auto
  with ended show ?thesis by (auto split: if_split_asm)
qed

section \<open>Polling\<close>

text \<open>Time that does not go back, and a sleep that lasts.\<close>

definition steady :: "'w gate_world \<Rightarrow> ('w \<Rightarrow> 'a option \<times> 'w) \<Rightarrow> bool" where
  "steady W attempt \<longleftrightarrow> (\<forall>w. gw_now W w \<le> gw_now W (snd (attempt w))) \<and> (\<forall>w d. 0 \<le> d \<longrightarrow> gw_now W w + d \<le> gw_now W (gw_sleep W d w))"

lemma poll_enough:
  assumes "steady W attempt"
  shows "deadline - gw_now W w \<le> 20 * millisecond * int n \<Longrightarrow> poll W (Suc n + k) deadline attempt w = poll W (Suc n) deadline attempt w
     \<and> (fst (poll W (Suc n) deadline attempt w) = None \<longrightarrow> deadline \<le> gw_now W (snd (poll W (Suc n) deadline attempt w)))"
proof (induction n arbitrary: w)
  case 0
  then show ?case by simp
next
  case (Suc n)
  obtain v w1 where a: "attempt w = (v, w1)" by fastforce
  let ?w2 = "gw_sleep W (20 * millisecond) w1"
  have "gw_now W w + 20 * millisecond \<le> gw_now W ?w2"
    using assms [unfolded steady_def, THEN conjunct1, THEN spec, of w] assms [unfolded steady_def, THEN conjunct2, THEN spec, THEN spec, of "20 * millisecond" w1]
    by (simp add: a)
  then have "deadline - gw_now W ?w2 \<le> 20 * millisecond * int n" using Suc.prems by (simp add: algebra_simps)
  note ih = Suc.IH [OF this]
  show ?case
  proof (cases "gw_now W w < deadline \<and> v = None")
    case True
    then show ?thesis using ih by (simp add: a)
  next
    case False
    then show ?thesis by (cases v) (auto simp: a)
  qed
qed

text \<open>
  The two polling loops of the gate end by their deadline, not by a count: in every world
  whose time does not run backwards and whose sleeps last, more attempts than the model's bound
  change nothing, and giving up means that ten seconds have passed.
\<close>

theorem poll_within_deadline:
  assumes "steady W attempt"
  shows "poll W (poll_fuel + k) (gw_now W w + 10 * second) attempt w = poll W poll_fuel (gw_now W w + 10 * second) attempt w
    \<and> (fst (poll W poll_fuel (gw_now W w + 10 * second) attempt w) = None
        \<longrightarrow> gw_now W w + 10 * second \<le> gw_now W (snd (poll W poll_fuel (gw_now W w + 10 * second) attempt w)))"
proof -
  have "poll_fuel = Suc 500" by (simp add: poll_fuel_def)
  then show ?thesis using poll_enough [OF assms, where n = 500 and k = k and w = w and deadline = "gw_now W w + 10 * second"] by simp
qed

section \<open>A sample world\<close>

text \<open>
  A control client that works only for the last command, and for looking at output; the state
  of the world is the time.
\<close>

definition gate_command :: command where
  "gate_command = \<lparr>cm_id = ''c1'', request_id = ''k'', argv = [], cwd = ''/workspace'', cmd_env = [], spec_hash = [], state = Running,
     exit_code = None, signal_name = [], created_at = 0, started_at = 0, finished_at = 0, next_seq = 2\<rparr>"

definition sample_answer :: gate_response where
  "sample_answer = \<lparr>rs_ok = True, rs_code = [], rs_command = Some gate_command, rs_commands = [],
     rs_events = [\<lparr>se_seq = 1, se_stream = ''stdout'', se_data = ''7''\<rparr>], rs_next_cursor = 1, gs_version = 1, gs_message = []\<rparr>"

definition sample_gate :: "int gate_world" where
  "sample_gate = \<lparr>gw_ctl = (\<lambda>_ rq w. (if rq_request_id rq = ''gate-setsid-escape'' \<or> rq_operation rq = ''connect''
         then Ctl_output [] else Ctl_failed ''exit status 1'' [], w)), gw_decode = (\<lambda>_. Inr sample_answer),
     gw_now = (\<lambda>w. w), gw_sleep = (\<lambda>d w. w + d), gw_euid = 1, gw_pid = 1,
     gw_stat = (\<lambda>_ _. Inr \<lparr>fi_perm = 448, fi_size = 0\<rparr>), gw_remove = (\<lambda>_ w. (None, w)), gw_mkdir = (\<lambda>_ w. (None, w)),
     gw_read = (\<lambda>_ _. Inl ''none''), gw_walk = (\<lambda>_ _. []), gw_kill = (\<lambda>_ _ w. (None, w)),
     gw_second = (\<lambda>_ _ w. (\<lparr>sr_timed_out = True, sr_failed = False, sr_output = []\<rparr>, w)),
     gw_probe = (\<lambda>_ _ w. (None, w)), gw_strerror = (\<lambda>_. []), gw_platform = (''linux'', ''amd64''), gw_encodes = True\<rparr>"

lemma sample_call:
  "gate_ok sample_gate r rq w = (if rq_request_id rq = ''gate-setsid-escape'' \<or> rq_operation rq = ''connect'' then (Inr sample_answer, w)
     else fails (''fresh ctl invocation: '' @ ''exit status 1'' @ '': '' @ gate_truncate [] 256) w)"
  by (simp add: gate_ok_def gate_call_def sample_gate_def sample_answer_def fails_def)

lemma sample_world: "gw_now sample_gate w = w" "gw_stat sample_gate p w = Inr \<lparr>fi_perm = 448, fi_size = 0\<rparr>" "gw_remove sample_gate p w = (None, w)"
  by (simp_all add: sample_gate_def)

lemmas request_defs = blank_request_def operation_def on_command_def start_request_def gate_start_def gate_wait_def gate_signal_def
  gate_connect_def the_command_def

lemma sample_checks: "\<exists>cs. run_checks (gate_checks sample_gate) r w = (True, r\<lparr>gr_results := gr_results r @ cs\<rparr>, w)"
proof -
  have later: "\<exists>cs. run_checks ((name, f) # rest) r w = (True, r\<lparr>gr_results := gr_results r @ cs\<rparr>, w)"
    if stops: "\<exists>d e. f r w = (Inl (Failed d e), w)"
      and others: "\<And>r. \<exists>cs. run_checks rest r w = (True, r\<lparr>gr_results := gr_results r @ cs\<rparr>, w)" for name f rest r
  proof -
    obtain d e where f: "f r w = (Inl (Failed d e), w)" using stops by auto
    obtain cs where "run_checks rest (add_check name Check_failed (with_error d e) r) w
        = (True, (add_check name Check_failed (with_error d e) r)\<lparr>gr_results := gr_results (add_check name Check_failed (with_error d e) r) @ cs\<rparr>, w)"
      using others by blast
    then show ?thesis
      by (intro exI [of _ "\<lparr>gc_name = name, gc_status = Check_failed, gc_detail = with_error d e\<rparr> # cs"]) (simp add: run_check_def f add_check_def)
  qed
  have none: "\<exists>cs. run_checks [] r w = (True, r\<lparr>gr_results := gr_results r @ cs\<rparr>, w)" for r :: gate_runner
    by (simp add: exI [of _ "[]"])
  show ?thesis
    unfolding gate_checks_def
    by (intro later none)
      (simp_all add: check_health_def check_root_and_state_def check_singleton_def check_child_security_def check_kill_capability_def
        check_idempotency_def check_replay_def check_spool_def check_stdin_def check_signals_def check_kill_all_def
        ordinary_descendant_def sample_call request_defs fails_def Let_def, simp_all add: sample_gate_def fails_def)
qed

lemma sample_observe:
  "gr_escaped r = [] \<Longrightarrow> \<exists>d e. observe_setsid sample_gate r w = (Inl (Failed d e), r\<lparr>gr_escaped := [7]\<rparr>, w)"
proof -
  assume r: "gr_escaped r = []"
  have p: "reported_pid sample_answer = Some 7" by code_simp
  have f: "first_pid sample_gate r ''c1'' w = (Inr 7, w)"
    by (simp add: first_pid_def poll_fuel_def pid_attempt_def sample_call request_defs p eval_nat_numeral sample_world)
  have "setsid_start sample_gate r w = (Inr (''c1'', 7), w)"
    using f by (simp add: setsid_start_def sample_call request_defs sample_world) (simp add: sample_answer_def gate_command_def)
  then show ?thesis
    by (simp add: observe_setsid_def r setsid_measure_def sample_call request_defs fails_def)
qed

abbreviation "sample_end \<equiv> gate_main sample_gate ''ctl'' ''supervisor'' ''/run/s'' 0"

lemma sample_body:
  "\<exists>rep r' w'. gate_body sample_gate \<lparr>gr_ctl = ''ctl'', gr_supervisor = ''supervisor'', gr_state_dir = ''/run/s'', gr_results = [], gr_escaped = []\<rparr> 0
     = (Some rep, r', w') \<and> gr_escaped r' = [7]"
proof -
  let ?r = "\<lparr>gr_ctl = ''ctl'', gr_supervisor = ''supervisor'', gr_state_dir = ''/run/s'', gr_results = [], gr_escaped = []\<rparr>"
  obtain cs where run: "run_checks (gate_checks sample_gate) ?r 0 = (True, ?r\<lparr>gr_results := gr_results ?r @ cs\<rparr>, 0)"
    using sample_checks by blast
  obtain d e where ob: "observe_setsid sample_gate (?r\<lparr>gr_results := gr_results ?r @ cs\<rparr>) 0
      = (Inl (Failed d e), ?r\<lparr>gr_results := gr_results ?r @ cs, gr_escaped := [7]\<rparr>, 0)"
    using sample_observe [of "?r\<lparr>gr_results := gr_results ?r @ cs\<rparr>" 0] by auto
  obtain rep r' w' where c: "containment_report sample_gate (with_error d e) Check_failed False
      (?r\<lparr>gr_results := gr_results ?r @ cs, gr_escaped := [7]\<rparr>) 0 = (rep, r', w')" by (metis prod_cases3)
  have "gr_escaped r' = [7]" using containment_effect(1) [OF c] by simp
  then show ?thesis using run ob c by (simp add: gate_body_def)
qed

lemma sample_ends: "gr_escaped (ge_runner sample_end) = [7]" "ge_report sample_end \<noteq> None"
proof -
  obtain rep r' w' where b: "gate_body sample_gate \<lparr>gr_ctl = ''ctl'', gr_supervisor = ''supervisor'', gr_state_dir = ''/run/s'', gr_results = [], gr_escaped = []\<rparr> 0
     = (Some rep, r', w')" "gr_escaped r' = [7]" using sample_body by blast
  have "gw_encodes sample_gate" by (simp add: sample_gate_def)
  then show "gr_escaped (ge_runner sample_end) = [7]" "ge_report sample_end \<noteq> None"
    using b by (simp_all add: gate_main_def)
qed

lemma gate_cleanup_misses_escaped_witness:
  "gr_escaped (ge_runner sample_end) = [7] \<and> ge_exit sample_end = 1 \<and> \<not> ge_cleaned sample_end"
  using gate_cleanup_misses_escaped [OF refl, of sample_gate "''ctl''" "''supervisor''" "''/run/s''" 0] sample_ends(1) by simp

lemma gate_verdict_witness:
  "\<exists>rep. ge_report sample_end = Some rep \<and> length (gr_checks rep) = 14"
proof -
  obtain rep where r: "ge_report sample_end = Some rep" using sample_ends(2) by auto
  from gate_verdict [OF refl r] have "length (map gc_name (gr_checks rep)) = length gate_names" by simp
  then show ?thesis using r by (simp add: gate_names_def)
qed

lemma poll_within_deadline_witness:
  "poll sample_gate (poll_fuel + 9) (gw_now sample_gate 0 + 10 * second) (\<lambda>w. (None :: unit option, w)) 0
    = poll sample_gate poll_fuel (gw_now sample_gate 0 + 10 * second) (\<lambda>w. (None, w)) 0"
  using poll_within_deadline [of sample_gate "\<lambda>w. (None :: unit option, w)" 9 0]
  by (simp add: steady_def sample_gate_def)

definition launched_probe :: probe_env where
  "launched_probe = \<lparr>pe_args = [''/gate'', ''child-security-probe'', ''/run/s''], pe_euid = 10001, pe_egid = 10001, pe_groups = Inr [],
     pe_capget = Inr [(0, 0, 0), (0, 0, 0)], pe_ambient = (\<lambda>c. if c \<ge> 41 then Inl EINVAL else Inr 0), pe_no_new_privs = Inr 1,
     pe_open = (\<lambda>_. Some EACCES), pe_dial = (\<lambda>_. False), pe_capset = (\<lambda>_. None), pe_kill = (\<lambda>_ _. None)\<rparr>"

lemma launched_probe_secure_witness: "child_security_probe launched_probe = (True, 0, ''secure'')"
proof -
  let ?sys = "\<lparr>cy_capset = True, cy_ambient = True, cy_no_new_privs = True, cy_exec = True\<rparr>"
  let ?c = "configure_child ''/gate'' [''gate'', ''child-security-probe'', ''/run/s''] 10001 10001"
  let ?p = "\<lparr>ps_uid = 0, ps_gid = 0, ps_groups = [0], ps_held = {5}, ps_ambient = {}, ps_no_new_privs = False\<rparr>"
  let ?q = "\<lparr>ps_uid = 10001, ps_gid = 10001, ps_groups = [], ps_held = {}, ps_ambient = {}, ps_no_new_privs = True\<rparr>"
  have l: "trampoline ?sys (cc_args ?c) (take_credential (cc_credential ?c) ?p) = Executes ''/gate'' [''/gate'', ''child-security-probe'', ''/run/s''] ?q"
    by (simp add: trampoline_def configure_child_def clear_child_security_def take_credential_def)
  have "sees ?q 41 launched_probe" by (simp add: sees_def launched_probe_def no_capabilities_def)
  with launched_probe_secure [OF l] show ?thesis by (simp add: launched_probe_def)
qed

end
