(* ===== verification/Spec2Isabelle.thy ===== *)
theory Spec2Isabelle
  imports Registry_Props Recovery File_Helper_Props Kube_Sweep Http_Props Workload_Response Sdk_Pager Sdk_Remote Supervisor_Child Service_Runs Gate_Props
begin

text \<open>
  A verification development for the Go code of the agent sandbox platform: a control plane
  that grants temporary leases on sandboxes in Kubernetes, a router that lets a browser reach a
  web server inside a sandbox, a supervisor that runs commands inside a sandbox, the gate that
  tests the supervisor on a platform, and the Go SDK of the HTTP API.

  \<^bold>\<open>How the parts interact.\<close> A consumer's program calls the SDK (\<open>packages/sdk-go\<close>). The SDK
  sends requests with a subject token to the HTTP API of the control plane
  (\<open>apps/control-plane-go\<close>: \<open>httpapi\<close>, \<open>auth\<close>, \<open>lease\<close>), which calls the lease backend on
  Kubernetes (\<open>backend/kubernetes\<close>). The backend keeps no state of its own but the table of
  running file transfers: a lease is a \<open>SandboxClaim\<close> object of the API server. Commands and
  files go into the Pod through its exec interface; a file transfer runs a helper in the Pod
  (\<open>images/runtime/file-transfer\<close>) and the two speak the ASP1 protocol. The router
  (\<open>apps/workload-router\<close>) holds exposures in memory; a one-time capability is exchanged for a
  session cookie, with which requests are forwarded to the workload. The supervisor
  (\<open>apps/command-supervisor\<close>) keeps commands with a bounded spool of their output on disk and
  serves a framed protocol on a socket; \<open>cmd/platform-gate\<close> drives it and reports.

  \<^bold>\<open>Shared ground.\<close> \<open>Prelude\<close>: errors as \<open>Inl\<close> and results as \<open>Inr\<close>, steps with state
  (\<open>bind_st\<close>), 64-bit wrap-around of times, lemmas on lists and maps. \<open>Go_Strings\<close>: what is used
  of \<open>strings\<close>, \<open>path\<close>, \<open>strconv\<close>. \<open>Base64\<close>: base64 and hexadecimal. \<open>Transition\<close>: the locales
  \<open>transition_system\<close> and \<open>stable_property\<close>, interpreted on every state machine below.

  \<^bold>\<open>Workload router.\<close> \<open>Registry\<close> has one definition per operation of
  \<open>internal/auth/registry.go\<close>, split where the code releases its lock; \<open>Registry_Inv\<close> their
  invariant; \<open>Router_System\<close> is the step relation of all callers, timers, slots and tracked
  connections in any interleaving, and \<open>Registry_Safety\<close> its invariants. \<open>Registry_Props\<close>:
  capabilities are single use, sessions authenticate one exposure, revocation, expiry and
  shutdown deny everything later. \<open>Http_Headers\<close>, \<open>Workload_Router\<close> (\<open>internal/router/router.go\<close>,
  \<open>internal/resolver/resolver.go\<close>), \<open>Workload_Router_Props\<close> and \<open>Workload_Response\<close> are the data
  plane: only authorized requests are forwarded and without the router's own credentials, what
  a workload's response may carry, and that a capability does open the way to the workload.

  \<^bold>\<open>Command supervisor.\<close> \<open>Spool\<close> is the binary log of \<open>persistence.go\<close> with the outcome of
  every system call as an input; \<open>Spool_Props\<close> shows that it refines a bounded list of events
  and that no failure or crash damages it. \<open>Supervisor\<close> is \<open>manager.go\<close> with the dispatch of
  \<open>server.go\<close>; \<open>Supervisor_Inv\<close> its step relation and invariant; \<open>Supervisor_Props\<close> idempotent
  starts, life cycles, durability and cursors; \<open>Recovery\<close> is \<open>load\<close> after a crash.
  \<open>Supervisor_Server\<close> is the framing, the server and the client; \<open>Supervisor_Boot\<close> the start under
  the state lock by any number of processes; \<open>Supervisor_Child\<close> the launch of a child
  (\<open>process_linux.go\<close>). \<open>Gate_Report\<close>, \<open>Platform_Gate\<close> and \<open>Gate_Probe\<close> are the platform gate
  (\<open>internal/gate\<close>, \<open>cmd/platform-gate\<close>) over a record of what it calls outside itself;
  \<open>Gate_Props\<close> shows its verdict, that its clean-up never meets an escaped process, and that a
  child launched by the supervisor passes its security probe.

  \<^bold>\<open>Control plane.\<close> \<open>Lease_Types\<close> (\<open>lease.go\<close>), \<open>Subject_Auth\<close> (\<open>auth.go\<close>), \<open>Pod_Exec\<close> (\<open>exec.go\<close>:
  paths, quoting, bounded output), \<open>File_Transfer\<close> (\<open>transfer.go\<close>: the transfer manager as a state
  machine and the ASP1 protocol), \<open>File_Helper\<close> (\<open>file-transfer/main.go\<close>), \<open>List_Cursor\<close>
  (\<open>identity.go\<close>, \<open>cursor.go\<close>), \<open>Kube_Backend\<close> and \<open>Kube_Ops\<close> (\<open>backend.go\<close> and the operations of
  \<open>exec.go\<close> and \<open>transfer.go\<close>), \<open>Http_Api\<close> (\<open>server.go\<close>), \<open>Control_Plane\<close> (\<open>app.go\<close>,
  \<open>cmd/control-plane\<close>). Their properties: \<open>Pod_Exec_Props\<close>, \<open>File_Transfer_Props\<close>,
  \<open>File_Helper_Props\<close> (both halves of a transfer together), \<open>Kube_Laws\<close> (the laws of the API
  server and the effect of each building block), \<open>Kube_Sample\<close> (an API server that satisfies
  them), \<open>Kube_Props\<close>, \<open>Kube_Acquire\<close>, \<open>Kube_Sweep\<close>, \<open>Http_Props\<close>. \<open>Http_Props\<close> states what the
  HTTP server needs of a backend as the locale \<open>lease_service\<close> and interprets it on the
  Kubernetes backend; \<open>Service_Runs\<close> does the same with \<open>api_frame\<close>, for relations that every
  backend call keeps, and carries the limits of the transfer manager through whole runs of the
  process.

  \<^bold>\<open>SDK.\<close> \<open>Sdk_Client\<close> (\<open>client.go\<close>, \<open>errors.go\<close>, \<open>models.go\<close>, \<open>credentials.go\<close>,
  \<open>files.go\<close>), \<open>Sdk_Pager\<close>, \<open>Sdk_Stream\<close> (\<open>stream.go\<close>), \<open>Sdk_Sandbox\<close> (the terminal transition of
  \<open>sandbox.go\<close> in every interleaving). \<open>Sdk_Remote\<close> composes the client with the handlers of the
  control plane: a call of the SDK is the call of the backend.

  \<^bold>\<open>Conventions.\<close> Strings and byte slices are lists of characters that stand for bytes. Go maps
  are partial maps, or association lists where order matters. A critical section of the code is
  one step; what another goroutine can do between two of them is an interleaving. Clock
  readings, random bytes, outcomes of system calls and of waits are arguments, so that a
  theorem about all arguments is about all of them. Code outside the repository is a parameter:
  HMAC, SHA-256, AEAD, JSON, URL parsing, the API server, the remote executor, the kernel. What
  is assumed of it is a named hypothesis (\<open>kube_laws\<close>, \<open>aead_laws\<close>, \<open>dns_law\<close> and the like), and
  every theorem with hypotheses is applied to a concrete input where they hold.

  \<^bold>\<open>Bounds.\<close> Loops are recursion on the data. The pager may run forever and is a
  \<open>partial_function\<close>; that it returns is a theorem of its own. The wait for a ready sandbox runs
  over the list of its waits, which a deadline makes finite. The polling loops of the gate have
  a bound of 501 attempts, which \<open>poll_within_deadline\<close> shows to be enough for ten seconds at
  twenty milliseconds each.

  \<^bold>\<open>Not modelled.\<close> Message texts and logs (the gate's texts are), timeouts of the HTTP servers
  and read deadlines of bodies, the text of the bootstrap page and the fixed security headers;
  construction of Kubernetes clients and the forwarding to client-go; the parsing of flags;
  stand-ins for systems other than Linux; examples, the end-to-end driver, the clients in other
  languages, charts, images and scripts. Operations of the lease backend are run one at a time
  on the cluster: what two of them do to each other through the API server is not covered,
  except for transfers, whose steps interleave freely.
\<close>

end
